(* ===== verification/SF_Prelude.thy ===== *)
theory SF_Prelude
  imports
    Main
    "HOL-Library.Char_ord"
    "HOL-Library.List_Lexorder"
    "HOL-Library.Word"
    "HOL-Library.Sublist"
begin

text \<open>
  The vocabulary every component of the extension shares: the exceptions the C++ code throws
  as a sum type, the operations of the C++ standard library on \<^verbatim>\<open>std::string\<close> and on
  integers that the sources call, the functions of DuckDB's \<^verbatim>\<open>StringUtil\<close> (code that is
  not part of the repository, and therefore a record of functions that the definitions take
  as an argument), and the state-and-exception computations in which the session, the quota
  governor and the scan are written.

  Conventions. A \<^verbatim>\<open>std::string\<close> is a \<^typ>\<open>string\<close>, one \<^typ>\<open>char\<close> per
  byte. A position that the code uses only to read forward is the suffix that starts there;
  \<^verbatim>\<open>npos\<close> is \<^term>\<open>None\<close>. An \<^verbatim>\<open>int64_t\<close> is an \<^typ>\<open>int\<close> with the
  range checks and the wrap-around written out where a value can leave the range.
\<close>

named_theorems sf_simps \<open>unfolding rules for the primitive operations of the model\<close>

named_theorems sfm_simps \<open>equations that run a state-and-exception computation\<close>

section \<open>Exceptions and results\<close>

datatype sf_error =
    BinderException string
  | IOException string
  | InvalidInputException string
  | NotImplementedException string
  | InternalException string

type_synonym 'a result = "sf_error + 'a"

fun message_of :: "sf_error \<Rightarrow> string" where
  "message_of (BinderException m) = m"
| "message_of (IOException m) = m"
| "message_of (InvalidInputException m) = m"
| "message_of (NotImplementedException m) = m"
| "message_of (InternalException m) = m"

definition rbind :: "'a result \<Rightarrow> ('a \<Rightarrow> 'b result) \<Rightarrow> 'b result" where
  "rbind r k = (case r of Inl e \<Rightarrow> Inl e | Inr x \<Rightarrow> k x)"

lemma rbind_simps [simp]:
  "rbind (Inl e) k = Inl e"
  "rbind (Inr x) k = k x"
  by (simp_all add: rbind_def)

lemma rbind_eq_Inr: "rbind r k = Inr y \<longleftrightarrow> (\<exists>x. r = Inr x \<and> k x = Inr y)"
  by (cases r) auto

lemma rbind_eq_Inl: "rbind r k = Inl e \<longleftrightarrow> r = Inl e \<or> (\<exists>x. r = Inr x \<and> k x = Inl e)"
  by (cases r) auto

lemma rbind_cong [fundef_cong]:
  "r = r' \<Longrightarrow> (\<And>x. r' = Inr x \<Longrightarrow> k x = k' x) \<Longrightarrow> rbind r k = rbind r' k'"
  by (cases r') auto

section \<open>Computations with state and exceptions\<close>

text \<open>
  A computation runs from a state to a result and the state it leaves; an exception keeps
  the state changes made before it was thrown, as in the C++ code.
\<close>

type_synonym ('s, 'a) sfm = "'s \<Rightarrow> 'a result \<times> 's"

definition ret :: "'a \<Rightarrow> ('s, 'a) sfm" where
  "ret x = (\<lambda>s. (Inr x, s))"

definition throw :: "sf_error \<Rightarrow> ('s, 'a) sfm" where
  "throw e = (\<lambda>s. (Inl e, s))"

definition bnd :: "('s, 'a) sfm \<Rightarrow> ('a \<Rightarrow> ('s, 'b) sfm) \<Rightarrow> ('s, 'b) sfm" where
  "bnd m k = (\<lambda>s. case m s of (Inl e, s') \<Rightarrow> (Inl e, s') | (Inr x, s') \<Rightarrow> k x s')"

text \<open>\<^verbatim>\<open>try { m } catch (...) { return d; }\<close>\<close>

definition catch_all :: "('s, 'a) sfm \<Rightarrow> 'a \<Rightarrow> ('s, 'a) sfm" where
  "catch_all m d = (\<lambda>s. case m s of (Inl e, s') \<Rightarrow> (Inr d, s') | (Inr x, s') \<Rightarrow> (Inr x, s'))"

definition gets :: "('s \<Rightarrow> 'a) \<Rightarrow> ('s, 'a) sfm" where
  "gets f = (\<lambda>s. (Inr (f s), s))"

definition upd :: "('s \<Rightarrow> 's) \<Rightarrow> ('s, unit) sfm" where
  "upd f = (\<lambda>s. (Inr (), f s))"

definition of_result :: "'a result \<Rightarrow> ('s, 'a) sfm" where
  "of_result r = (\<lambda>s. (r, s))"

lemma sfm_run [sfm_simps]:
  "ret x s = (Inr x, s)"
  "throw e s = (Inl e, s)"
  "gets f s = (Inr (f s), s)"
  "upd g s = (Inr (), g s)"
  "of_result r s = (r, s)"
  by (simp_all add: ret_def throw_def gets_def upd_def of_result_def)

lemma bnd_run [sfm_simps]:
  "bnd m k s = (case m s of (Inl e, s') \<Rightarrow> (Inl e, s') | (Inr x, s') \<Rightarrow> k x s')"
  by (simp add: bnd_def)

lemma catch_all_run [sfm_simps]:
  "catch_all m d s = (case m s of (Inl e, s') \<Rightarrow> (Inr d, s') | (Inr x, s') \<Rightarrow> (Inr x, s'))"
  by (simp add: catch_all_def)

lemma bnd_Inl: "m s = (Inl e, s') \<Longrightarrow> bnd m k s = (Inl e, s')"
  by (simp add: bnd_def)

lemma bnd_Inr: "m s = (Inr x, s') \<Longrightarrow> bnd m k s = k x s'"
  by (simp add: bnd_def)

lemma bnd_eq_InrE:
  assumes "bnd m k s = (Inr y, t)"
  obtains x u where "m s = (Inr x, u)" "k x u = (Inr y, t)"
  using assms by (auto simp: bnd_def split: prod.splits sum.splits)

lemma catch_all_never_throws: "fst (catch_all m d s) \<noteq> Inl e"
  by (auto simp: catch_all_def split: prod.splits sum.splits)

section \<open>Characters\<close>

abbreviation code_of :: "char \<Rightarrow> nat" where
  "code_of c \<equiv> (of_char c :: nat)"

text \<open>\<^verbatim>\<open>std::isdigit\<close>, \<^verbatim>\<open>std::isalnum\<close>, \<^verbatim>\<open>std::tolower\<close> in the C locale.\<close>

definition isdigit :: "char \<Rightarrow> bool" where
  "isdigit c \<longleftrightarrow> 48 \<le> code_of c \<and> code_of c \<le> 57"

definition isupper :: "char \<Rightarrow> bool" where
  "isupper c \<longleftrightarrow> 65 \<le> code_of c \<and> code_of c \<le> 90"

definition islower :: "char \<Rightarrow> bool" where
  "islower c \<longleftrightarrow> 97 \<le> code_of c \<and> code_of c \<le> 122"

definition isalnum :: "char \<Rightarrow> bool" where
  "isalnum c \<longleftrightarrow> isdigit c \<or> isupper c \<or> islower c"

definition tolower :: "char \<Rightarrow> char" where
  "tolower c = (if isupper c then char_of (code_of c + 32) else c)"

definition toupper :: "char \<Rightarrow> char" where
  "toupper c = (if islower c then char_of (code_of c - 32) else c)"

text \<open>The control characters the sources name, which have no literal in ASCII text.\<close>

abbreviation LF :: char where "LF \<equiv> CHR 0x0A"
abbreviation CR :: char where "CR \<equiv> CHR 0x0D"
abbreviation TAB :: char where "TAB \<equiv> CHR 0x09"
abbreviation DQ :: char where "DQ \<equiv> CHR 0x22"
abbreviation SQ :: char where "SQ \<equiv> CHR 0x27"
abbreviation BSL :: char where "BSL \<equiv> CHR 0x5C"

text \<open>The UTF-8 bytes of the dash that a few error messages contain.\<close>

definition emdash :: string where
  "emdash = [CHR 0xE2, CHR 0x80, CHR 0x94]"

section \<open>Operations on strings\<close>

text \<open>\<^verbatim>\<open>s.find(n)\<close>: the leftmost position at which \<open>n\<close> occurs.\<close>

fun str_find :: "string \<Rightarrow> string \<Rightarrow> nat option" where
  "str_find [] n = (if n = [] then Some 0 else None)"
| "str_find (c # s) n =
     (if prefix n (c # s) then Some 0 else map_option Suc (str_find s n))"

text \<open>\<^verbatim>\<open>s.find(n, pos)\<close>\<close>

definition str_find_at :: "string \<Rightarrow> string \<Rightarrow> nat \<Rightarrow> nat option" where
  "str_find_at s n pos =
     (if pos > length s then None else map_option ((+) pos) (str_find (drop pos s) n))"

text \<open>\<^verbatim>\<open>s.rfind(c)\<close>: the rightmost position of a character.\<close>

fun str_rfind :: "string \<Rightarrow> char \<Rightarrow> nat option" where
  "str_rfind [] c = None"
| "str_rfind (d # s) c =
     (case str_rfind s c of Some i \<Rightarrow> Some (Suc i) | None \<Rightarrow> if d = c then Some 0 else None)"

text \<open>\<^verbatim>\<open>s.find_first_of(set, pos)\<close>\<close>

fun str_find_if :: "(char \<Rightarrow> bool) \<Rightarrow> string \<Rightarrow> nat option" where
  "str_find_if p [] = None"
| "str_find_if p (c # s) = (if p c then Some 0 else map_option Suc (str_find_if p s))"

definition str_contains :: "string \<Rightarrow> string \<Rightarrow> bool" where
  "str_contains s n \<longleftrightarrow> str_find s n \<noteq> None"

lemma str_find_SomeD:
  "str_find s n = Some i \<Longrightarrow> i + length n \<le> length s \<and> prefix n (drop i s)"
proof (induction s arbitrary: i)
  case Nil
  then show ?case by (auto split: if_splits)
next
  case (Cons c s)
  show ?case
  proof (cases "prefix n (c # s)")
    case True
    with Cons.prems show ?thesis using prefix_length_le by fastforce
  next
    case False
    with Cons.prems obtain j where "str_find s n = Some j" "i = Suc j" by auto
    with Cons.IH show ?thesis by auto
  qed
qed

lemma str_find_None: "str_find s n = None \<longleftrightarrow> \<not> sublist n s"
  by (induction s) (auto simp: sublist_Cons_right)

lemma str_contains_sublist [sf_simps]: "str_contains s n \<longleftrightarrow> sublist n s"
  by (simp add: str_contains_def str_find_None)

lemma str_find_least:
  "str_find s n = Some i \<Longrightarrow> j < i \<Longrightarrow> \<not> prefix n (drop j s)"
proof (induction s arbitrary: i j)
  case Nil
  then show ?case by (auto split: if_splits)
next
  case (Cons c s)
  from Cons.prems have np: "\<not> prefix n (c # s)" by (auto split: if_splits)
  with Cons.prems obtain k where "str_find s n = Some k" "i = Suc k" by auto
  with Cons.IH Cons.prems(2) np show ?case by (cases j) auto
qed

lemma str_find_append: "\<exists>i. str_find (xs @ n @ ys) n = Some i"
  using str_find_None [of "xs @ n @ ys" n] by (auto simp: sublist_def)

section \<open>Decimal numbers\<close>

definition digit_char :: "nat \<Rightarrow> char" where
  "digit_char d = char_of (48 + d)"

text \<open>\<^verbatim>\<open>std::to_string\<close>, and \<^verbatim>\<open>%d\<close> and \<^verbatim>\<open>%lld\<close> in a format.\<close>

fun show_nat :: "nat \<Rightarrow> string" where
  "show_nat n =
     (if n < 10 then [digit_char n] else show_nat (n div 10) @ [digit_char (n mod 10)])"

declare show_nat.simps [simp del]

definition show_int :: "int \<Rightarrow> string" where
  "show_int i = (if i < 0 then CHR ''-'' # show_nat (nat (- i)) else show_nat (nat i))"

definition digit_val :: "char \<Rightarrow> nat" where
  "digit_val c = code_of c - 48"

definition digits_val :: "string \<Rightarrow> nat" where
  "digits_val ds = foldl (\<lambda>v c. v * 10 + digit_val c) 0 ds"

definition int64_max :: int where "int64_max = 2 ^ 63 - 1"
definition int64_min :: int where "int64_min = - (2 ^ 63)"
definition int32_max :: int where "int32_max = 2 ^ 31 - 1"
definition int32_min :: int where "int32_min = - (2 ^ 31)"

text \<open>Two's complement reduction to 64 bits, for arithmetic that may leave the range.\<close>

definition wrap64 :: "int \<Rightarrow> int" where
  "wrap64 x = (x + 2 ^ 63) mod 2 ^ 64 - 2 ^ 63"

text \<open>Two's complement reduction to 32 bits, for \<^verbatim>\<open>static_cast<int>\<close> of a wider value.\<close>

definition wrap32 :: "int \<Rightarrow> int" where
  "wrap32 x = (x + 2 ^ 31) mod 2 ^ 32 - 2 ^ 31"

lemma wrap64_id: "int64_min \<le> x \<Longrightarrow> x \<le> int64_max \<Longrightarrow> wrap64 x = x"
  by (simp add: wrap64_def int64_min_def int64_max_def)

lemma wrap64_range: "int64_min \<le> wrap64 x \<and> wrap64 x \<le> int64_max"
proof -
  have "0 \<le> (x + 2 ^ 63) mod 2 ^ 64" "(x + 2 ^ 63) mod 2 ^ 64 < 2 ^ 64" by simp_all
  then show ?thesis by (simp add: wrap64_def int64_min_def int64_max_def)
qed

lemma wrap32_id: "int32_min \<le> x \<Longrightarrow> x \<le> int32_max \<Longrightarrow> wrap32 x = x"
  by (simp add: wrap32_def int32_min_def int32_max_def)

text \<open>C++ integer division truncates towards zero.\<close>

definition tdiv :: "int \<Rightarrow> int \<Rightarrow> int" where
  "tdiv a b = (if (a < 0) = (b < 0) then \<bar>a\<bar> div \<bar>b\<bar> else - (\<bar>a\<bar> div \<bar>b\<bar>))"

lemma tdiv_nonneg: "0 \<le> a \<Longrightarrow> 0 < b \<Longrightarrow> tdiv a b = a div b"
  by (simp add: tdiv_def)

text \<open>The C library's white space, as \<^verbatim>\<open>std::stoll\<close> and its kin skip it.\<close>

definition isspace_c :: "char \<Rightarrow> bool" where
  "isspace_c c \<longleftrightarrow> code_of c = 32 \<or> (9 \<le> code_of c \<and> code_of c \<le> 13)"

text \<open>
  The common part of \<^verbatim>\<open>strtoll\<close> and its wrappers: skip white space, read an optional sign
  and the longest run of digits. \<^term>\<open>None\<close> is "no digits".
\<close>

definition parse_signed :: "string \<Rightarrow> int option" where
  "parse_signed s =
     (let t = dropWhile isspace_c s;
          (neg, u) = (case t of c # r \<Rightarrow> if c = CHR ''-'' then (True, r)
                                         else if c = CHR ''+'' then (False, r) else (False, t)
                              | [] \<Rightarrow> (False, t));
          ds = takeWhile isdigit u
      in if ds = [] then None
         else Some (if neg then - int (digits_val ds) else int (digits_val ds)))"

text \<open>\<^verbatim>\<open>std::stoll\<close> / \<^verbatim>\<open>std::stoi\<close>: \<^term>\<open>None\<close> is the exception they throw.\<close>

definition stoll :: "string \<Rightarrow> int option" where
  "stoll s = (case parse_signed s of None \<Rightarrow> None
     | Some v \<Rightarrow> if int64_min \<le> v \<and> v \<le> int64_max then Some v else None)"

definition stoi :: "string \<Rightarrow> int option" where
  "stoi s = (case parse_signed s of None \<Rightarrow> None
     | Some v \<Rightarrow> if int32_min \<le> v \<and> v \<le> int32_max then Some v else None)"

text \<open>\<^verbatim>\<open>strtoll\<close>: 0 without digits, clamped to the range.\<close>

definition strtoll :: "string \<Rightarrow> int" where
  "strtoll s = (case parse_signed s of None \<Rightarrow> 0 | Some v \<Rightarrow> max int64_min (min int64_max v))"

lemma stoll_range: "stoll s = Some v \<Longrightarrow> int64_min \<le> v \<and> v \<le> int64_max"
  by (auto simp: stoll_def split: option.splits if_splits)

lemma code_of_less: "code_of c < 256"
  by (simp add: of_char_def)

lemma code_of_char_of [simp]: "n < 256 \<Longrightarrow> code_of (char_of n) = n"
  by simp

lemma digit_val_digit_char [simp]: "d < 10 \<Longrightarrow> digit_val (digit_char d) = d"
  by (simp add: digit_val_def digit_char_def)

lemma isdigit_digit_char [simp]: "d < 10 \<Longrightarrow> isdigit (digit_char d)"
  by (simp add: isdigit_def digit_char_def)

lemma digits_val_snoc [simp]: "digits_val (ds @ [c]) = digits_val ds * 10 + digit_val c"
  by (simp add: digits_val_def)

lemma show_nat_digits: "list_all isdigit (show_nat n)"
proof (induction n rule: show_nat.induct)
  case (1 n)
  then show ?case by (cases "n < 10") (simp_all add: show_nat.simps [of n])
qed

lemma digits_val_show_nat: "digits_val (show_nat n) = n"
proof (induction n rule: show_nat.induct)
  case (1 n)
  then show ?case by (cases "n < 10") (simp_all add: show_nat.simps [of n], simp add: digits_val_def)
qed

lemma show_nat_nonempty [simp]: "show_nat n \<noteq> []"
  by (subst show_nat.simps) simp

lemma isdigit_sign: "isdigit c \<Longrightarrow> c \<noteq> CHR ''-'' \<and> c \<noteq> CHR ''+'' \<and> \<not> isspace_c c"
  by (auto simp: isdigit_def isspace_c_def)

section \<open>DuckDB's string utilities\<close>

text \<open>
  \<^verbatim>\<open>StringUtil\<close> belongs to DuckDB. The model takes its functions as a record; what a
  property needs of them is stated by \<open>ascii_string_util\<close>, DuckDB's documented behaviour:
  ASCII case folding, trimming of white space at one end, and splitting at a separator.
\<close>

record string_util =
  su_Lower :: "string \<Rightarrow> string"
  su_Upper :: "string \<Rightarrow> string"
  su_CIEquals :: "string \<Rightarrow> string \<Rightarrow> bool"
  su_LTrim :: "string \<Rightarrow> string"
  su_RTrim :: "string \<Rightarrow> string"
  su_StartsWith :: "string \<Rightarrow> string \<Rightarrow> bool"
  su_Contains :: "string \<Rightarrow> string \<Rightarrow> bool"
  su_Split :: "string \<Rightarrow> char \<Rightarrow> string list"

fun split_on_char :: "char \<Rightarrow> string \<Rightarrow> string list" where
  "split_on_char sep [] = [[]]"
| "split_on_char sep (c # s) =
     (if c = sep then [] # split_on_char sep s
      else case split_on_char sep s of [] \<Rightarrow> [[c]] | w # ws \<Rightarrow> (c # w) # ws)"

text \<open>The instance at which the witnesses evaluate the definitions.\<close>

definition ascii_su :: string_util where
  "ascii_su = \<lparr>
     su_Lower = map tolower,
     su_Upper = map toupper,
     su_CIEquals = (\<lambda>a b. map tolower a = map tolower b),
     su_LTrim = dropWhile isspace_c,
     su_RTrim = (\<lambda>s. rev (dropWhile isspace_c (rev s))),
     su_StartsWith = (\<lambda>s p. prefix p s),
     su_Contains = str_contains,
     su_Split = (\<lambda>s sep. split_on_char sep s) \<rparr>"

locale string_utilities =
  fixes D :: string_util
  assumes Lower_eq: "su_Lower D s = map tolower s"
    and Upper_eq: "su_Upper D s = map toupper s"
    and CIEquals_eq: "su_CIEquals D a b \<longleftrightarrow> su_Lower D a = su_Lower D b"
    and StartsWith_eq: "su_StartsWith D s p \<longleftrightarrow> prefix p s"
    and LTrim_eq: "su_LTrim D s = dropWhile isspace_c s"
    and RTrim_eq: "su_RTrim D s = rev (dropWhile isspace_c (rev s))"
    and Contains_eq: "su_Contains D s n \<longleftrightarrow> sublist n s"
    and Split_eq: "su_Split D s c = split_on_char c s"
begin

lemma CIEquals_refl: "su_CIEquals D a a"
  by (simp add: CIEquals_eq)

lemma CIEquals_sym: "su_CIEquals D a b \<longleftrightarrow> su_CIEquals D b a"
  by (auto simp: CIEquals_eq)

lemma CIEquals_trans: "su_CIEquals D a b \<Longrightarrow> su_CIEquals D b c \<Longrightarrow> su_CIEquals D a c"
  by (simp add: CIEquals_eq)

lemma length_Lower: "length (su_Lower D s) = length s"
  by (simp add: Lower_eq)

lemma trimmed_no_outer_space:
  assumes "su_RTrim D (su_LTrim D s) = c # t"
  shows "\<not> isspace_c c"
proof -
  let ?u = "dropWhile isspace_c s"
  have u: "rev (dropWhile isspace_c (rev ?u)) = c # t"
    using assms by (simp add: LTrim_eq RTrim_eq)
  have "suffix (dropWhile isspace_c (rev ?u)) (rev ?u)"
    by (rule suffix_dropWhile)
  then have "prefix (c # t) ?u"
    using u by (simp add: suffix_to_prefix)
  then obtain r where "?u = c # r" by (auto simp: prefix_def)
  then show ?thesis using hd_dropWhile [of isspace_c s] by (metis list.distinct(1) list.sel(1))
qed

end

interpretation ascii: string_utilities ascii_su
  by unfold_locales (simp_all add: ascii_su_def sf_simps)

section \<open>Characters by their bits\<close>

text \<open>
  Code equations on the bits of a character: evaluation by \<open>code_simp\<close> does not go through the
  character's number.
\<close>

lemma isupper_bits [code]:
  "isupper (Char b0 b1 b2 b3 b4 b5 b6 b7) \<longleftrightarrow>
     \<not> b7 \<and> b6 \<and> \<not> b5 \<and> (b4 \<or> b3 \<or> b2 \<or> b1 \<or> b0) \<and> \<not> (b4 \<and> b3 \<and> (b2 \<or> b1 \<and> b0))"
  by (cases b0; cases b1; cases b2; cases b3; cases b4; cases b5; cases b6; cases b7) (simp_all add: isupper_def)

lemma islower_bits [code]:
  "islower (Char b0 b1 b2 b3 b4 b5 b6 b7) \<longleftrightarrow>
     \<not> b7 \<and> b6 \<and> b5 \<and> (b4 \<or> b3 \<or> b2 \<or> b1 \<or> b0) \<and> \<not> (b4 \<and> b3 \<and> (b2 \<or> b1 \<and> b0))"
  by (cases b0; cases b1; cases b2; cases b3; cases b4; cases b5; cases b6; cases b7) (simp_all add: islower_def)

lemma isdigit_bits [code]:
  "isdigit (Char b0 b1 b2 b3 b4 b5 b6 b7) \<longleftrightarrow> \<not> b7 \<and> \<not> b6 \<and> b5 \<and> b4 \<and> \<not> (b3 \<and> (b2 \<or> b1))"
  by (cases b0; cases b1; cases b2; cases b3; cases b4; cases b5; cases b6; cases b7) (simp_all add: isdigit_def)

lemma isspace_c_bits [code]:
  "isspace_c (Char b0 b1 b2 b3 b4 b5 b6 b7) \<longleftrightarrow> \<not> b7 \<and> \<not> b6 \<and> \<not> b4 \<and>
     (if b5 then \<not> b3 \<and> \<not> b2 \<and> \<not> b1 \<and> \<not> b0 else b3 \<and> (if b2 then \<not> b1 else b1 \<or> b0))"
  by (cases b0; cases b1; cases b2; cases b3; cases b4; cases b5; cases b6; cases b7) (simp_all add: isspace_c_def)

lemma isupper_tolower: "isupper (Char b0 b1 b2 b3 b4 b5 b6 b7) \<Longrightarrow>
    char_of (code_of (Char b0 b1 b2 b3 b4 b5 b6 b7) + 32) = Char b0 b1 b2 b3 b4 True b6 b7"
  unfolding isupper_bits
  by (cases b0; cases b1; cases b2; cases b3; cases b4) (simp_all add: char_of_def bit_0)

lemma tolower_bits [code]:
  "tolower (Char b0 b1 b2 b3 b4 b5 b6 b7) =
     (if isupper (Char b0 b1 b2 b3 b4 b5 b6 b7) then Char b0 b1 b2 b3 b4 True b6 b7 else Char b0 b1 b2 b3 b4 b5 b6 b7)"
  by (simp only: tolower_def isupper_tolower cong: if_cong)

lemma islower_toupper: "islower (Char b0 b1 b2 b3 b4 b5 b6 b7) \<Longrightarrow>
    char_of (code_of (Char b0 b1 b2 b3 b4 b5 b6 b7) - 32) = Char b0 b1 b2 b3 b4 False b6 b7"
  unfolding islower_bits
  by (cases b0; cases b1; cases b2; cases b3; cases b4) (simp_all add: char_of_def bit_0)

lemma toupper_bits [code]:
  "toupper (Char b0 b1 b2 b3 b4 b5 b6 b7) =
     (if islower (Char b0 b1 b2 b3 b4 b5 b6 b7) then Char b0 b1 b2 b3 b4 False b6 b7 else Char b0 b1 b2 b3 b4 b5 b6 b7)"
  by (simp only: toupper_def islower_toupper cong: if_cong)

lemma digit_val_bits [code]:
  "digit_val (Char b0 b1 b2 b3 b4 b5 b6 b7) =
     (if isdigit (Char b0 b1 b2 b3 b4 b5 b6 b7) then of_bool b0 + 2 * of_bool b1 + 4 * of_bool b2 + 8 * of_bool b3
      else code_of (Char b0 b1 b2 b3 b4 b5 b6 b7) - 48)"
  unfolding isdigit_bits
  by (cases b0; cases b1; cases b2; cases b3; cases b4; cases b5; cases b6; cases b7) (simp_all add: digit_val_def)

end
