(* ===== verification/SF_Json.thy ===== *)
theory SF_Json
  imports SF_Prelude
begin

text \<open>
  The JSON readers of \<^verbatim>\<open>src/include/salesforce_json.hpp\<close> (namespace \<^verbatim>\<open>sfjson\<close>) and
  the JSON escaping of the Bulk job body. The readers are not a JSON parser: they look for
  the quoted key anywhere in the text and read the value after it. A position in the text is
  modelled by the suffix that starts there.

  The second half relates the readers to JSON proper: a datatype of JSON values, its
  printed form, and lemmas that the readers return the printed members of a printed
  document whenever the key's first textual occurrence is the key itself.
\<close>

section \<open>The readers\<close>

definition is_ws :: "char \<Rightarrow> bool" where
  "is_ws c \<longleftrightarrow> c = CHR '' '' \<or> c = TAB \<or> c = LF \<or> c = CR"

definition SkipWs :: "string \<Rightarrow> string" where
  "SkipWs s = dropWhile is_ws s"

definition quoted :: "string \<Rightarrow> string" where
  "quoted key = DQ # key @ [DQ]"

definition FindValue :: "string \<Rightarrow> string \<Rightarrow> string option" where
  "FindValue json key =
     (case str_find json (quoted key) of
        None \<Rightarrow> None
      | Some k \<Rightarrow>
          (case SkipWs (drop (k + length (quoted key)) json) of
             [] \<Rightarrow> None
           | c # r \<Rightarrow> if c \<noteq> CHR '':'' then None else Some (SkipWs r)))"

definition unescape :: "char \<Rightarrow> char" where
  "unescape e =
     (if e = CHR ''n'' then LF else if e = CHR ''t'' then TAB else if e = CHR ''r'' then CR
      else e)"

text \<open>The characters after the opening quote, up to the closing one or the end of the text.\<close>

fun ReadStringAt :: "string \<Rightarrow> string" where
  "ReadStringAt [] = []"
| "ReadStringAt (c # s) =
     (if c = BSL then (case s of [] \<Rightarrow> [c] | e # t \<Rightarrow> unescape e # ReadStringAt t)
      else if c = DQ then [] else c # ReadStringAt s)"

definition GetString :: "string \<Rightarrow> string \<Rightarrow> string" where
  "GetString json key =
     (case FindValue json key of
        Some (c # r) \<Rightarrow> if c = DQ then ReadStringAt r else []
      | _ \<Rightarrow> [])"

definition is_terminator :: "char \<Rightarrow> bool" where
  "is_terminator c \<longleftrightarrow> c = CHR '','' \<or> c = CHR ''}'' \<or> c = CHR '']'' \<or> is_ws c"

text \<open>The out-parameters of \<^verbatim>\<open>GetValue\<close> in their order: \<^verbatim>\<open>out\<close>, \<^verbatim>\<open>found\<close>, \<^verbatim>\<open>is_null\<close>.\<close>

definition GetValue :: "string \<Rightarrow> string \<Rightarrow> string \<times> bool \<times> bool" where
  "GetValue json key =
     (case FindValue json key of
        None \<Rightarrow> ([], False, False)
      | Some [] \<Rightarrow> ([], False, False)
      | Some (c # r) \<Rightarrow>
          if take 4 (c # r) = ''null'' then ([], True, True)
          else if c = DQ then (ReadStringAt r, True, False)
          else (takeWhile (\<lambda>x. \<not> is_terminator x) (c # r), True, False))"

definition GetBool :: "string \<Rightarrow> string \<Rightarrow> bool \<Rightarrow> bool" where
  "GetBool json key dflt =
     (case FindValue json key of
        None \<Rightarrow> dflt
      | Some v \<Rightarrow> if take 4 v = ''true'' then True
                  else if take 5 v = ''false'' then False else dflt)"

definition GetInt :: "string \<Rightarrow> string \<Rightarrow> int \<Rightarrow> int" where
  "GetInt json key dflt =
     (case FindValue json key of
        None \<Rightarrow> dflt
      | Some [] \<Rightarrow> dflt
      | Some (c # r) \<Rightarrow>
          let sign = (if c = CHR ''-'' \<or> c = CHR ''+'' then [c] else []);
              ds = takeWhile isdigit (if c = CHR ''-'' \<or> c = CHR ''+'' then r else c # r)
          in if ds = [] then dflt
             else (case stoll (sign @ ds) of None \<Rightarrow> dflt | Some v \<Rightarrow> v))"

text \<open>
  The loop of \<^verbatim>\<open>ExtractObject\<close>: the number of characters up to and including the brace
  that brings the depth back to zero.
\<close>

fun object_len :: "int \<Rightarrow> bool \<Rightarrow> string \<Rightarrow> nat option" where
  "object_len d q [] = None"
| "object_len d q (c # s) =
     (if q then
        (if c = BSL then
           (case s of [] \<Rightarrow> None | _ # t \<Rightarrow> map_option (\<lambda>k. Suc (Suc k)) (object_len d True t))
         else map_option Suc (object_len d (c \<noteq> DQ) s))
      else if c = DQ then map_option Suc (object_len d True s)
      else if c = CHR ''{'' then map_option Suc (object_len (d + 1) False s)
      else if c = CHR ''}'' then
        (if d - 1 = 0 then Some 1 else map_option Suc (object_len (d - 1) False s))
      else map_option Suc (object_len d False s))"

definition ExtractObject :: "string \<Rightarrow> string \<Rightarrow> string" where
  "ExtractObject json key =
     (case FindValue json key of
        Some (c # r) \<Rightarrow>
          if c \<noteq> CHR ''{'' then []
          else (case object_len 0 False (c # r) of None \<Rightarrow> [] | Some k \<Rightarrow> take k (c # r))
      | _ \<Rightarrow> [])"

fun skip_string :: "string \<Rightarrow> string" where
  "skip_string [] = []"
| "skip_string (c # s) =
     (if c = BSL then (case s of [] \<Rightarrow> [] | _ # t \<Rightarrow> skip_string t)
      else if c = DQ then s else skip_string s)"

lemma length_skip_string: "length (skip_string s) \<le> length s"
proof (induction s rule: skip_string.induct)
  case 1
  then show ?case by simp
next
  case (2 c s)
  then show ?case by (cases s) (simp_all add: le_SucI)
qed

function string_array :: "string \<Rightarrow> string list" where
  "string_array [] = []"
| "string_array (c # s) =
     (if c = CHR '']'' then []
      else if c = DQ then ReadStringAt s # string_array (skip_string s)
      else string_array s)"
  by pat_completeness auto
termination
  by (relation "measure length") (auto simp: le_imp_less_Suc length_skip_string)

definition GetStringArray :: "string \<Rightarrow> string \<Rightarrow> string list" where
  "GetStringArray json key =
     (case FindValue json key of
        Some (c # r) \<Rightarrow> if c \<noteq> CHR ''['' then [] else string_array r
      | _ \<Rightarrow> [])"

text \<open>
  The loop of \<^verbatim>\<open>GetObjectArray\<close>: the state is the depth, \<^verbatim>\<open>in_obj\<close>, \<^verbatim>\<open>in_str\<close> and, in
  place of \<^verbatim>\<open>obj_start\<close>, the characters read since then (in reverse).
\<close>

fun object_array :: "int \<Rightarrow> bool \<Rightarrow> bool \<Rightarrow> string \<Rightarrow> string \<Rightarrow> string list" where
  "object_array d in_obj q cur [] = []"
| "object_array d in_obj q cur (c # s) =
     (if q then
        (if c = BSL then
           (case s of [] \<Rightarrow> [] | e # t \<Rightarrow> object_array d in_obj True (e # c # cur) t)
         else object_array d in_obj (c \<noteq> DQ) (c # cur) s)
      else if c = DQ then object_array d in_obj True (c # cur) s
      else if c = CHR ''{'' then
        (if d = 0 then object_array 1 True False [c] s
         else object_array (d + 1) in_obj False (c # cur) s)
      else if c = CHR ''}'' then
        (if d - 1 = 0 \<and> in_obj then rev (c # cur) # object_array 0 False False [] s
         else object_array (d - 1) in_obj False (c # cur) s)
      else if c = CHR '']'' \<and> d = 0 then []
      else object_array d in_obj False (c # cur) s)"

definition GetObjectArray :: "string \<Rightarrow> string \<Rightarrow> string list" where
  "GetObjectArray json key =
     (case FindValue json key of
        Some (c # r) \<Rightarrow> if c \<noteq> CHR ''['' then [] else object_array 0 False False [] r
      | _ \<Rightarrow> [])"

definition SplitArrayObjects :: "string \<Rightarrow> string list" where
  "SplitArrayObjects json =
     (case str_find json ''['' of
        None \<Rightarrow> []
      | Some i \<Rightarrow> object_array 0 False False [] (drop (i + 1) json))"

text \<open>\<^verbatim>\<open>JsonEscape\<close> of \<^verbatim>\<open>salesforce_session.cpp\<close>, used for the SOQL in the job-create body.\<close>

definition json_escape_char :: "char \<Rightarrow> string" where
  "json_escape_char c =
     (if c = DQ then [BSL, DQ] else if c = BSL then [BSL, BSL]
      else if c = LF then [BSL, CHR ''n''] else if c = CR then [BSL, CHR ''r'']
      else if c = TAB then [BSL, CHR ''t''] else [c])"

definition JsonEscape :: "string \<Rightarrow> string" where
  "JsonEscape s = concat (map json_escape_char s)"

section \<open>JSON documents and their printed form\<close>

datatype json =
    JNull
  | JBool bool
  | JNum string
  | JStr string
  | JArr "json list"
  | JObj "(string \<times> json) list"

fun sep_by :: "string \<Rightarrow> string list \<Rightarrow> string" where
  "sep_by sep [] = []"
| "sep_by sep [x] = x"
| "sep_by sep (x # y # zs) = x @ sep @ sep_by sep (y # zs)"

fun print_json :: "json \<Rightarrow> string" where
  "print_json JNull = ''null''"
| "print_json (JBool b) = (if b then ''true'' else ''false'')"
| "print_json (JNum s) = s"
| "print_json (JStr s) = quoted (JsonEscape s)"
| "print_json (JArr vs) = ''['' @ sep_by '','' (map print_json vs) @ '']''"
| "print_json (JObj kvs) =
     ''{'' @ sep_by '','' (map (\<lambda>(k, v). quoted (JsonEscape k) @ '':'' @ print_json v) kvs) @ ''}''"

text \<open>A number's literal has none of the characters the readers give a meaning to.\<close>

definition plain_char :: "char \<Rightarrow> bool" where
  "plain_char c \<longleftrightarrow> c \<noteq> DQ \<and> c \<noteq> CHR ''{'' \<and> c \<noteq> CHR ''}'' \<and> c \<noteq> BSL \<and> \<not> is_terminator c"

fun wf_json :: "json \<Rightarrow> bool" where
  "wf_json (JNum s) = (s \<noteq> [] \<and> list_all plain_char s \<and> take 4 s \<noteq> ''null'')"
| "wf_json (JArr vs) = list_all wf_json vs"
| "wf_json (JObj kvs) = list_all (\<lambda>(k, v). wf_json v) kvs"
| "wf_json _ = True"

section \<open>Strings: escaping is undone by the reader\<close>

lemma JsonEscape_simps [simp]:
  "JsonEscape [] = []"
  "JsonEscape (c # s) = json_escape_char c @ JsonEscape s"
  by (simp_all add: JsonEscape_def)

lemma read_escaped_char:
  "ReadStringAt (json_escape_char c @ r) = c # ReadStringAt r"
  by (auto simp: json_escape_char_def unescape_def)

lemma read_escaped: "ReadStringAt (JsonEscape s @ DQ # r) = s"
  by (induction s) (simp_all add: read_escaped_char)

lemma skip_escaped_char: "skip_string (json_escape_char c @ r) = skip_string r"
  by (auto simp: json_escape_char_def)

lemma skip_escaped: "skip_string (JsonEscape s @ DQ # r) = r"
  by (induction s) (simp_all add: skip_escaped_char)

lemma object_len_escaped_char:
  "object_len d True r = Some k \<Longrightarrow>
     object_len d True (json_escape_char c @ r) = Some (length (json_escape_char c) + k)"
  by (simp add: json_escape_char_def)

lemma object_len_escaped:
  "object_len d False r = Some k \<Longrightarrow>
     object_len d True (JsonEscape s @ DQ # r) = Some (length (JsonEscape s) + 1 + k)"
proof (induction s)
  case Nil
  then show ?case by simp
next
  case (Cons c s)
  then show ?case
    using object_len_escaped_char [of d "JsonEscape s @ DQ # r" _ c] by simp
qed

section \<open>Objects: the scanner passes over a printed value\<close>

definition neutral :: "string \<Rightarrow> bool" where
  "neutral w \<longleftrightarrow>
     (\<forall>d r k. 1 \<le> d \<longrightarrow> object_len d False r = Some k \<longrightarrow>
        object_len d False (w @ r) = Some (length w + k))"

lemma neutralD:
  "neutral w \<Longrightarrow> 1 \<le> d \<Longrightarrow> object_len d False r = Some k \<Longrightarrow>
     object_len d False (w @ r) = Some (length w + k)"
  by (simp add: neutral_def)

lemma neutral_Nil [simp]: "neutral []"
  by (simp add: neutral_def)

lemma neutral_append [intro]: "neutral v \<Longrightarrow> neutral w \<Longrightarrow> neutral (v @ w)"
  by (simp add: neutral_def add.assoc)

lemma neutral_char:
  "c \<noteq> DQ \<Longrightarrow> c \<noteq> CHR ''{'' \<Longrightarrow> c \<noteq> CHR ''}'' \<Longrightarrow> neutral [c]"
  by (simp add: neutral_def)

lemma neutral_Cons:
  "c \<noteq> DQ \<Longrightarrow> c \<noteq> CHR ''{'' \<Longrightarrow> c \<noteq> CHR ''}'' \<Longrightarrow> neutral w \<Longrightarrow> neutral (c # w)"
  using neutral_append [OF neutral_char, of c w] by simp

lemma neutral_plain: "list_all plain_char s \<Longrightarrow> neutral s"
  by (induction s) (auto intro: neutral_Cons simp: plain_char_def)

lemma neutral_quoted: "neutral (quoted (JsonEscape s))"
  using object_len_escaped by (simp add: neutral_def quoted_def)

lemma neutral_braces: "neutral w \<Longrightarrow> neutral (CHR ''{'' # w @ ''}'')"
  by (simp add: neutral_def)

lemma neutral_sep_by:
  "neutral sep \<Longrightarrow> (\<And>x. x \<in> set xs \<Longrightarrow> neutral x) \<Longrightarrow> neutral (sep_by sep xs)"
  by (induction sep xs rule: sep_by.induct) auto

lemma neutral_literals:
  "neutral ''null''" "neutral ''true''" "neutral ''false''" "neutral '',''" "neutral '':''"
  "neutral ''[''" "neutral '']''"
  by (intro neutral_Cons neutral_Nil; simp)+

lemma neutral_print_json: "wf_json v \<Longrightarrow> neutral (print_json v)"
proof (induction v)
  case (JArr vs)
  then have "neutral (sep_by '','' (map print_json vs))"
    by (intro neutral_sep_by) (auto simp: list_all_iff neutral_literals)
  then have "neutral (''['' @ sep_by '','' (map print_json vs) @ '']'')"
    by (intro neutral_append neutral_literals)
  then show ?case by simp
next
  case (JObj kvs)
  have "neutral (sep_by '','' (map (\<lambda>(k, v). quoted (JsonEscape k) @ '':'' @ print_json v) kvs))"
  proof (rule neutral_sep_by)
    fix x assume "x \<in> set (map (\<lambda>(k, v). quoted (JsonEscape k) @ '':'' @ print_json v) kvs)"
    then obtain k v where kv: "(k, v) \<in> set kvs"
      and x: "x = quoted (JsonEscape k) @ '':'' @ print_json v" by auto
    have "neutral (print_json v)"
      using JObj.IH [OF kv] JObj.prems kv by (auto simp: list_all_iff)
    then show "neutral x"
      unfolding x by (intro neutral_append neutral_quoted neutral_literals)
  qed (rule neutral_literals)
  then show ?case by (simp add: neutral_braces)
qed (auto intro: neutral_plain neutral_quoted simp: neutral_literals)

lemma object_len_braces:
  assumes "neutral w"
  shows "object_len 0 False (CHR ''{'' # w @ CHR ''}'' # r) = Some (length w + 2)"
  using neutralD [OF assms, of 1 "CHR ''}'' # r" 1] by simp

lemma object_len_print_obj:
  assumes "wf_json (JObj kvs)"
  shows "object_len 0 False (print_json (JObj kvs) @ r) = Some (length (print_json (JObj kvs)))"
proof -
  let ?w = "sep_by '','' (map (\<lambda>(k, v). quoted (JsonEscape k) @ '':'' @ print_json v) kvs)"
  have "neutral ?w"
  proof (rule neutral_sep_by [OF neutral_literals(4)])
    fix x assume "x \<in> set (map (\<lambda>(k, v). quoted (JsonEscape k) @ '':'' @ print_json v) kvs)"
    then obtain k v where "(k, v) \<in> set kvs"
      and x: "x = quoted (JsonEscape k) @ '':'' @ print_json v" by auto
    with assms have "neutral (print_json v)"
      by (intro neutral_print_json) (auto simp: list_all_iff)
    then show "neutral x"
      unfolding x by (intro neutral_append neutral_quoted neutral_literals)
  qed
  from object_len_braces [OF this, of r] show ?thesis by simp
qed

section \<open>Arrays of objects: every printed object is returned, in order\<close>

lemma object_array_run:
  "object_len d q s = Some k \<Longrightarrow> 1 \<le> d \<Longrightarrow>
     object_array d True q cur s = (rev cur @ take k s) # object_array 0 False False [] (drop k s)"
proof (induction d q s arbitrary: cur k rule: object_len.induct)
  case (1 d q)
  then show ?case by simp
next
  case (2 d q c s)
  show ?case
  proof (cases "q \<and> c = BSL")
    case True
    with 2 show ?thesis by (auto split: list.splits)
  next
    case False
    show ?thesis
    proof (cases "\<not> q \<and> c = CHR ''}'' \<and> d - 1 = 0")
      case True
      with "2.prems" show ?thesis by auto
    next
      case run: False
      obtain d' q' where step: "object_len d q (c # s) = map_option Suc (object_len d' q' s)" "1 \<le> d'"
        "object_array d True q cur (c # s) = object_array d' True q' (c # cur) s"
        and IH: "\<And>cur k. object_len d' q' s = Some k \<Longrightarrow> object_array d' True q' cur s =
          (rev cur @ take k s) # object_array 0 False False [] (drop k s)"
        using False run 2 by (cases q; cases "c = DQ"; cases "c = CHR ''{''"; cases "c = CHR ''}''") force+
      from step(1) "2.prems"(1) obtain k' where "object_len d' q' s = Some k'" "k = Suc k'" by auto
      with IH [of k' "c # cur"] step(3) show ?thesis by simp
    qed
  qed
qed

lemma object_array_object:
  assumes "object_len 0 False (CHR ''{'' # s) = Some k"
  shows "object_array 0 False False cur (CHR ''{'' # s) =
           take k (CHR ''{'' # s) # object_array 0 False False [] (drop k (CHR ''{'' # s))"
proof -
  from assms obtain j where j: "object_len 1 False s = Some j" "k = Suc j" by auto
  from object_array_run [OF j(1), of "[CHR ''{'']"] j(2) show ?thesis by simp
qed

lemma object_array_print_obj:
  assumes "wf_json (JObj kvs)"
  shows "object_array 0 False False cur (print_json (JObj kvs) @ r) =
           print_json (JObj kvs) # object_array 0 False False [] r"
proof -
  obtain s where s: "print_json (JObj kvs) = CHR ''{'' # s" by simp
  from object_len_print_obj [OF assms, of r]
  have "object_len 0 False (CHR ''{'' # s @ r) = Some (length (CHR ''{'' # s))"
    by (simp only: s append_Cons)
  from object_array_object [OF this, of cur] show ?thesis
    by (simp only: s append_Cons) simp
qed

lemma object_array_print_objs:
  assumes "list_all (\<lambda>kvs. wf_json (JObj kvs)) os"
  shows "object_array 0 False False cur (sep_by '','' (map (\<lambda>kvs. print_json (JObj kvs)) os) @ CHR '']'' # r)
         = map (\<lambda>kvs. print_json (JObj kvs)) os"
  using assms
proof (induction os arbitrary: cur)
  case Nil
  then show ?case by simp
next
  case (Cons o1 os)
  let ?p = "\<lambda>kvs. print_json (JObj kvs)"
  from Cons.prems have o1: "wf_json (JObj o1)" and os: "list_all (\<lambda>kvs. wf_json (JObj kvs)) os"
    by simp_all
  show ?case
  proof (cases os)
    case Nil
    then show ?thesis using object_array_print_obj [OF o1, of cur "CHR '']'' # r"] by simp
  next
    case (Cons o2 os2)
    have "sep_by '','' (map ?p (o1 # os)) @ CHR '']'' # r
          = ?p o1 @ CHR '','' # sep_by '','' (map ?p os) @ CHR '']'' # r"
      using Cons by simp
    moreover have "object_array 0 False False [] (CHR '','' # sep_by '','' (map ?p os) @ CHR '']'' # r)
                   = map ?p os"
      using Cons.IH [OF os] by simp
    ultimately show ?thesis using object_array_print_obj [OF o1, of cur]
      by (simp only: list.map)
  qed
qed

section \<open>Reading a member whose key text occurs first at the key\<close>

definition at_key :: "string \<Rightarrow> string \<Rightarrow> string \<Rightarrow> bool" where
  "at_key json key rest \<longleftrightarrow>
     (\<exists>pre. json = pre @ quoted key @ CHR '':'' # rest \<and> str_find json (quoted key) = Some (length pre))"

lemma at_key_FindValue:
  assumes "at_key json key (v # r)" and "\<not> is_ws v"
  shows "FindValue json key = Some (v # r)"
proof -
  from assms(1) obtain pre where j: "json = pre @ quoted key @ CHR '':'' # v # r"
    and f: "str_find json (quoted key) = Some (length pre)"
    by (auto simp: at_key_def)
  have "drop (length pre + length (quoted key)) json = CHR '':'' # v # r"
    by (simp add: j)
  then show ?thesis
    using f assms(2) by (simp add: FindValue_def SkipWs_def is_ws_def)
qed

lemma GetString_at_key:
  assumes "at_key json key (print_json (JStr s) @ r)"
  shows "GetString json key = s"
proof -
  have "at_key json key (DQ # JsonEscape s @ DQ # r)"
    using assms by (simp add: quoted_def)
  then have "FindValue json key = Some (DQ # JsonEscape s @ DQ # r)"
    by (rule at_key_FindValue) (simp add: is_ws_def)
  then show ?thesis by (simp add: GetString_def read_escaped)
qed

lemma GetObjectArray_at_key:
  assumes "at_key json key (''['' @ sep_by '','' (map (\<lambda>kvs. print_json (JObj kvs)) os) @ '']'' @ r)"
    and "list_all (\<lambda>kvs. wf_json (JObj kvs)) os"
  shows "GetObjectArray json key = map (\<lambda>kvs. print_json (JObj kvs)) os"
proof -
  let ?b = "sep_by '','' (map (\<lambda>kvs. print_json (JObj kvs)) os) @ CHR '']'' # r"
  have "at_key json key (CHR ''['' # ?b)"
    using assms(1) by simp
  then have "FindValue json key = Some (CHR ''['' # ?b)"
    by (rule at_key_FindValue) (simp add: is_ws_def)
  then show ?thesis
    using object_array_print_objs [OF assms(2), of "[]" r] by (simp add: GetObjectArray_def)
qed

lemma ExtractObject_at_key:
  assumes "at_key json key (print_json (JObj kvs) @ r)" and "wf_json (JObj kvs)"
  shows "ExtractObject json key = print_json (JObj kvs)"
proof -
  obtain s where s: "print_json (JObj kvs) = CHR ''{'' # s" by simp
  from assms(1) have "at_key json key (CHR ''{'' # s @ r)" by (simp only: s append_Cons)
  then have f: "FindValue json key = Some (CHR ''{'' # s @ r)"
    by (rule at_key_FindValue) (simp add: is_ws_def)
  from object_len_print_obj [OF assms(2), of r]
  have "object_len 0 False (CHR ''{'' # s @ r) = Some (length (CHR ''{'' # s))"
    by (simp only: s append_Cons)
  then show ?thesis unfolding s by (simp add: ExtractObject_def f del: object_len.simps)
qed

section \<open>Bounds and totality of the readers\<close>

lemma GetInt_range:
  assumes "int64_min \<le> d" "d \<le> int64_max"
  shows "int64_min \<le> GetInt json key d \<and> GetInt json key d \<le> int64_max"
  using assms by (auto simp: GetInt_def Let_def dest: stoll_range split: option.splits list.splits)

lemma object_array_elements_are_braced:
  "o1 \<in> set (object_array d in_obj q cur s) \<Longrightarrow> \<exists>m. o1 = m @ [CHR ''}'']"
  by (induction d in_obj q cur s rule: object_array.induct) (auto split: if_splits list.splits)

end
