(* ===== verification/SF_Types.thy ===== *)
theory SF_Types
  imports SF_Json
begin

text \<open>
  The schema data model: DuckDB's logical types as far as the extension produces them, the
  described field and object (\<^verbatim>\<open>salesforce_describe.hpp\<close>), the two mappings from Salesforce
  type names to logical types (\<^verbatim>\<open>salesforce_types.cpp\<close>), and the parser of a describe
  response (\<^verbatim>\<open>ParseDescribe\<close> of \<^verbatim>\<open>salesforce_describe.cpp\<close>).
\<close>

datatype LogicalType =
    VARCHAR | BOOLEAN
  | TINYINT | SMALLINT | INTEGER | BIGINT | UTINYINT | USMALLINT | UINTEGER | UBIGINT
  | FLOAT | DOUBLE | DECIMAL int int
  | DATE | TIMESTAMP | TIME | BLOB
  | STRUCT "(string \<times> LogicalType) list"
  | LIST LogicalType
  | OTHER_TYPE

text \<open>A DuckDB \<^verbatim>\<open>Value\<close> is the record of the observations the code makes of it.\<close>

record Value =
  v_IsNull :: bool
  v_type :: LogicalType
  v_ToString :: string
  v_StringGet :: string
  v_BoolGet :: bool
  v_IntGet :: int

text \<open>
  One value written to an output vector. A fixed-width value other than an integer or a boolean
  is what DuckDB's cast made of a text (\<open>CFixed\<close>); a struct has one cell per child, a list one per
  element.
\<close>

datatype cell =
    CNull
  | CVarchar string
  | CBlob string
  | CBigint int
  | CInteger int
  | CBoolean bool
  | CFixed LogicalType string
  | CStruct "cell list"
  | CList "cell list"

text \<open>
  The client context: the settings (\<^verbatim>\<open>TryGetCurrentSetting\<close>), and the process environment
  and the files the code reads through the C++ library.
\<close>

record client_context =
  TryGetCurrentSetting :: "string \<Rightarrow> Value option"
  getenv :: "string \<Rightarrow> string option"
  read_file :: "string \<Rightarrow> string option"

datatype SalesforceField = SalesforceField
  (f_name: string)
  (f_sf_type: string)
  (f_duckdb_type: LogicalType)
  (f_nillable: bool)
  (f_length: int)
  (f_precision: int)
  (f_scale: int)
  (f_filterable: bool)
  (f_sortable: bool)
  (f_unknown_type: bool)
  (f_relationship_name: string)
  (f_reference_to: "string list")
  (f_picklist_values: "string list")
  (f_is_relationship: bool)
  (f_children: "SalesforceField list")

record SalesforceChildRelationship =
  cr_child_object :: string
  cr_field :: string
  cr_relationship_name :: string

record SalesforceDescribe =
  d_object_name :: string
  d_fields :: "SalesforceField list"
  d_child_relationships :: "SalesforceChildRelationship list"

section \<open>Describe types\<close>

text \<open>The result of \<^verbatim>\<open>MapSalesforceType\<close>: the type and the \<^verbatim>\<open>unknown\<close> flag.\<close>

definition MapSalesforceType :: "string_util \<Rightarrow> string \<Rightarrow> int \<Rightarrow> int \<Rightarrow> LogicalType \<times> bool" where
  "MapSalesforceType D sf_type prec sc =
     (let t = su_Lower D sf_type
      in if t \<in> {''string'', ''textarea'', ''id'', ''reference'', ''picklist'', ''multipicklist'',
                 ''phone'', ''email'', ''url'', ''encryptedstring'', ''combobox'', ''anytype'',
                 ''address'', ''datacategorygroupreference'', ''complexvalue''}
         then (VARCHAR, False)
         else if t = ''boolean'' then (BOOLEAN, False)
         else if t = ''int'' then (BIGINT, False)
         else if t = ''double'' then (DOUBLE, False)
         else if t = ''currency'' \<or> t = ''percent'' then
           (if prec > 0 \<and> prec \<le> 38 then
              let s = sc; s = (if s < 0 then 0 else s); s = (if s > prec then prec else s)
              in (DECIMAL prec s, False)
            else (DOUBLE, False))
         else if t = ''date'' then (DATE, False)
         else if t = ''datetime'' then (TIMESTAMP, False)
         else if t = ''time'' then (TIME, False)
         else if t = ''base64'' then (BLOB, False)
         else (VARCHAR, True))"

section \<open>Tooling display types\<close>

definition TrimWs :: "string \<Rightarrow> string" where
  "TrimWs s = rev (dropWhile is_ws (rev (dropWhile is_ws s)))"

text \<open>
  \<^verbatim>\<open>ParseToolingPrecision\<close>: the numbers of a \<open>(p,s)\<close> or \<open>(p)\<close> suffix; \<^term>\<open>None\<close> is the
  result \<^verbatim>\<open>false\<close>.
\<close>

definition ParseToolingPrecision :: "string \<Rightarrow> (int \<times> int) option" where
  "ParseToolingPrecision data_type =
     (case str_find data_type ''('' of
        None \<Rightarrow> None
      | Some op \<Rightarrow>
          let close = (case str_find_at data_type '')'' op of None \<Rightarrow> length data_type | Some c \<Rightarrow> c);
              inner = take (close - op - 1) (drop (op + 1) data_type);
              comma = str_find inner '','';
              p = (case comma of None \<Rightarrow> inner | Some c \<Rightarrow> take c inner);
              s = (case comma of None \<Rightarrow> ''0'' | Some c \<Rightarrow> drop (c + 1) inner)
          in (case (stoll (TrimWs p), stoll (TrimWs s)) of
                (Some pv, Some sv) \<Rightarrow> if pv > 0 then Some (pv, sv) else None
              | _ \<Rightarrow> None))"

text \<open>The result of \<^verbatim>\<open>MapToolingDataType\<close>: the type and the \<^verbatim>\<open>ok\<close> flag.\<close>

definition MapToolingDataType :: "string_util \<Rightarrow> string \<Rightarrow> LogicalType \<times> bool" where
  "MapToolingDataType D data_type =
     (let head = (case str_find data_type ''('' of None \<Rightarrow> data_type | Some op \<Rightarrow> take op data_type);
          t = su_Lower D (TrimWs head)
      in if t \<in> {''text'', ''text area'', ''long text area'', ''rich text area'', ''email'', ''phone'',
                 ''url'', ''picklist'', ''multipicklist'', ''combobox'', ''lookup'', ''master-detail'',
                 ''hierarchy'', ''external lookup'', ''indirect lookup'', ''id'', ''reference'',
                 ''auto number'', ''encrypted text'', ''data category group reference''}
         then (VARCHAR, True)
         else if t = ''checkbox'' then (BOOLEAN, True)
         else if t = ''date'' then (DATE, True)
         else if t = ''date/time'' then (TIMESTAMP, True)
         else if t = ''time'' then (TIME, True)
         else if t = ''number'' \<or> t = ''currency'' \<or> t = ''percent'' then
           (case ParseToolingPrecision data_type of
              Some (p, s) \<Rightarrow>
                if p \<le> 38 then
                  let s = (if s < 0 then 0 else s); s = (if s > p then p else s)
                  in (DECIMAL p s, True)
                else (DOUBLE, True)
            | None \<Rightarrow> (DOUBLE, True))
         else (VARCHAR, False))"

section \<open>The describe response\<close>

definition parse_picklist :: "string \<Rightarrow> string list" where
  "parse_picklist obj =
     filter (\<lambda>v. v \<noteq> []) (map (\<lambda>pv. GetString pv ''value'') (GetObjectArray obj ''picklistValues''))"

definition parse_field :: "string_util \<Rightarrow> string \<Rightarrow> SalesforceField" where
  "parse_field D obj =
     (let sf_type = GetString obj ''type'';
          prec = GetInt obj ''precision'' 0;
          sc = GetInt obj ''scale'' 0;
          (ty, unknown) = MapSalesforceType D sf_type prec sc
      in SalesforceField (GetString obj ''name'') sf_type ty
           (GetBool obj ''nillable'' True) (GetInt obj ''length'' 0) prec sc
           (GetBool obj ''filterable'' False) (GetBool obj ''sortable'' False) unknown
           (GetString obj ''relationshipName'') (GetStringArray obj ''referenceTo'')
           (parse_picklist obj) False [])"

definition parse_child :: "string \<Rightarrow> SalesforceChildRelationship" where
  "parse_child cr = \<lparr>cr_child_object = GetString cr ''childSObject'', cr_field = GetString cr ''field'',
     cr_relationship_name = GetString cr ''relationshipName''\<rparr>"

definition ParseDescribe :: "string_util \<Rightarrow> string \<Rightarrow> string \<Rightarrow> SalesforceDescribe" where
  "ParseDescribe D json fallback_object =
     (let nm = GetString json ''name''
      in \<lparr>d_object_name = (if nm = [] then fallback_object else nm),
          d_fields = filter (\<lambda>f. f_name f \<noteq> []) (map (parse_field D) (GetObjectArray json ''fields'')),
          d_child_relationships =
            filter (\<lambda>c. cr_child_object c \<noteq> []) (map parse_child (GetObjectArray json ''childRelationships''))\<rparr>)"

section \<open>Properties of the mappings\<close>

fun wf_type :: "LogicalType \<Rightarrow> bool" where
  "wf_type (DECIMAL p s) \<longleftrightarrow> 1 \<le> p \<and> p \<le> 38 \<and> 0 \<le> s \<and> s \<le> p"
| "wf_type _ \<longleftrightarrow> True"

lemma wf_MapSalesforceType: "wf_type (fst (MapSalesforceType D t prec sc))"
  by (simp add: MapSalesforceType_def Let_def)

lemma ParseToolingPrecision_pos: "ParseToolingPrecision d = Some (p, s) \<Longrightarrow> 0 < p"
  by (auto simp: ParseToolingPrecision_def Let_def split: option.splits if_splits)

lemma wf_MapToolingDataType: "wf_type (fst (MapToolingDataType D d))"
  using ParseToolingPrecision_pos [of d]
  by (fastforce simp: MapToolingDataType_def Let_def split: option.splits)

text \<open>
  Every DECIMAL type the extension gives a column, from a describe response or from a Tooling
  display string, is one DuckDB accepts: its width is between 1 and 38 and its scale between
  0 and the width, whatever precision and scale the server reports.
\<close>

theorem mapped_types_wf:
  "wf_type (fst (MapSalesforceType D t prec sc)) \<and> wf_type (fst (MapToolingDataType D d))"
  by (simp add: wf_MapSalesforceType wf_MapToolingDataType)

lemma MapSalesforceType_unknown:
  "snd (MapSalesforceType D t prec sc) \<Longrightarrow> fst (MapSalesforceType D t prec sc) = VARCHAR"
  by (simp add: MapSalesforceType_def Let_def split: if_splits)

context string_utilities
begin

lemma tolower_idem: "tolower (tolower c) = tolower c"
proof (cases "isupper c")
  case True
  then have "code_of c + 32 < 256" by (simp add: isupper_def)
  with True show ?thesis by (simp add: tolower_def isupper_def)
next
  case False
  then show ?thesis by (simp add: tolower_def)
qed

lemma Lower_idem: "su_Lower D (su_Lower D s) = su_Lower D s"
  by (simp add: Lower_eq tolower_idem)

lemma MapSalesforceType_ci:
  "su_CIEquals D a b \<Longrightarrow> MapSalesforceType D a prec sc = MapSalesforceType D b prec sc"
  by (simp add: MapSalesforceType_def CIEquals_eq)

end

section \<open>Properties of the describe parser\<close>

lemma ParseDescribe_fields_wf:
  assumes "f \<in> set (d_fields (ParseDescribe D json fb))"
  shows "f_name f \<noteq> [] \<and> wf_type (f_duckdb_type f) \<and> \<not> f_is_relationship f \<and> f_children f = []
         \<and> (f_unknown_type f \<longrightarrow> f_duckdb_type f = VARCHAR)"
proof -
  from assms obtain obj where f: "f = parse_field D obj" and n: "f_name f \<noteq> []"
    by (auto simp: ParseDescribe_def Let_def)
  have "wf_type (f_duckdb_type (parse_field D obj))"
    using wf_MapSalesforceType [of D "GetString obj ''type''" "GetInt obj ''precision'' 0" "GetInt obj ''scale'' 0"]
    by (simp add: parse_field_def Let_def case_prod_beta)
  moreover have "f_unknown_type (parse_field D obj) \<longrightarrow> f_duckdb_type (parse_field D obj) = VARCHAR"
    using MapSalesforceType_unknown [of D "GetString obj ''type''" "GetInt obj ''precision'' 0" "GetInt obj ''scale'' 0"]
    by (simp add: parse_field_def Let_def case_prod_beta)
  ultimately show ?thesis
    using n by (simp add: f) (simp add: parse_field_def Let_def case_prod_beta)
qed

lemma ParseDescribe_name: "fb \<noteq> [] \<Longrightarrow> d_object_name (ParseDescribe D json fb) \<noteq> []"
  by (simp add: ParseDescribe_def Let_def)

end
