(* ===== verification/SF_Config.thy ===== *)
theory SF_Config
  imports SF_Types
begin

text \<open>
  ATTACH configuration (\<^verbatim>\<open>salesforce_config.cpp\<close>): the option map is turned into a validated
  \<open>SalesforceConfig\<close> or a \<^verbatim>\<open>BinderException\<close>. The option list is the iteration order of
  DuckDB's option map; the case-insensitive map the code copies it into is an association
  list searched with \<^verbatim>\<open>StringUtil::CIEquals\<close>.

  Shown: every accepted configuration is well formed; API versions normalise to one form;
  an SFDX auth URL is split into exactly the parts it was built from; and the outcome of
  parsing, error messages included, does not depend on the secret values.
\<close>

datatype SalesforceAuthMethod = kRefreshToken | kJwt

record SalesforceConfig =
  org :: string
  auth_method :: SalesforceAuthMethod
  client_id :: string
  client_secret :: string
  refresh_token :: string
  username :: string
  private_key :: string
  login_url :: string
  api_version :: string
  query_mode :: string
  transport :: string
  bulk_chunks :: int

definition empty_config :: SalesforceConfig where
  "empty_config = \<lparr> org = [], auth_method = kRefreshToken, client_id = [], client_secret = [],
     refresh_token = [], username = [], private_key = [], login_url = [], api_version = [],
     query_mode = [], transport = [], bulk_chunks = 0 \<rparr>"

definition kDefaultLoginUrl :: string where "kDefaultLoginUrl = ''https://login.salesforce.com''"
definition kDefaultApiVersion :: string where "kDefaultApiVersion = ''v60.0''"
definition kScheme :: string where "kScheme = ''salesforce://''"

section \<open>Helpers\<close>

definition Trimmed :: "string_util \<Rightarrow> string \<Rightarrow> string" where
  "Trimmed D s = su_RTrim D (su_LTrim D s)"

fun mock_env_find :: "string_util \<Rightarrow> string list \<Rightarrow> string \<Rightarrow> string option" where
  "mock_env_find D [] name = None"
| "mock_env_find D (entry # es) name =
     (case str_find entry ''='' of
        None \<Rightarrow> mock_env_find D es name
      | Some eq \<Rightarrow>
          if Trimmed D (take eq entry) = name
          then (let v = drop (eq + 1) entry in if v = [] then None else Some v)
          else mock_env_find D es name)"

definition os_env :: "client_context \<Rightarrow> string \<Rightarrow> string option" where
  "os_env C name = (case getenv C name of None \<Rightarrow> None | Some v \<Rightarrow> if v = [] then None else Some v)"

definition EnvLookup :: "string_util \<Rightarrow> client_context \<Rightarrow> string \<Rightarrow> string option" where
  "EnvLookup D C name =
     (case TryGetCurrentSetting C ''sf_mock_env'' of
        Some mv \<Rightarrow>
          if \<not> v_IsNull mv \<and> Trimmed D (v_ToString mv) \<noteq> []
          then mock_env_find D (su_Split D (v_ToString mv) (CHR '';'')) name
          else os_env C name
      | None \<Rightarrow> os_env C name)"

definition RequireEnv :: "string_util \<Rightarrow> client_context \<Rightarrow> string \<Rightarrow> string result" where
  "RequireEnv D C name =
     (case EnvLookup D C name of
        None \<Rightarrow> Inl (BinderException
          (''salesforce ATTACH: missing required environment variable '' @ [SQ] @ name @ [SQ] @ ''.''))
      | Some v \<Rightarrow> Inr v)"

type_synonym options = "(string \<times> string) list"

definition opts_find :: "string_util \<Rightarrow> options \<Rightarrow> string \<Rightarrow> string option" where
  "opts_find D m k = map_option snd (find (\<lambda>p. su_CIEquals D (fst p) k) m)"

fun opts_put :: "string_util \<Rightarrow> options \<Rightarrow> string \<Rightarrow> string \<Rightarrow> options" where
  "opts_put D [] k v = [(k, v)]"
| "opts_put D ((k', v') # m) k v =
     (if su_CIEquals D k' k then (k', v) # m else (k', v') # opts_put D m k v)"

text \<open>\<^verbatim>\<open>it != opts.end() && !Trimmed(it->second).empty()\<close>: an option that is given.\<close>

definition opts_given :: "string_util \<Rightarrow> options \<Rightarrow> string \<Rightarrow> string option" where
  "opts_given D m k =
     (case opts_find D m k of None \<Rightarrow> None | Some v \<Rightarrow> if Trimmed D v = [] then None else Some v)"

definition missing_option :: "string \<Rightarrow> sf_error" where
  "missing_option key = BinderException
     (''salesforce ATTACH: missing required option '' @ [SQ] @ key @ [SQ] @ ''. Expected: ATTACH ''
      @ [SQ] @ ''salesforce://<org>'' @ [SQ] @ '' (client_id '' @ [SQ] @ ''...'' @ [SQ]
      @ '', client_secret '' @ [SQ] @ ''...'' @ [SQ] @ '', refresh_token '' @ [SQ] @ ''...'' @ [SQ] @ '').'')"

definition RequireOption :: "string_util \<Rightarrow> options \<Rightarrow> string \<Rightarrow> string result" where
  "RequireOption D opts key =
     (case opts_given D opts key of None \<Rightarrow> Inl (missing_option key) | Some v \<Rightarrow> Inr v)"

definition kHttps :: string where "kHttps = ''https://''"

definition ValidateLoginUrl :: "string_util \<Rightarrow> string \<Rightarrow> unit result" where
  "ValidateLoginUrl D url =
     (if \<not> su_StartsWith D (su_Lower D url) kHttps \<or> length url \<le> length kHttps
      then Inl (BinderException (''salesforce ATTACH: '' @ [SQ] @ ''login_url'' @ [SQ]
             @ '' must be an absolute https:// URL (got: '' @ [SQ] @ url @ [SQ] @ '').''))
      else Inr ())"

text \<open>The scan of \<^verbatim>\<open>NormaliseApiVersion\<close>: the three flags when the loop ends.\<close>

fun version_scan :: "bool \<Rightarrow> bool \<Rightarrow> bool \<Rightarrow> string \<Rightarrow> bool \<times> bool \<times> bool" where
  "version_scan seen_digit seen_dot digit_after_dot [] = (seen_digit, seen_dot, digit_after_dot)"
| "version_scan seen_digit seen_dot digit_after_dot (c # s) =
     (if isdigit c then
        (if seen_dot then version_scan seen_digit seen_dot True s
         else version_scan True seen_dot digit_after_dot s)
      else if c = CHR ''.'' \<and> \<not> seen_dot \<and> seen_digit then version_scan seen_digit True digit_after_dot s
      else (False, seen_dot, digit_after_dot))"

definition strip_v :: "string \<Rightarrow> string" where
  "strip_v v = (case v of c # s \<Rightarrow> if c = CHR ''v'' \<or> c = CHR ''V'' then s else v | [] \<Rightarrow> [])"

definition NormaliseApiVersion :: "string_util \<Rightarrow> string \<Rightarrow> string result" where
  "NormaliseApiVersion D raw =
     (let v = strip_v (Trimmed D raw);
          (seen_digit, seen_dot, digit_after_dot) = version_scan False False False v
      in if \<not> seen_digit \<or> \<not> seen_dot \<or> \<not> digit_after_dot
         then Inl (BinderException (''salesforce ATTACH: '' @ [SQ] @ ''api_version'' @ [SQ] @ '' must look like ''
                @ [SQ] @ ''vNN.N'' @ [SQ] @ '' or '' @ [SQ] @ ''NN.N'' @ [SQ] @ '' (got: '' @ [SQ] @ raw @ [SQ] @ '').''))
         else Inr (''v'' @ v))"

definition pop_slashes :: "string \<Rightarrow> string" where
  "pop_slashes s = rev (dropWhile (\<lambda>c. c = CHR ''/'') (rev s))"

definition sfdx_fail :: sf_error where
  "sfdx_fail = BinderException (''salesforce ATTACH: SF_SFDX_AUTH_URL is not a valid SFDX auth URL ''
     @ ''(expected force://<clientId>:<clientSecret>:<refreshToken>@<instance>).'')"

definition kForce :: string where "kForce = ''force://''"

definition ParseSfdxAuthUrl :: "string_util \<Rightarrow> string \<Rightarrow> SalesforceConfig \<Rightarrow> SalesforceConfig result" where
  "ParseSfdxAuthUrl D url cfg =
     (if \<not> su_StartsWith D url kForce then Inl sfdx_fail
      else let rest = drop (length kForce) url in
        case str_rfind rest (CHR ''@'') of
          None \<Rightarrow> Inl sfdx_fail
        | Some at \<Rightarrow>
            let creds = take at rest; host = pop_slashes (Trimmed D (drop (at + 1) rest)) in
            if host = [] then Inl sfdx_fail
            else (case str_find creds '':'' of
                    None \<Rightarrow> Inl sfdx_fail
                  | Some p1 \<Rightarrow>
                      (case str_find_at creds '':'' (p1 + 1) of
                         None \<Rightarrow> Inl sfdx_fail
                       | Some p2 \<Rightarrow>
                           let c' = cfg \<lparr> client_id := take p1 creds,
                                          client_secret := take (p2 - p1 - 1) (drop (p1 + 1) creds),
                                          refresh_token := drop (p2 + 1) creds \<rparr> in
                           if client_id c' = [] \<or> refresh_token c' = [] then Inl sfdx_fail
                           else rbind (ValidateLoginUrl D (kHttps @ host))
                                  (\<lambda>_. Inr (c' \<lparr> login_url := kHttps @ host \<rparr>)))))"

definition LoadPrivateKeyFile :: "client_context \<Rightarrow> string \<Rightarrow> string result" where
  "LoadPrivateKeyFile C pathv =
     (case read_file C pathv of
        None \<Rightarrow> Inl (BinderException
          (''salesforce ATTACH (jwt): cannot open private key file '' @ [SQ] @ pathv @ [SQ] @ ''.''))
      | Some pem \<Rightarrow>
          if \<not> str_contains pem ''-----BEGIN'' then Inl (BinderException
            (''salesforce ATTACH (jwt): file '' @ [SQ] @ pathv @ [SQ] @ '' is not a PEM private key.''))
          else if str_contains pem ''ENCRYPTED'' then Inl (BinderException
            (''salesforce ATTACH (jwt): encrypted private keys are not supported; provide an ''
             @ ''unencrypted PKCS#1/PKCS#8 PEM key (file '' @ [SQ] @ pathv @ [SQ] @ '').''))
          else Inr pem)"

section \<open>ParseAndValidate\<close>

definition known_options :: "string list" where
  "known_options = [''auth_source'', ''client_id'', ''client_secret'', ''refresh_token'', ''username'',
     ''private_key_file'', ''login_url'', ''api_version'', ''query_mode'', ''transport'',
     ''bulk_chunks'', ''read_only'']"

fun parse_options :: "string_util \<Rightarrow> (string \<times> Value) list \<Rightarrow> options \<Rightarrow> options result" where
  "parse_options D [] opts = Inr opts"
| "parse_options D ((key, v) # kvs) opts =
     (if su_CIEquals D key ''type'' then parse_options D kvs opts
      else if list_all (\<lambda>k. \<not> su_CIEquals D key k) known_options then Inl (BinderException
        (''salesforce ATTACH: unknown option '' @ [SQ] @ key @ [SQ] @ ''. Valid options: ''
         @ ''auth_source, client_id, client_secret, refresh_token, ''
         @ ''username, private_key_file, login_url, api_version, ''
         @ ''query_mode, transport, bulk_chunks, read_only.''))
      else parse_options D kvs (opts_put D opts key (v_ToString v)))"

definition login_from_options :: "string_util \<Rightarrow> options \<Rightarrow> SalesforceConfig \<Rightarrow> SalesforceConfig result" where
  "login_from_options D opts cfg =
     (case opts_given D opts ''login_url'' of
        Some u \<Rightarrow> rbind (ValidateLoginUrl D (Trimmed D u)) (\<lambda>_. Inr (cfg \<lparr> login_url := Trimmed D u \<rparr>))
      | None \<Rightarrow> Inr (cfg \<lparr> login_url := kDefaultLoginUrl \<rparr>))"

definition auth_options :: "string_util \<Rightarrow> options \<Rightarrow> SalesforceConfig \<Rightarrow> SalesforceConfig result" where
  "auth_options D opts cfg =
     rbind (RequireOption D opts ''client_id'') (\<lambda>cid.
     rbind (RequireOption D opts ''client_secret'') (\<lambda>cs.
     rbind (RequireOption D opts ''refresh_token'') (\<lambda>rt.
     login_from_options D opts (cfg \<lparr> client_id := cid, client_secret := cs, refresh_token := rt \<rparr>))))"

definition auth_env :: "string_util \<Rightarrow> client_context \<Rightarrow> SalesforceConfig \<Rightarrow> SalesforceConfig result" where
  "auth_env D C cfg =
     rbind (RequireEnv D C ''SF_CLIENT_ID'') (\<lambda>cid.
     rbind (RequireEnv D C ''SF_CLIENT_SECRET'') (\<lambda>cs.
     rbind (RequireEnv D C ''SF_REFRESH_TOKEN'') (\<lambda>rt.
     let c' = cfg \<lparr> client_id := cid, client_secret := cs, refresh_token := rt \<rparr> in
     case EnvLookup D C ''SF_LOGIN_URL'' of
       Some login \<Rightarrow> rbind (ValidateLoginUrl D (Trimmed D login))
                       (\<lambda>_. Inr (c' \<lparr> login_url := Trimmed D login \<rparr>))
     | None \<Rightarrow> Inr (c' \<lparr> login_url := kDefaultLoginUrl \<rparr>))))"

definition jwt_key_path :: "string_util \<Rightarrow> client_context \<Rightarrow> options \<Rightarrow> string result" where
  "jwt_key_path D C opts =
     (case opts_given D opts ''private_key_file'' of
        Some p \<Rightarrow> Inr (Trimmed D p)
      | None \<Rightarrow>
          (case EnvLookup D C ''SF_JWT_KEY_FILE'' of
             Some p \<Rightarrow> Inr p
           | None \<Rightarrow> Inl (BinderException (''salesforce ATTACH (jwt): set '' @ [SQ] @ ''private_key_file'' @ [SQ]
               @ '' or the SF_JWT_KEY_FILE environment variable to a PEM private key path.''))))"

definition auth_jwt ::
  "string_util \<Rightarrow> client_context \<Rightarrow> options \<Rightarrow> SalesforceConfig \<Rightarrow> SalesforceConfig result" where
  "auth_jwt D C opts cfg =
     rbind (RequireOption D opts ''client_id'') (\<lambda>cid.
     rbind (RequireOption D opts ''username'') (\<lambda>usr.
     rbind (jwt_key_path D C opts) (\<lambda>kp.
     rbind (LoadPrivateKeyFile C (Trimmed D kp)) (\<lambda>pem.
     login_from_options D opts
       (cfg \<lparr> auth_method := kJwt, client_id := cid, username := usr, private_key := pem \<rparr>)))))"

definition auth_source_of :: "string_util \<Rightarrow> options \<Rightarrow> string" where
  "auth_source_of D opts =
     (case opts_given D opts ''auth_source'' of Some s \<Rightarrow> su_Lower D (Trimmed D s) | None \<Rightarrow> ''options'')"

definition auth_section ::
  "string_util \<Rightarrow> client_context \<Rightarrow> options \<Rightarrow> SalesforceConfig \<Rightarrow> SalesforceConfig result" where
  "auth_section D C opts cfg =
     (let src = auth_source_of D opts in
      if src = ''options'' then auth_options D opts cfg
      else if src = ''env'' then auth_env D C cfg
      else if src = ''sfdx_url'' then
        rbind (RequireEnv D C ''SF_SFDX_AUTH_URL'') (\<lambda>u. ParseSfdxAuthUrl D u cfg)
      else if src = ''jwt'' then auth_jwt D C opts cfg
      else Inl (BinderException (''salesforce ATTACH: '' @ [SQ] @ ''auth_source'' @ [SQ] @ '' must be ''
             @ [SQ] @ ''options'' @ [SQ] @ '', '' @ [SQ] @ ''env'' @ [SQ] @ '', '' @ [SQ] @ ''sfdx_url'' @ [SQ]
             @ '', or '' @ [SQ] @ ''jwt'' @ [SQ] @ '' (got: '' @ [SQ] @ src @ [SQ] @ '').'')))"

definition version_section :: "string_util \<Rightarrow> options \<Rightarrow> SalesforceConfig \<Rightarrow> SalesforceConfig result" where
  "version_section D opts cfg =
     (case opts_given D opts ''api_version'' of
        Some raw \<Rightarrow> rbind (NormaliseApiVersion D raw) (\<lambda>v. Inr (cfg \<lparr> api_version := v \<rparr>))
      | None \<Rightarrow> Inr (cfg \<lparr> api_version := kDefaultApiVersion \<rparr>))"

definition query_mode_section :: "string_util \<Rightarrow> options \<Rightarrow> SalesforceConfig \<Rightarrow> SalesforceConfig result" where
  "query_mode_section D opts cfg =
     (case opts_given D opts ''query_mode'' of
        None \<Rightarrow> Inr cfg
      | Some raw \<Rightarrow>
          let qm = su_Lower D (Trimmed D raw) in
          if qm \<noteq> ''query'' \<and> qm \<noteq> ''queryall'' then Inl (BinderException
            (''salesforce ATTACH: query_mode must be '' @ [SQ] @ ''query'' @ [SQ] @ '' or '' @ [SQ] @ ''queryAll''
             @ [SQ] @ '' (got '' @ [SQ] @ raw @ [SQ] @ '').''))
          else Inr (cfg \<lparr> query_mode := (if qm = ''queryall'' then ''queryAll'' else qm) \<rparr>))"

definition transport_section :: "string_util \<Rightarrow> options \<Rightarrow> SalesforceConfig \<Rightarrow> SalesforceConfig result" where
  "transport_section D opts cfg =
     (case opts_given D opts ''transport'' of
        None \<Rightarrow> Inr cfg
      | Some raw \<Rightarrow>
          let tp = su_Lower D (Trimmed D raw) in
          if tp \<noteq> ''rest'' \<and> tp \<noteq> ''bulk'' \<and> tp \<noteq> ''auto'' then Inl (BinderException
            (''salesforce ATTACH: transport must be '' @ [SQ] @ ''rest'' @ [SQ] @ '', '' @ [SQ] @ ''bulk'' @ [SQ]
             @ '' or '' @ [SQ] @ ''auto'' @ [SQ] @ '' (got '' @ [SQ] @ raw @ [SQ] @ '').''))
          else Inr (cfg \<lparr> transport := tp \<rparr>))"

definition bulk_chunks_section :: "string_util \<Rightarrow> options \<Rightarrow> SalesforceConfig \<Rightarrow> SalesforceConfig result" where
  "bulk_chunks_section D opts cfg =
     (case opts_given D opts ''bulk_chunks'' of
        None \<Rightarrow> Inr cfg
      | Some raw \<Rightarrow>
          let bc = strtoll (Trimmed D raw) in
          if bc < 1 \<or> bc > 8 then Inl (BinderException
            (''salesforce ATTACH: bulk_chunks must be between 1 and 8 (got '' @ [SQ] @ raw @ [SQ] @ '').''))
          else Inr (cfg \<lparr> bulk_chunks := bc \<rparr>))"

definition ParseAndValidate ::
  "string_util \<Rightarrow> client_context \<Rightarrow> string \<Rightarrow> (string \<times> Value) list \<Rightarrow> SalesforceConfig result" where
  "ParseAndValidate D C path info_options =
     (if \<not> su_StartsWith D (su_Lower D path) kScheme then Inl (BinderException
        (''salesforce ATTACH: path must start with '' @ [SQ] @ ''salesforce://'' @ [SQ]
         @ '' (got: '' @ [SQ] @ path @ [SQ] @ '').''))
      else let o' = Trimmed D (drop (length kScheme) path) in
      if o' = [] then Inl (BinderException
        (''salesforce ATTACH: missing org in path. Expected '' @ [SQ] @ ''salesforce://<org>'' @ [SQ]
         @ '' (e.g. '' @ [SQ] @ ''salesforce://production'' @ [SQ] @ '').''))
      else rbind (parse_options D info_options []) (\<lambda>opts.
           rbind (auth_section D C opts (empty_config \<lparr> org := o' \<rparr>)) (\<lambda>c1.
           rbind (version_section D opts c1) (\<lambda>c2.
           rbind (query_mode_section D opts c2) (\<lambda>c3.
           rbind (transport_section D opts c3) (\<lambda>c4.
           bulk_chunks_section D opts c4))))))"

lemmas config_section_defs =
  auth_section_def auth_options_def auth_env_def auth_jwt_def login_from_options_def
  version_section_def query_mode_section_def transport_section_def bulk_chunks_section_def

section \<open>API versions\<close>

text \<open>\<open>digits.digits\<close>, both non-empty; an accepted version is that after a \<^verbatim>\<open>v\<close>.\<close>

definition version_text :: "string \<Rightarrow> bool" where
  "version_text s \<longleftrightarrow> takeWhile isdigit s \<noteq> [] \<and>
     (case dropWhile isdigit s of [] \<Rightarrow> False | c # b \<Rightarrow> c = CHR ''.'' \<and> b \<noteq> [] \<and> list_all isdigit b)"

definition valid_version :: "string \<Rightarrow> bool" where
  "valid_version v \<longleftrightarrow> v \<noteq> [] \<and> hd v = CHR ''v'' \<and> version_text (tl v)"

lemma version_scan_fraction:
  "version_scan True True dad s = (True, True, True) \<longleftrightarrow> list_all isdigit s \<and> (dad \<or> s \<noteq> [])"
  by (induction s arbitrary: dad) auto

lemma version_scan_integer:
  "version_scan sd False False s = (True, True, True) \<longleftrightarrow>
     (sd \<or> takeWhile isdigit s \<noteq> []) \<and>
     (case dropWhile isdigit s of [] \<Rightarrow> False | c # b \<Rightarrow> c = CHR ''.'' \<and> b \<noteq> [] \<and> list_all isdigit b)"
proof (induction s arbitrary: sd)
  case Nil
  then show ?case by simp
next
  case (Cons c s)
  then show ?case by (cases "isdigit c") (auto simp: version_scan_fraction)
qed

lemma version_scan_iff: "version_scan False False False s = (True, True, True) \<longleftrightarrow> version_text s"
  by (simp add: version_scan_integer version_text_def)

lemma Normalise_iff:
  "NormaliseApiVersion D raw = Inr v \<longleftrightarrow>
     v = ''v'' @ strip_v (Trimmed D raw) \<and> version_text (strip_v (Trimmed D raw))"
  unfolding NormaliseApiVersion_def version_scan_iff [symmetric] Let_def
  by (auto split: prod.splits)

lemma version_text_ends:
  assumes "version_text s"
  shows "s \<noteq> []" "isdigit (hd s)" "isdigit (last s)"
proof -
  obtain a c b where s: "s = a @ c # b" "a \<noteq> []" "list_all isdigit a" "b \<noteq> []" "list_all isdigit b"
  proof -
    from assms have tw: "takeWhile isdigit s \<noteq> []" unfolding version_text_def by blast
    from assms obtain c b where dw: "dropWhile isdigit s = c # b" "b \<noteq> []" "list_all isdigit b"
      by (auto simp: version_text_def split: list.splits)
    have "s = takeWhile isdigit s @ c # b"
      using takeWhile_dropWhile_id [of isdigit s] dw(1) by simp
    moreover have "list_all isdigit (takeWhile isdigit s)"
      by (auto simp: list_all_iff dest: set_takeWhileD)
    ultimately show ?thesis using that tw dw by blast
  qed
  then show "s \<noteq> []" by simp
  from s show "isdigit (hd s)" by (cases a) auto
  from s(4,5) have "isdigit (last b)" by (simp add: list_all_iff)
  with s(1,4) show "isdigit (last s)" by simp
qed

context string_utilities
begin

lemma Trimmed_id:
  assumes "s \<noteq> []" "\<not> isspace_c (hd s)" "\<not> isspace_c (last s)"
  shows "Trimmed D s = s"
proof -
  have "dropWhile isspace_c s = s" using assms(1,2) by (cases s) auto
  moreover have "dropWhile isspace_c (rev s) = rev s"
    using assms(1,3) by (cases s rule: rev_cases) auto
  ultimately show ?thesis by (simp add: Trimmed_def LTrim_eq RTrim_eq)
qed

lemma Trimmed_Nil [simp]: "Trimmed D [] = []"
  by (simp add: Trimmed_def LTrim_eq RTrim_eq)

lemma Normalise_valid: "NormaliseApiVersion D raw = Inr v \<Longrightarrow> valid_version v"
  by (simp add: Normalise_iff valid_version_def)

lemma Normalise_fixed:
  assumes "valid_version v"
  shows "NormaliseApiVersion D v = Inr v"
proof -
  from assms obtain s where v: "v = CHR ''v'' # s" and s: "version_text s"
    by (cases v) (auto simp: valid_version_def)
  have "\<not> isspace_c (last s)" using version_text_ends(3) [OF s] isdigit_sign by blast
  then have "Trimmed D v = v"
    using version_text_ends(1) [OF s] by (intro Trimmed_id) (auto simp: v isspace_c_def)
  then show ?thesis using s by (simp add: Normalise_iff v strip_v_def)
qed

end

text \<open>
  API versions normalise. A version is accepted exactly when, trimmed and without its
  optional \<^verbatim>\<open>v\<close>, it is digits, a dot and digits; what is returned is the normal form
  \<^verbatim>\<open>vNN.N\<close>, and normalising it again changes nothing.
\<close>

theorem NormaliseApiVersion_normal:
  assumes "string_utilities D"
  shows "(\<exists>v. NormaliseApiVersion D raw = Inr v) = version_text (strip_v (Trimmed D raw)) \<and>
    (\<forall>v. NormaliseApiVersion D raw = Inr v \<longrightarrow> valid_version v \<and> NormaliseApiVersion D v = Inr v)"
  using string_utilities.Normalise_valid [OF assms] string_utilities.Normalise_fixed [OF assms]
  by (simp add: Normalise_iff)

theorem NormaliseApiVersion_normal_witness:
  "NormaliseApiVersion ascii_su '' V59.0'' = Inr ''v59.0'' \<and> valid_version ''v59.0'' \<and>
   NormaliseApiVersion ascii_su ''v59.0'' = Inr ''v59.0''"
proof -
  have "NormaliseApiVersion ascii_su '' V59.0'' = Inr ''v59.0''" by code_simp
  with NormaliseApiVersion_normal [OF ascii.string_utilities_axioms, of "'' V59.0''"]
  show ?thesis by blast
qed

section \<open>Accepted configurations\<close>

definition https_url :: "string \<Rightarrow> bool" where
  "https_url u \<longleftrightarrow> prefix ''https://'' (map tolower u) \<and> length u > 8"

definition wf_config :: "SalesforceConfig \<Rightarrow> bool" where
  "wf_config cfg \<longleftrightarrow>
     org cfg \<noteq> [] \<and> client_id cfg \<noteq> [] \<and> https_url (login_url cfg) \<and> valid_version (api_version cfg) \<and>
     query_mode cfg \<in> {[], ''query'', ''queryAll''} \<and> transport cfg \<in> {[], ''rest'', ''bulk'', ''auto''} \<and>
     0 \<le> bulk_chunks cfg \<and> bulk_chunks cfg \<le> 8 \<and>
     (case auth_method cfg of
        kRefreshToken \<Rightarrow> refresh_token cfg \<noteq> [] \<and> private_key cfg = []
      | kJwt \<Rightarrow> username cfg \<noteq> [] \<and> sublist ''-----BEGIN'' (private_key cfg) \<and>
                \<not> sublist ''ENCRYPTED'' (private_key cfg) \<and>
                client_secret cfg = [] \<and> refresh_token cfg = [])"

text \<open>What the authentication section fills in.\<close>

definition authenticated :: "string \<Rightarrow> SalesforceConfig \<Rightarrow> bool" where
  "authenticated o' cfg \<longleftrightarrow>
     org cfg = o' \<and> client_id cfg \<noteq> [] \<and> https_url (login_url cfg) \<and>
     query_mode cfg = [] \<and> transport cfg = [] \<and> bulk_chunks cfg = 0 \<and>
     (case auth_method cfg of
        kRefreshToken \<Rightarrow> refresh_token cfg \<noteq> [] \<and> private_key cfg = []
      | kJwt \<Rightarrow> username cfg \<noteq> [] \<and> sublist ''-----BEGIN'' (private_key cfg) \<and>
                \<not> sublist ''ENCRYPTED'' (private_key cfg) \<and>
                client_secret cfg = [] \<and> refresh_token cfg = [])"

lemma EnvLookup_nonempty: "EnvLookup D C name = Some v \<Longrightarrow> v \<noteq> []"
proof -
  have "mock_env_find D es name = Some v \<Longrightarrow> v \<noteq> []" for es
    by (induction es) (auto simp: Let_def split: option.splits if_splits)
  then show "EnvLookup D C name = Some v \<Longrightarrow> v \<noteq> []"
    by (auto simp: EnvLookup_def os_env_def split: option.splits if_splits)
qed

lemma RequireEnv_nonempty: "RequireEnv D C name = Inr v \<Longrightarrow> v \<noteq> []"
  by (auto simp: RequireEnv_def EnvLookup_nonempty split: option.splits)

lemma RequireEnv_not_Nil [simp]: "RequireEnv D C name \<noteq> Inr []"
  using RequireEnv_nonempty by blast

lemma LoadPrivateKeyFile_pem:
  "LoadPrivateKeyFile C p = Inr pem \<Longrightarrow> sublist ''-----BEGIN'' pem \<and> \<not> sublist ''ENCRYPTED'' pem"
  by (auto simp: LoadPrivateKeyFile_def sf_simps split: option.splits if_splits)

context string_utilities
begin

lemma https_url_iff: "ValidateLoginUrl D u = Inr () \<longleftrightarrow> https_url u"
  by (auto simp: ValidateLoginUrl_def https_url_def kHttps_def StartsWith_eq Lower_eq)

lemma default_login_https: "https_url kDefaultLoginUrl"
  by code_simp

lemma RequireOption_nonempty: "RequireOption D opts k = Inr v \<Longrightarrow> v \<noteq> []"
  by (auto simp: RequireOption_def opts_given_def split: option.splits if_splits)

lemma login_from_options_ok:
  "login_from_options D opts cfg = Inr cfg' \<Longrightarrow> \<exists>u. cfg' = cfg \<lparr> login_url := u \<rparr> \<and> https_url u"
  by (auto simp: login_from_options_def rbind_eq_Inr https_url_iff default_login_https split: option.splits)

lemma auth_options_ok:
  "auth_options D opts (empty_config \<lparr> org := o' \<rparr>) = Inr cfg \<Longrightarrow> authenticated o' cfg"
  by (auto simp: auth_options_def rbind_eq_Inr authenticated_def empty_config_def
      dest!: login_from_options_ok dest: RequireOption_nonempty)

lemma auth_env_ok: "auth_env D C (empty_config \<lparr> org := o' \<rparr>) = Inr cfg \<Longrightarrow> authenticated o' cfg"
  by (auto simp: auth_env_def Let_def rbind_eq_Inr authenticated_def empty_config_def https_url_iff
      default_login_https dest: RequireEnv_nonempty split: option.splits)

lemma auth_jwt_ok: "auth_jwt D C opts (empty_config \<lparr> org := o' \<rparr>) = Inr cfg \<Longrightarrow> authenticated o' cfg"
  by (auto simp: auth_jwt_def rbind_eq_Inr authenticated_def empty_config_def
      dest!: login_from_options_ok dest: RequireOption_nonempty LoadPrivateKeyFile_pem)

lemma ParseSfdxAuthUrl_ok:
  "ParseSfdxAuthUrl D u (empty_config \<lparr> org := o' \<rparr>) = Inr cfg \<Longrightarrow> authenticated o' cfg"
  by (auto simp: ParseSfdxAuthUrl_def Let_def rbind_eq_Inr authenticated_def empty_config_def https_url_iff
      split: option.splits if_splits)

lemma auth_section_ok:
  "auth_section D C opts (empty_config \<lparr> org := o' \<rparr>) = Inr cfg \<Longrightarrow> authenticated o' cfg"
  by (auto simp: auth_section_def Let_def rbind_eq_Inr
      dest: auth_options_ok auth_env_ok auth_jwt_ok ParseSfdxAuthUrl_ok split: if_splits)

lemma version_section_ok:
  "version_section D opts cfg = Inr cfg' \<Longrightarrow> \<exists>v. cfg' = cfg \<lparr> api_version := v \<rparr> \<and> valid_version v"
  by (auto simp: version_section_def rbind_eq_Inr kDefaultApiVersion_def valid_version_def version_text_def
      isdigit_def dest: Normalise_valid [unfolded valid_version_def version_text_def] split: option.splits)

lemma query_mode_section_ok:
  assumes "query_mode_section D opts cfg = Inr cfg'"
  shows "\<exists>q. cfg' = cfg \<lparr> query_mode := q \<rparr> \<and> (q = query_mode cfg \<or> q \<in> {''query'', ''queryAll''})"
proof (cases "opts_given D opts ''query_mode''")
  case None
  with assms show ?thesis by (intro exI [of _ "query_mode cfg"]) (simp add: query_mode_section_def)
next
  case (Some raw)
  with assms show ?thesis by (auto simp: query_mode_section_def Let_def split: if_splits)
qed

lemma transport_section_ok:
  assumes "transport_section D opts cfg = Inr cfg'"
  shows "\<exists>t. cfg' = cfg \<lparr> transport := t \<rparr> \<and> (t = transport cfg \<or> t \<in> {''rest'', ''bulk'', ''auto''})"
proof (cases "opts_given D opts ''transport''")
  case None
  with assms show ?thesis by (intro exI [of _ "transport cfg"]) (simp add: transport_section_def)
next
  case (Some raw)
  with assms show ?thesis by (auto simp: transport_section_def Let_def split: if_splits)
qed

lemma bulk_chunks_section_ok:
  assumes "bulk_chunks_section D opts cfg = Inr cfg'"
  shows "\<exists>b. cfg' = cfg \<lparr> bulk_chunks := b \<rparr> \<and> (b = bulk_chunks cfg \<or> 1 \<le> b \<and> b \<le> 8)"
proof (cases "opts_given D opts ''bulk_chunks''")
  case None
  with assms show ?thesis by (intro exI [of _ "bulk_chunks cfg"]) (simp add: bulk_chunks_section_def)
next
  case (Some raw)
  with assms show ?thesis by (auto simp: bulk_chunks_section_def Let_def split: if_splits)
qed

lemma ParseAndValidate_ok:
  assumes "ParseAndValidate D C path os = Inr cfg"
  shows "wf_config cfg \<and> org cfg = Trimmed D (drop (length kScheme) path)"
proof -
  let ?o = "Trimmed D (drop (length kScheme) path)"
  from assms obtain opts c1 c2 c3 c4 where o: "?o \<noteq> []"
    and a: "auth_section D C opts (empty_config \<lparr> org := ?o \<rparr>) = Inr c1"
    and v: "version_section D opts c1 = Inr c2" and q: "query_mode_section D opts c2 = Inr c3"
    and t: "transport_section D opts c3 = Inr c4" and b: "bulk_chunks_section D opts c4 = Inr cfg"
    by (auto simp: ParseAndValidate_def Let_def rbind_eq_Inr split: if_splits)
  obtain vv where c2: "c2 = c1 \<lparr> api_version := vv \<rparr>" "valid_version vv"
    using version_section_ok [OF v] by blast
  obtain qq where c3: "c3 = c2 \<lparr> query_mode := qq \<rparr>" "qq = query_mode c2 \<or> qq \<in> {''query'', ''queryAll''}"
    using query_mode_section_ok [OF q] by blast
  obtain tt where c4: "c4 = c3 \<lparr> transport := tt \<rparr>" "tt = transport c3 \<or> tt \<in> {''rest'', ''bulk'', ''auto''}"
    using transport_section_ok [OF t] by blast
  obtain bb where c5: "cfg = c4 \<lparr> bulk_chunks := bb \<rparr>" "bb = bulk_chunks c4 \<or> 1 \<le> bb \<and> bb \<le> 8"
    using bulk_chunks_section_ok [OF b] by blast
  from auth_section_ok [OF a] have a': "authenticated ?o c1" .
  then have z: "query_mode c1 = []" "transport c1 = []" "bulk_chunks c1 = 0"
    by (simp_all add: authenticated_def)
  have d: "qq \<in> {[], ''query'', ''queryAll''}" "tt \<in> {[], ''rest'', ''bulk'', ''auto''}" "0 \<le> bb \<and> bb \<le> 8"
    using c2(1) c3 c4 c5 z by auto
  show ?thesis
    using a' d c2(2) o unfolding authenticated_def wf_config_def c5(1) c4(1) c3(1) c2(1)
    by (simp split: SalesforceAuthMethod.splits)
qed

end

text \<open>
  C12: every accepted ATTACH is well formed. Whatever the options, a configuration that is returned
  names the trimmed org of the path, has a client id, an absolute https login URL, a normalised
  API version, a query mode, transport and chunk count in their domains, and the credentials
  of its grant only: a refresh token, or a user name and an unencrypted PEM key.
\<close>

theorem ParseAndValidate_wf:
  assumes "string_utilities D" and "ParseAndValidate D C path info_options = Inr cfg"
  shows "wf_config cfg \<and> org cfg = Trimmed D (drop (length kScheme) path)"
  by (rule string_utilities.ParseAndValidate_ok [OF assms])

definition varchar_option :: "string \<Rightarrow> Value" where
  "varchar_option s = \<lparr> v_IsNull = False, v_type = VARCHAR, v_ToString = s, v_StringGet = s,
                        v_BoolGet = False, v_IntGet = 0 \<rparr>"

definition bare_context :: client_context where
  "bare_context = \<lparr> TryGetCurrentSetting = (\<lambda>_. None), getenv = (\<lambda>_. None), read_file = (\<lambda>_. None) \<rparr>"

definition sample_options :: "string \<Rightarrow> (string \<times> Value) list" where
  "sample_options secret =
     [(''client_id'', varchar_option ''id''), (''CLIENT_SECRET'', varchar_option secret),
      (''refresh_token'', varchar_option ''tok''), (''transport'', varchar_option ''Bulk'')]"

theorem ParseAndValidate_wf_witness:
  "\<exists>cfg. ParseAndValidate ascii_su bare_context ''salesforce://prod'' (sample_options ''s'') = Inr cfg \<and>
     wf_config cfg \<and> org cfg = ''prod'' \<and> transport cfg = ''bulk''"
proof -
  let ?cfg = "\<lparr> org = ''prod'', auth_method = kRefreshToken, client_id = ''id'', client_secret = ''s'',
     refresh_token = ''tok'', username = [], private_key = [], login_url = kDefaultLoginUrl,
     api_version = kDefaultApiVersion, query_mode = [], transport = ''bulk'', bulk_chunks = 0 \<rparr>"
  have r: "ParseAndValidate ascii_su bare_context ''salesforce://prod'' (sample_options ''s'') = Inr ?cfg"
    by code_simp
  from ParseAndValidate_wf [OF ascii.string_utilities_axioms r] r show ?thesis
    by (intro exI [of _ ?cfg]) simp
qed

section \<open>SFDX auth URLs\<close>

lemma str_rfind_last: "c \<notin> set t \<Longrightarrow> str_rfind (s @ c # t) c = Some (length s)"
proof (induction s)
  case Nil
  have "c \<notin> set t \<Longrightarrow> str_rfind t c = None" by (induction t) auto
  with Nil show ?case by simp
next
  case (Cons d s)
  then show ?case by simp
qed

lemma str_find_char: "c \<notin> set s \<Longrightarrow> str_find (s @ c # t) [c] = Some (length s)"
  by (induction s) auto

lemma str_find_at_char: "c \<notin> set t \<Longrightarrow> str_find_at (s @ t @ c # u) [c] (length s) = Some (length s + length t)"
  by (simp add: str_find_at_def str_find_char)

lemma drop_past: "drop (length xs + 1) (xs @ c # ys) = ys"
  by simp

lemma pop_slashes_id: "s \<noteq> [] \<Longrightarrow> last s \<noteq> CHR ''/'' \<Longrightarrow> pop_slashes s = s"
  by (cases s rule: rev_cases) (simp_all add: pop_slashes_def)

definition sfdx_url :: "string \<Rightarrow> string \<Rightarrow> string \<Rightarrow> string \<Rightarrow> string" where
  "sfdx_url cid sec tok host = ''force://'' @ cid @ '':'' @ sec @ '':'' @ tok @ ''@'' @ host"

definition sfdx_parts :: "string_util \<Rightarrow> string \<Rightarrow> string \<Rightarrow> string \<Rightarrow> string \<Rightarrow> bool" where
  "sfdx_parts D cid sec tok host \<longleftrightarrow>
     cid \<noteq> [] \<and> CHR '':'' \<notin> set cid \<and> CHR '':'' \<notin> set sec \<and> tok \<noteq> [] \<and>
     host \<noteq> [] \<and> CHR ''@'' \<notin> set host \<and> Trimmed D host = host \<and> last host \<noteq> CHR ''/''"

context string_utilities
begin

lemma ParseSfdxAuthUrl_url:
  assumes "sfdx_parts D cid sec tok host"
  shows "ParseSfdxAuthUrl D (sfdx_url cid sec tok host) cfg =
     Inr (cfg \<lparr> client_id := cid, client_secret := sec, refresh_token := tok, login_url := ''https://'' @ host \<rparr>)"
proof -
  let ?creds = "cid @ CHR '':'' # sec @ CHR '':'' # tok"
  from assms have parts: "cid \<noteq> []" "CHR '':'' \<notin> set cid" "CHR '':'' \<notin> set sec" "tok \<noteq> []"
    "host \<noteq> []" "CHR ''@'' \<notin> set host" "Trimmed D host = host" "last host \<noteq> CHR ''/''"
    by (auto simp: sfdx_parts_def)
  have p: "prefix kForce (sfdx_url cid sec tok host)" by (simp add: kForce_def sfdx_url_def)
  have d: "drop (length kForce) (sfdx_url cid sec tok host) = ?creds @ CHR ''@'' # host"
    by (simp add: kForce_def sfdx_url_def)
  have at: "str_rfind (?creds @ CHR ''@'' # host) (CHR ''@'') = Some (length ?creds)"
    by (rule str_rfind_last [OF parts(6)])
  have p1: "str_find ?creds '':'' = Some (length cid)" by (rule str_find_char [OF parts(2)])
  have p2: "str_find_at ?creds '':'' (length cid + 1) = Some (length cid + 1 + length sec)"
    using str_find_at_char [OF parts(3), of "cid @ '':''" tok] by simp
  have v: "ValidateLoginUrl D (kHttps @ host) = Inr ()"
    using parts(5) by (simp add: https_url_iff https_url_def kHttps_def) (simp add: tolower_def isupper_def)
  have t: "take (length ?creds) (?creds @ CHR ''@'' # host) = ?creds"
    "drop (length ?creds + 1) (?creds @ CHR ''@'' # host) = host"
    by (simp, rule drop_past)
  show ?thesis
    unfolding ParseSfdxAuthUrl_def Let_def d StartsWith_eq
    using p parts
    by (simp only: at t p1 p2 option.case pop_slashes_id [OF parts(5,8)] not_True_eq_False if_False)
      (simp add: v, simp add: kHttps_def)
qed

end

text \<open>
  An SFDX auth URL gives back its parts. For every client id and secret without a colon, every
  refresh token (colons and at-signs included) and every bare host, parsing the URL built from
  them stores exactly these and the https login URL of the host.
\<close>

theorem ParseSfdxAuthUrl_roundtrip:
  assumes "string_utilities D" and "sfdx_parts D cid sec tok host"
  shows "ParseSfdxAuthUrl D (sfdx_url cid sec tok host) cfg =
     Inr (cfg \<lparr> client_id := cid, client_secret := sec, refresh_token := tok, login_url := ''https://'' @ host \<rparr>)"
  by (rule string_utilities.ParseSfdxAuthUrl_url [OF assms])

theorem ParseSfdxAuthUrl_roundtrip_witness:
  "ParseSfdxAuthUrl ascii_su ''force://app::a@b:c@x.my.salesforce.com'' empty_config =
     Inr (empty_config \<lparr> client_id := ''app'', client_secret := [], refresh_token := ''a@b:c'',
                         login_url := ''https://x.my.salesforce.com'' \<rparr>)"
proof -
  have p: "sfdx_parts ascii_su ''app'' [] ''a@b:c'' ''x.my.salesforce.com''" by code_simp
  from ParseSfdxAuthUrl_roundtrip [OF ascii.string_utilities_axioms p, of empty_config]
  show ?thesis by (simp add: sfdx_url_def)
qed

section \<open>Secrets do not reach error messages\<close>

definition secret_option :: "string_util \<Rightarrow> string \<Rightarrow> bool" where
  "secret_option D k \<longleftrightarrow> su_CIEquals D k ''client_secret'' \<or> su_CIEquals D k ''refresh_token''"

definition secret_variables :: "string list" where
  "secret_variables = [''SF_CLIENT_SECRET'', ''SF_REFRESH_TOKEN'', ''SF_SFDX_AUTH_URL'']"

text \<open>Two values an observer cannot tell apart: equal, or both secrets that are given or both not.\<close>

definition same_value :: "string_util \<Rightarrow> string \<Rightarrow> string \<Rightarrow> string \<Rightarrow> bool" where
  "same_value D k v w \<longleftrightarrow> (if secret_option D k then (Trimmed D v = []) = (Trimmed D w = []) else v = w)"

definition same_options :: "string_util \<Rightarrow> (string \<times> Value) list \<Rightarrow> (string \<times> Value) list \<Rightarrow> bool" where
  "same_options D = list_all2 (\<lambda>p q. fst p = fst q \<and> same_value D (fst p) (v_ToString (snd p)) (v_ToString (snd q)))"

definition same_opts :: "string_util \<Rightarrow> options \<Rightarrow> options \<Rightarrow> bool" where
  "same_opts D = list_all2 (\<lambda>p q. fst p = fst q \<and> same_value D (fst p) (snd p) (snd q))"

text \<open>
  An SFDX auth URL holds two secrets. Two of them look alike when they differ in these parts only, the token being
  empty in both or in neither; or when neither has the shape of such a URL at all. Two key files look alike
  when both or neither is a PEM text, and an encrypted one.
\<close>

definition sfdx_shape :: "string \<Rightarrow> string \<Rightarrow> string \<Rightarrow> string \<Rightarrow> string \<Rightarrow> bool" where
  "sfdx_shape u cid sec tok host \<longleftrightarrow>
     u = sfdx_url cid sec tok host \<and> CHR '':'' \<notin> set cid \<and> CHR '':'' \<notin> set sec \<and> CHR ''@'' \<notin> set host"

definition same_sfdx :: "string \<Rightarrow> string \<Rightarrow> bool" where
  "same_sfdx u u' \<longleftrightarrow>
     (\<exists>cid sec tok host sec' tok'. sfdx_shape u cid sec tok host \<and> sfdx_shape u' cid sec' tok' host \<and> (tok = []) = (tok' = [])) \<or>
     (\<nexists>cid sec tok host. sfdx_shape u cid sec tok host) \<and> (\<nexists>cid sec tok host. sfdx_shape u' cid sec tok host)"

definition same_key :: "string \<Rightarrow> string \<Rightarrow> bool" where
  "same_key k k' \<longleftrightarrow> str_contains k ''-----BEGIN'' = str_contains k' ''-----BEGIN'' \<and>
     str_contains k ''ENCRYPTED'' = str_contains k' ''ENCRYPTED''"

definition same_context :: "string_util \<Rightarrow> client_context \<Rightarrow> client_context \<Rightarrow> bool" where
  "same_context D C C' \<longleftrightarrow>
     (\<forall>p. rel_option same_key (read_file C p) (read_file C' p)) \<and>
     (\<forall>n. if n = ''SF_SFDX_AUTH_URL'' then rel_option same_sfdx (EnvLookup D C n) (EnvLookup D C' n)
          else if n \<in> set secret_variables then (EnvLookup D C n = None) = (EnvLookup D C' n = None)
          else EnvLookup D C n = EnvLookup D C' n)"

definition erase :: "SalesforceConfig \<Rightarrow> SalesforceConfig" where
  "erase cfg = cfg \<lparr> client_secret := [], refresh_token := [], private_key := [] \<rparr>"

abbreviation same_outcome :: "SalesforceConfig result \<Rightarrow> SalesforceConfig result \<Rightarrow> bool" where
  "same_outcome r r' \<equiv> map_sum id erase r = map_sum id erase r'"

lemma same_outcome_rbind:
  assumes "same_outcome r r'" and "\<And>c c'. erase c = erase c' \<Longrightarrow> same_outcome (f c) (f' c')"
  shows "same_outcome (rbind r f) (rbind r' f')"
  using assms by (cases r; cases r') auto

lemma erase_update [simp]:
  "erase (c \<lparr> client_secret := s \<rparr>) = erase c" "erase (c \<lparr> refresh_token := t \<rparr>) = erase c"
  "erase (c \<lparr> client_id := a \<rparr>) = erase c \<lparr> client_id := a \<rparr>"
  "erase (c \<lparr> login_url := a \<rparr>) = erase c \<lparr> login_url := a \<rparr>"
  "erase (c \<lparr> username := a \<rparr>) = erase c \<lparr> username := a \<rparr>"
  "erase (c \<lparr> private_key := a \<rparr>) = erase c"
  "erase (c \<lparr> auth_method := m \<rparr>) = erase c \<lparr> auth_method := m \<rparr>"
  "erase (c \<lparr> api_version := a \<rparr>) = erase c \<lparr> api_version := a \<rparr>"
  "erase (c \<lparr> query_mode := a \<rparr>) = erase c \<lparr> query_mode := a \<rparr>"
  "erase (c \<lparr> transport := a \<rparr>) = erase c \<lparr> transport := a \<rparr>"
  "erase (c \<lparr> bulk_chunks := n \<rparr>) = erase c \<lparr> bulk_chunks := n \<rparr>"
  by (simp_all add: erase_def)

context string_utilities
begin

lemma secret_option_cong: "su_CIEquals D k k' \<Longrightarrow> secret_option D k = secret_option D k'"
  by (simp add: secret_option_def CIEquals_eq)

lemma same_opts_put:
  "same_opts D m m' \<Longrightarrow> same_value D k v w \<Longrightarrow> same_opts D (opts_put D m k v) (opts_put D m' k w)"
  unfolding same_opts_def
proof (induction m m' rule: list_all2_induct)
  case Nil
  then show ?case by simp
next
  case (Cons p m q m')
  obtain k' v' where p: "p = (k', v')" by (cases p)
  with Cons obtain w' where q: "q = (k', w')" "same_value D k' v' w'" by (cases q) auto
  show ?case
  proof (cases "su_CIEquals D k' k")
    case True
    then have "same_value D k' v w"
      using Cons.prems by (simp add: same_value_def secret_option_cong)
    with True Cons.hyps show ?thesis by (simp add: p q)
  next
    case False
    with Cons q show ?thesis by (simp add: p)
  qed
qed

lemma same_opts_find:
  assumes "same_opts D m m'"
  shows "opts_find D m k = None \<and> opts_find D m' k = None \<or>
         (\<exists>v w. opts_find D m k = Some v \<and> opts_find D m' k = Some w \<and> same_value D k v w)"
  using assms unfolding same_opts_def
proof (induction m m' rule: list_all2_induct)
  case Nil
  then show ?case by (simp add: opts_find_def)
next
  case (Cons p m q m')
  then show ?case
    by (cases "su_CIEquals D (fst p) k") (auto simp: opts_find_def same_value_def secret_option_cong)
qed

lemma same_opts_given:
  assumes "same_opts D m m'"
  shows "secret_option D k \<Longrightarrow> (opts_given D m k = None) = (opts_given D m' k = None)"
    and "\<not> secret_option D k \<Longrightarrow> opts_given D m k = opts_given D m' k"
  using same_opts_find [OF assms, of k] by (auto simp: opts_given_def same_value_def)

lemma parse_options_same:
  assumes "same_options D os os'" "same_opts D m m'"
  shows "(\<exists>e. parse_options D os m = Inl e \<and> parse_options D os' m' = Inl e) \<or>
         (\<exists>n n'. parse_options D os m = Inr n \<and> parse_options D os' m' = Inr n' \<and> same_opts D n n')"
  using assms unfolding same_options_def
proof (induction os os' arbitrary: m m' rule: list_all2_induct)
  case Nil
  then show ?case by simp
next
  case (Cons p os q os')
  obtain k v where p: "p = (k, v)" by (cases p)
  with Cons obtain w where q: "q = (k, w)" "same_value D k (v_ToString v) (v_ToString w)" by (cases q) auto
  show ?case using Cons.IH Cons.prems same_opts_put [OF Cons.prems q(2)] by (simp add: p q)
qed

lemma public_options:
  "list_all (\<lambda>k. \<not> secret_option D k)
     [''auth_source'', ''client_id'', ''username'', ''private_key_file'', ''login_url'', ''api_version'',
      ''query_mode'', ''transport'', ''bulk_chunks'']"
  unfolding secret_option_def CIEquals_eq Lower_eq by code_simp

lemma secret_options: "secret_option D ''client_secret''" "secret_option D ''refresh_token''"
  by (simp_all add: secret_option_def CIEquals_refl)

lemma same_given_public:
  assumes "same_opts D m m'"
  shows "k \<in> {''auth_source'', ''client_id'', ''username'', ''private_key_file'', ''login_url'', ''api_version'',
      ''query_mode'', ''transport'', ''bulk_chunks''} \<Longrightarrow> opts_given D m' k = opts_given D m k"
  using same_opts_given(2) [OF assms] public_options by auto

lemma login_from_options_same:
  "same_opts D m m' \<Longrightarrow> erase c = erase c' \<Longrightarrow>
     same_outcome (login_from_options D m c) (login_from_options D m' c')"
  by (auto simp: login_from_options_def same_given_public rbind_def split: option.splits sum.splits)

lemma RequireOption_public:
  "same_opts D m m' \<Longrightarrow> k \<in> {''client_id'', ''username''} \<Longrightarrow> RequireOption D m' k = RequireOption D m k"
  by (auto simp: RequireOption_def same_given_public)

lemma RequireOption_secret:
  assumes "same_opts D m m'" and "secret_option D k"
  shows "(RequireOption D m k = Inl (missing_option k) \<and> RequireOption D m' k = Inl (missing_option k)) \<or>
         (\<exists>v w. RequireOption D m k = Inr v \<and> RequireOption D m' k = Inr w)"
  using same_opts_given(1) [OF assms] by (auto simp: RequireOption_def split: option.splits)

lemma auth_options_same:
  assumes m: "same_opts D m m'" and c: "erase c = erase c'"
  shows "same_outcome (auth_options D m c) (auth_options D m' c')"
proof -
  have "same_outcome
      (login_from_options D m (c \<lparr> client_id := a, client_secret := s, refresh_token := t \<rparr>))
      (login_from_options D m' (c' \<lparr> client_id := a, client_secret := s', refresh_token := t' \<rparr>))" for a s t s' t'
    by (rule login_from_options_same [OF m]) (simp add: c)
  then show ?thesis
    using RequireOption_secret [OF m secret_options(1)] RequireOption_secret [OF m secret_options(2)]
    by (cases "RequireOption D m ''client_id''")
      (auto simp: auth_options_def RequireOption_public [OF m])
qed

lemma auth_jwt_same:
  assumes m: "same_opts D m m'" and c: "erase c = erase c'" and C: "same_context D C C'"
  shows "same_outcome (auth_jwt D C m c) (auth_jwt D C' m' c')"
proof -
  have e: "EnvLookup D C' ''SF_JWT_KEY_FILE'' = EnvLookup D C ''SF_JWT_KEY_FILE''"
    using C by (auto simp: same_context_def secret_variables_def)
  have k: "jwt_key_path D C' m' = jwt_key_path D C m"
    unfolding jwt_key_path_def e by (simp add: same_given_public [OF m])
  have l: "(\<exists>e. LoadPrivateKeyFile C p = Inl e \<and> LoadPrivateKeyFile C' p = Inl e) \<or>
      (\<exists>v w. LoadPrivateKeyFile C p = Inr v \<and> LoadPrivateKeyFile C' p = Inr w)" for p
  proof -
    have "rel_option same_key (read_file C p) (read_file C' p)" using C by (simp add: same_context_def)
    then show ?thesis
      by (cases "read_file C p"; cases "read_file C' p") (auto simp: LoadPrivateKeyFile_def same_key_def)
  qed
  have "same_outcome (login_from_options D m (c \<lparr> auth_method := kJwt, client_id := a, username := u, private_key := v \<rparr>))
      (login_from_options D m' (c' \<lparr> auth_method := kJwt, client_id := a, username := u, private_key := w \<rparr>))" for a u v w
    by (rule login_from_options_same [OF m]) (simp add: c)
  then have "same_outcome
      (rbind (LoadPrivateKeyFile C p) (\<lambda>v. login_from_options D m
        (c \<lparr> auth_method := kJwt, client_id := a, username := u, private_key := v \<rparr>)))
      (rbind (LoadPrivateKeyFile C' p) (\<lambda>w. login_from_options D m'
        (c' \<lparr> auth_method := kJwt, client_id := a, username := u, private_key := w \<rparr>)))" for p a u
    using l [of p] by auto
  then show ?thesis
    by (auto simp: auth_jwt_def k RequireOption_public [OF m] rbind_def [of "RequireOption _ _ _"] rbind_def [of "jwt_key_path _ _ _"]
        split: sum.splits)
qed

lemma RequireEnv_secret:
  assumes "same_context D C C'" and "n \<in> {''SF_CLIENT_SECRET'', ''SF_REFRESH_TOKEN''}"
  shows "(\<exists>e. RequireEnv D C n = Inl e \<and> RequireEnv D C' n = Inl e) \<or>
         (\<exists>v w. RequireEnv D C n = Inr v \<and> RequireEnv D C' n = Inr w)"
proof -
  have "(EnvLookup D C n = None) = (EnvLookup D C' n = None)"
    using assms by (auto simp: same_context_def secret_variables_def)
  then show ?thesis by (auto simp: RequireEnv_def split: option.splits)
qed

lemma EnvLookup_public:
  "same_context D C C' \<Longrightarrow> n \<notin> set secret_variables \<Longrightarrow> EnvLookup D C' n = EnvLookup D C n"
  by (auto simp: same_context_def secret_variables_def split: if_splits)

lemma auth_env_same:
  assumes C: "same_context D C C'" and c: "erase c = erase c'"
  shows "same_outcome (auth_env D C c) (auth_env D C' c')"
proof -
  have l: "EnvLookup D C' ''SF_LOGIN_URL'' = EnvLookup D C ''SF_LOGIN_URL''"
    and i: "RequireEnv D C' ''SF_CLIENT_ID'' = RequireEnv D C ''SF_CLIENT_ID''"
    using EnvLookup_public [OF C] by (simp_all add: RequireEnv_def secret_variables_def)
  have "same_outcome
      (case EnvLookup D C ''SF_LOGIN_URL'' of
         Some login \<Rightarrow> rbind (ValidateLoginUrl D (Trimmed D login))
           (\<lambda>_. Inr (c \<lparr> client_id := a, client_secret := s, refresh_token := t, login_url := Trimmed D login \<rparr>))
       | None \<Rightarrow> Inr (c \<lparr> client_id := a, client_secret := s, refresh_token := t, login_url := kDefaultLoginUrl \<rparr>))
      (case EnvLookup D C ''SF_LOGIN_URL'' of
         Some login \<Rightarrow> rbind (ValidateLoginUrl D (Trimmed D login))
           (\<lambda>_. Inr (c' \<lparr> client_id := a, client_secret := s', refresh_token := t', login_url := Trimmed D login \<rparr>))
       | None \<Rightarrow> Inr (c' \<lparr> client_id := a, client_secret := s', refresh_token := t', login_url := kDefaultLoginUrl \<rparr>))"
    for a s t s' t'
    by (auto simp: rbind_def c split: option.splits sum.splits)
  then show ?thesis
    using RequireEnv_secret [OF C, of "''SF_CLIENT_SECRET''"] RequireEnv_secret [OF C, of "''SF_REFRESH_TOKEN''"]
    by (cases "RequireEnv D C ''SF_CLIENT_ID''")
      (auto simp: auth_env_def l i Let_def secret_variables_def)
qed

lemma ParseSfdxAuthUrl_shape:
  assumes "sfdx_shape u cid sec tok host"
  shows "ParseSfdxAuthUrl D u cfg =
     (let h = pop_slashes (Trimmed D host) in
      if h = [] \<or> cid = [] \<or> tok = [] then Inl sfdx_fail
      else rbind (ValidateLoginUrl D (kHttps @ h))
        (\<lambda>_. Inr (cfg \<lparr> client_id := cid, client_secret := sec, refresh_token := tok, login_url := kHttps @ h \<rparr>)))"
proof -
  let ?creds = "cid @ CHR '':'' # sec @ CHR '':'' # tok"
  from assms have u: "u = kForce @ ?creds @ CHR ''@'' # host"
    and parts: "CHR '':'' \<notin> set cid" "CHR '':'' \<notin> set sec" "CHR ''@'' \<notin> set host"
    by (auto simp: sfdx_shape_def sfdx_url_def kForce_def)
  have at: "str_rfind (?creds @ CHR ''@'' # host) (CHR ''@'') = Some (length ?creds)"
    by (rule str_rfind_last [OF parts(3)])
  have p1: "str_find ?creds '':'' = Some (length cid)" by (rule str_find_char [OF parts(1)])
  have p2: "str_find_at ?creds '':'' (length cid + 1) = Some (length cid + 1 + length sec)"
    using str_find_at_char [OF parts(2), of "cid @ '':''" tok] by simp
  have d: "drop (length kForce) u = ?creds @ CHR ''@'' # host" "prefix kForce u" by (simp_all add: u)
  have t: "take (length ?creds) (?creds @ CHR ''@'' # host) = ?creds"
    "drop (length ?creds + 1) (?creds @ CHR ''@'' # host) = host"
    by (simp, rule drop_past)
  have s: "take (length cid + 1 + length sec - length cid - 1) (drop (length cid + 1) ?creds) = sec"
    "take (length cid) ?creds = cid" "drop (length cid + 1 + length sec + 1) ?creds = tok"
    using drop_past [of cid "CHR '':''" "sec @ CHR '':'' # tok"] drop_past [of "cid @ CHR '':'' # sec" "CHR '':''" tok]
    by simp_all
  show ?thesis
    unfolding ParseSfdxAuthUrl_def Let_def d(1) StartsWith_eq
    using d(2) by (simp only: at t p1 p2 s option.case not_True_eq_False if_False) (auto simp: rbind_def split: sum.splits)
qed

lemma str_find_char_split: "str_find s [c] = Some i \<Longrightarrow> c \<notin> set (take i s) \<and> s = take i s @ c # drop (i + 1) s"
proof (induction s arbitrary: i)
  case Nil
  then show ?case by (simp split: if_splits)
next
  case (Cons d s)
  then show ?case by (cases i) (auto split: if_splits)
qed

lemma str_rfind_None: "str_rfind s c = None \<Longrightarrow> c \<notin> set s"
  by (induction s) (auto split: if_splits option.splits)

lemma str_rfind_split: "str_rfind s c = Some i \<Longrightarrow> c \<notin> set (drop (i + 1) s) \<and> s = take i s @ c # drop (i + 1) s"
proof (induction s arbitrary: i)
  case Nil
  then show ?case by simp
next
  case (Cons d s)
  then show ?case by (cases i) (auto dest: str_rfind_None split: if_splits option.splits)
qed

lemma ParseSfdxAuthUrl_shapeless:
  assumes "\<nexists>cid sec tok host. sfdx_shape u cid sec tok host"
  shows "ParseSfdxAuthUrl D u cfg = Inl sfdx_fail"
proof (rule ccontr)
  let ?rest = "drop (length kForce) u"
  assume "ParseSfdxAuthUrl D u cfg \<noteq> Inl sfdx_fail"
  then obtain at p1 p2 where p: "prefix kForce u" and at: "str_rfind ?rest (CHR ''@'') = Some at"
    and p1: "str_find (take at ?rest) '':'' = Some p1" and p2: "str_find_at (take at ?rest) '':'' (p1 + 1) = Some p2"
    by (auto simp: ParseSfdxAuthUrl_def Let_def StartsWith_eq split: option.splits if_splits)
  note a = str_rfind_split [OF at] and b = str_find_char_split [OF p1]
  from p2 obtain j where j: "str_find (drop (p1 + 1) (take at ?rest)) '':'' = Some j"
    by (auto simp: str_find_at_def split: option.splits if_splits)
  note c = str_find_char_split [OF j]
  from p have u: "u = kForce @ ?rest" by (auto simp: prefix_def)
  have "sfdx_shape u (take p1 (take at ?rest)) (take j (drop (p1 + 1) (take at ?rest)))
      (drop (j + 1) (drop (p1 + 1) (take at ?rest))) (drop (at + 1) ?rest)"
    unfolding sfdx_shape_def sfdx_url_def
  proof (intro conjI)
    have "take at ?rest = take p1 (take at ?rest) @ CHR '':'' #
        take j (drop (p1 + 1) (take at ?rest)) @ CHR '':'' # drop (j + 1) (drop (p1 + 1) (take at ?rest))"
      using b c by metis
    moreover have "u = kForce @ take at ?rest @ CHR ''@'' # drop (at + 1) ?rest"
      using u a by metis
    ultimately show "u = ''force://'' @ take p1 (take at ?rest) @ '':'' @ take j (drop (p1 + 1) (take at ?rest)) @ '':'' @
        drop (j + 1) (drop (p1 + 1) (take at ?rest)) @ ''@'' @ drop (at + 1) ?rest"
      unfolding kForce_def by (metis append.assoc append_Cons append_Nil)
  qed (use a b c in blast)+
  with assms show False by blast
qed

lemma ParseSfdxAuthUrl_same:
  assumes "erase c = erase c'" and "same_sfdx u u'"
  shows "same_outcome (ParseSfdxAuthUrl D u c) (ParseSfdxAuthUrl D u' c')"
  using assms(2) unfolding same_sfdx_def
proof (elim disjE exE conjE)
  fix cid sec tok host sec' tok'
  assume "sfdx_shape u cid sec tok host" "sfdx_shape u' cid sec' tok' host" "(tok = []) = (tok' = [])"
  with assms(1) show ?thesis
    by (auto simp: ParseSfdxAuthUrl_shape Let_def rbind_def split: sum.splits)
qed (simp add: ParseSfdxAuthUrl_shapeless)

lemma auth_section_same:
  assumes "same_opts D m m'" and "erase c = erase c'" and "same_context D C C'"
  shows "same_outcome (auth_section D C m c) (auth_section D C' m' c')"
proof -
  have "rel_option same_sfdx (EnvLookup D C ''SF_SFDX_AUTH_URL'') (EnvLookup D C' ''SF_SFDX_AUTH_URL'')"
    using assms(3) by (simp add: same_context_def)
  then have r: "same_outcome (rbind (RequireEnv D C ''SF_SFDX_AUTH_URL'') (\<lambda>u. ParseSfdxAuthUrl D u c))
      (rbind (RequireEnv D C' ''SF_SFDX_AUTH_URL'') (\<lambda>u. ParseSfdxAuthUrl D u c'))"
    by (auto simp: RequireEnv_def option_rel_Some1 intro: ParseSfdxAuthUrl_same [OF assms(2)] split: option.splits)
  have s: "auth_source_of D m' = auth_source_of D m"
    by (simp add: auth_source_of_def same_given_public [OF assms(1)])
  show ?thesis
    using auth_options_same [OF assms(1,2)] auth_env_same [OF assms(3,2)] auth_jwt_same [OF assms] r
    by (simp add: auth_section_def Let_def s)
qed

lemma later_sections_same:
  assumes "same_opts D m m'" and "erase c = erase c'"
  shows "same_outcome (version_section D m c) (version_section D m' c')"
    and "same_outcome (query_mode_section D m c) (query_mode_section D m' c')"
    and "same_outcome (transport_section D m c) (transport_section D m' c')"
    and "same_outcome (bulk_chunks_section D m c) (bulk_chunks_section D m' c')"
  using assms(2)
  by (auto simp: config_section_defs same_given_public [OF assms(1)] rbind_def Let_def
      split: option.splits sum.splits)

lemma ParseAndValidate_same:
  assumes "same_options D os os'" and C: "same_context D C C'"
  shows "same_outcome (ParseAndValidate D C path os) (ParseAndValidate D C' path os')"
proof -
  have "same_opts D [] []" by (simp add: same_opts_def)
  from parse_options_same [OF assms(1) this] show ?thesis
  proof (elim disjE exE conjE)
    fix e
    assume "parse_options D os [] = Inl e" "parse_options D os' [] = Inl e"
    then show ?thesis by (simp add: ParseAndValidate_def Let_def)
  next
    fix m m'
    assume p: "parse_options D os [] = Inr m" "parse_options D os' [] = Inr m'" and m: "same_opts D m m'"
    show ?thesis
      unfolding ParseAndValidate_def Let_def p rbind_simps
      by (auto simp del: map_sum.simps
          intro!: same_outcome_rbind auth_section_same [OF m _ C] later_sections_same [OF m])
  qed
qed

end

text \<open>
  C13: Parsing never reveals a secret. Change any secret at will: the client secret and the refresh token in the options or
  in the environment (given ones staying given), both inside an SFDX auth URL or the whole of a text that is
  no such URL, and the private key in its file (PEM texts staying PEM texts, encrypted or not). The outcome is the
  same: the same error with the same message, or the same configuration but for the client secret, the
  refresh token and the private key.
\<close>

theorem ParseAndValidate_secret_free:
  assumes "string_utilities D" and "same_options D os os'" and "same_context D C C'"
  shows "map_sum id erase (ParseAndValidate D C path os) = map_sum id erase (ParseAndValidate D C' path os')"
  by (rule string_utilities.ParseAndValidate_same [OF assms])

definition sfdx_context :: "string \<Rightarrow> string \<Rightarrow> client_context" where
  "sfdx_context sec key = \<lparr> TryGetCurrentSetting = (\<lambda>_. None),
     getenv = (\<lambda>n. if n = ''SF_SFDX_AUTH_URL'' then Some (sfdx_url ''app'' sec (sec @ ''t'') ''x'') else None),
     read_file = (\<lambda>p. if p = ''key.pem'' then Some (''-----BEGIN '' @ key) else None) \<rparr>"

theorem ParseAndValidate_secret_free_witness:
  "map_sum id erase (ParseAndValidate ascii_su (sfdx_context ''s1'' ''k1'') ''salesforce://prod'' (sample_options ''one'')) =
   map_sum id erase (ParseAndValidate ascii_su (sfdx_context ''s2'' ''k2'') ''salesforce://prod'' (sample_options ''two''))"
proof -
  have o: "same_options ascii_su (sample_options ''one'') (sample_options ''two'')" by code_simp
  have "sfdx_shape (sfdx_url ''app'' sec (sec @ ''t'') ''x'') ''app'' sec (sec @ ''t'') ''x''" if "CHR '':'' \<notin> set sec" for sec
    using that by (simp add: sfdx_shape_def)
  then have u: "same_sfdx (sfdx_url ''app'' ''s1'' (''s1'' @ ''t'') ''x'') (sfdx_url ''app'' ''s2'' (''s2'' @ ''t'') ''x'')"
    unfolding same_sfdx_def by (intro disjI1 exI [of _ "''app''"] exI [of _ "''s1''"] exI [of _ "''s1t''"] exI [of _ "''x''"]
      exI [of _ "''s2''"] exI [of _ "''s2t''"]) (simp add: sfdx_shape_def)
  have k: "same_key (''-----BEGIN '' @ ''k1'') (''-----BEGIN '' @ ''k2'')" unfolding same_key_def by code_simp
  have c: "same_context ascii_su (sfdx_context ''s1'' ''k1'') (sfdx_context ''s2'' ''k2'')"
    using u k by (simp add: same_context_def sfdx_context_def EnvLookup_def os_env_def secret_variables_def sfdx_url_def)
  show ?thesis by (rule ParseAndValidate_secret_free [OF ascii.string_utilities_axioms o c])
qed

end
