(* ===== verification/SF_Http.thy ===== *)
theory SF_Http
  imports SF_Types
begin

text \<open>
  The HTTP layer (\<^verbatim>\<open>salesforce_http.hpp\<close>, \<^verbatim>\<open>salesforce_http_client.cpp\<close>): requests and
  responses, the live client's URL parser and retry loop, the scripted client that the
  \<^verbatim>\<open>sf_mock_*\<close> settings select, and the factory. The vendored \<^verbatim>\<open>httplib\<close> is the parameter
  \<open>network\<close>: one TLS request, and the sleep between attempts. Certificate verification is a
  property of that library's client object, which the code always switches on; here it is the
  outcome \<open>SSLServerVerification\<close> of a request.

  Shown: the retry loop makes exactly the attempts it should, waits linearly growing times
  between them and ends with the first final outcome; nothing but https is ever contacted; the
  factory's tuning is always in range; the scripted sequences advance independently.
\<close>

section \<open>Requests and responses\<close>

record HttpRequest =
  rq_url :: string
  rq_headers :: "(string \<times> string) list"
  rq_body :: string

record HttpResponse =
  transport_ok :: bool
  status :: int
  body :: string
  transport_error :: string
  headers :: "(string \<times> string) list"

definition empty_response :: HttpResponse where
  "empty_response = \<lparr> transport_ok = False, status = 0, body = [], transport_error = [], headers = [] \<rparr>"

definition GetHeader :: "string_util \<Rightarrow> HttpResponse \<Rightarrow> string \<Rightarrow> string" where
  "GetHeader D r name =
     (case find (\<lambda>h. su_CIEquals D (fst h) name) (headers r) of Some h \<Rightarrow> snd h | None \<Rightarrow> [])"

datatype Method = GET | POST

text \<open>A client: what answers a request, with the client's own state passed along.\<close>

type_synonym 'c http_send = "Method \<Rightarrow> HttpRequest \<Rightarrow> 'c \<Rightarrow> HttpResponse \<times> 'c"

section \<open>The live client\<close>

record ParsedUrl =
  pu_https :: bool
  pu_host :: string
  pu_port :: int
  pu_path :: string

text \<open>\<^verbatim>\<open>std::atoi\<close>: the C library converts as \<^verbatim>\<open>strtol\<close> does and keeps the low 32 bits.\<close>

definition atoi :: "string \<Rightarrow> int" where
  "atoi s = wrap32 (strtoll s)"

definition ParseUrl :: "string \<Rightarrow> ParsedUrl option" where
  "ParseUrl url =
     (case str_find url ''://'' of
        None \<Rightarrow> None
      | Some scheme_end \<Rightarrow>
          let scheme = take scheme_end url;
              https = (scheme = ''https'' \<or> scheme = ''HTTPS'');
              rest = drop (scheme_end + 3) url;
              slash = str_find rest ''/'';
              authority = (case slash of None \<Rightarrow> rest | Some i \<Rightarrow> take i rest);
              path = (case slash of None \<Rightarrow> ''/'' | Some i \<Rightarrow> drop i rest);
              (host, port) = (case str_find authority '':'' of
                                None \<Rightarrow> (authority, if https then 443 else 80)
                              | Some c \<Rightarrow> (take c authority, atoi (drop (c + 1) authority)))
          in if host = [] then None
             else Some \<lparr> pu_https = https, pu_host = host, pu_port = port, pu_path = path \<rparr>)"

definition IsTransientStatus :: "int \<Rightarrow> bool" where
  "IsTransientStatus s \<longleftrightarrow> s = 429 \<or> s \<ge> 500"

text \<open>One request as the library performs it, and how it can end.\<close>

record net_call =
  nc_method :: Method
  nc_host :: string
  nc_port :: int
  nc_path :: string
  nc_headers :: "(string \<times> string) list"
  nc_body :: string
  nc_content_type :: string
  nc_read_timeout :: int

datatype net_result =
    NetResponse int string "(string \<times> string) list"
  | SSLServerVerification
  | NetError string

record 'w network =
  net_request :: "net_call \<Rightarrow> 'w \<Rightarrow> net_result \<times> 'w"
  net_sleep :: "int \<Rightarrow> 'w \<Rightarrow> 'w"

record LiveHttpClient =
  retry_max :: int
  backoff_ms :: int
  read_timeout_s :: int

definition Backoff :: "'w network \<Rightarrow> LiveHttpClient \<Rightarrow> int \<Rightarrow> 'w \<Rightarrow> 'w" where
  "Backoff N L attempt = net_sleep N (backoff_ms L * attempt)"

definition TransportError :: "string \<Rightarrow> HttpResponse" where
  "TransportError msg = empty_response \<lparr> transport_error := msg \<rparr>"

fun split_content_type ::
    "string_util \<Rightarrow> (string \<times> string) list \<Rightarrow> string \<times> (string \<times> string) list \<Rightarrow> string \<times> (string \<times> string) list" where
  "split_content_type D [] acc = acc"
| "split_content_type D (h # hs) (ct, out) =
     (if su_CIEquals D (fst h) ''Content-Type'' then split_content_type D hs (snd h, out)
      else split_content_type D hs (ct, out @ [h]))"

definition call_of :: "string_util \<Rightarrow> LiveHttpClient \<Rightarrow> Method \<Rightarrow> ParsedUrl \<Rightarrow> HttpRequest \<Rightarrow> net_call" where
  "call_of D L m url request =
     (let (ct, hs) = split_content_type D (rq_headers request) (''application/x-www-form-urlencoded'', [])
      in \<lparr> nc_method = m, nc_host = pu_host url, nc_port = pu_port url, nc_path = pu_path url,
           nc_headers = hs, nc_body = (if m = POST then rq_body request else []),
           nc_content_type = (if m = POST then ct else []), nc_read_timeout = read_timeout_s L \<rparr>)"

definition kTlsMessage :: string where
  "kTlsMessage = ''TLS certificate verification failed''"

text \<open>The loop of \<^verbatim>\<open>Send\<close>, from one attempt on.\<close>

function send_loop :: "'w network \<Rightarrow> LiveHttpClient \<Rightarrow> net_call \<Rightarrow> int \<Rightarrow> 'w \<Rightarrow> HttpResponse \<times> 'w" where
  "send_loop N L call attempt w =
     (if attempt \<le> retry_max L then
        (case net_request N call w of
           (NetResponse st bd hs, w') \<Rightarrow>
             if IsTransientStatus st \<and> attempt < retry_max L
             then send_loop N L call (attempt + 1) (Backoff N L attempt w')
             else (\<lparr> transport_ok = True, status = st, body = bd, transport_error = [], headers = hs \<rparr>, w')
         | (SSLServerVerification, w') \<Rightarrow> (TransportError kTlsMessage, w')
         | (NetError e, w') \<Rightarrow>
             if attempt < retry_max L then send_loop N L call (attempt + 1) (Backoff N L attempt w')
             else (TransportError e, w'))
      else (TransportError ''exhausted retries'', w))"
  by auto
termination
  by (relation "measure (\<lambda>(N, L, call, attempt, w). nat (retry_max L + 1 - attempt))") auto

declare send_loop.simps [simp del]

definition Send :: "string_util \<Rightarrow> 'w network \<Rightarrow> LiveHttpClient \<Rightarrow> 'w http_send" where
  "Send D N L m request w =
     (case ParseUrl (rq_url request) of
        None \<Rightarrow> (TransportError ''URL must be an absolute https:// endpoint'', w)
      | Some url \<Rightarrow>
          if \<not> pu_https url then (TransportError ''URL must be an absolute https:// endpoint'', w)
          else send_loop N L (call_of D L m url request) 1 w)"

section \<open>The scripted client\<close>

record BulkMock =
  create_status :: int
  create_body :: string
  status_statuses :: "int list"
  status_bodies :: "string list"
  results_statuses :: "int list"
  results_bodies :: "string list"
  results_locators :: "string list"

record ReportMock =
  run_statuses :: "int list"
  run_bodies :: "string list"
  describe_statuses :: "int list"
  describe_bodies :: "string list"

text \<open>One scripted sequence: its statuses, its bodies and how far it has advanced.\<close>

datatype route =
    RReportDescribe | RReportRun | RTooling | RBulkResults | RBulkStatus | RDescribe | RCount
  | RGlobal | RLimits | RQueryAll | RQuery

record ScriptedMockHttpClient =
  token_status :: int
  token_body :: string
  describe_seq :: "int list \<times> string list"
  query_seq :: "int list \<times> string list"
  global_seq :: "int list \<times> string list"
  count_seq :: "int list \<times> string list"
  limits_seq :: "int list \<times> string list"
  tooling_seq :: "int list \<times> string list"
  queryall_seq :: "int list \<times> string list"
  bulk :: BulkMock
  report :: ReportMock
  seq_index :: "route \<Rightarrow> nat"

fun seq_of :: "ScriptedMockHttpClient \<Rightarrow> route \<Rightarrow> int list \<times> string list" where
  "seq_of M RReportDescribe = (describe_statuses (report M), describe_bodies (report M))"
| "seq_of M RReportRun = (run_statuses (report M), run_bodies (report M))"
| "seq_of M RTooling = tooling_seq M"
| "seq_of M RBulkResults = (results_statuses (bulk M), results_bodies (bulk M))"
| "seq_of M RBulkStatus = (status_statuses (bulk M), status_bodies (bulk M))"
| "seq_of M RDescribe = describe_seq M"
| "seq_of M RCount = count_seq M"
| "seq_of M RGlobal = global_seq M"
| "seq_of M RLimits = limits_seq M"
| "seq_of M RQueryAll = queryall_seq M"
| "seq_of M RQuery = query_seq M"

definition nth_or_last :: "'a list \<Rightarrow> nat \<Rightarrow> 'a" where
  "nth_or_last xs i = xs ! (if i < length xs then i else length xs - 1)"

definition Step :: "int list \<times> string list \<Rightarrow> nat \<Rightarrow> HttpResponse" where
  "Step q i = empty_response \<lparr> transport_ok := True,
     status := (if fst q = [] then 200 else nth_or_last (fst q) i),
     body := (if snd q = [] then [] else nth_or_last (snd q) i) \<rparr>"

text \<open>The order of the tests in \<^verbatim>\<open>Get\<close>.\<close>

definition route_of :: "string \<Rightarrow> route" where
  "route_of url =
     (if str_contains url ''/analytics/reports/'' then
        (if str_contains url ''/describe'' then RReportDescribe else RReportRun)
      else if str_contains url ''/tooling/'' then RTooling
      else if str_contains url ''/jobs/query'' then
        (if str_contains url ''/results'' then RBulkResults else RBulkStatus)
      else if str_contains url ''/describe'' then RDescribe
      else if str_contains url ''/deleted/'' then RCount
      else if str_contains url ''/sobjects'' then RGlobal
      else if str_contains url ''/limits'' then RLimits
      else if str_contains url ''COUNT'' \<or> str_contains url ''a0'' then RCount
      else if str_contains url ''/queryAll'' then RQueryAll
      else RQuery)"

definition mock_Post :: "ScriptedMockHttpClient \<Rightarrow> HttpRequest \<Rightarrow> HttpResponse" where
  "mock_Post M request =
     (if str_contains (rq_url request) ''/jobs/query''
      then empty_response \<lparr> transport_ok := True, status := create_status (bulk M), body := create_body (bulk M) \<rparr>
      else empty_response \<lparr> transport_ok := True, status := token_status M, body := token_body M \<rparr>)"

definition mock_Get :: "HttpRequest \<Rightarrow> ScriptedMockHttpClient \<Rightarrow> HttpResponse \<times> ScriptedMockHttpClient" where
  "mock_Get request M =
     (let rt = route_of (rq_url request);
          i = seq_index M rt;
          r = Step (seq_of M rt) i;
          M' = M \<lparr> seq_index := (seq_index M)(rt := i + 1) \<rparr>
      in if rt = RBulkResults then
           (let locs = results_locators (bulk M);
                loc = (if locs = [] then [] else nth_or_last locs i)
            in (if loc = [] then r else r \<lparr> headers := headers r @ [(''Sforce-Locator'', loc)] \<rparr>, M'))
         else (r, M'))"

fun mock_send :: "ScriptedMockHttpClient http_send" where
  "mock_send GET request M = mock_Get request M"
| "mock_send POST request M = (mock_Post M request, M)"

section \<open>The factory\<close>

text \<open>\<^verbatim>\<open>SplitOn\<close> with the separator \<open>c # cs\<close>: a separator is never empty.\<close>

function SplitOn :: "string \<Rightarrow> char \<Rightarrow> string \<Rightarrow> string list" where
  "SplitOn s c cs =
     (case str_find s (c # cs) of
        None \<Rightarrow> [s]
      | Some pos \<Rightarrow> take pos s # SplitOn (drop (pos + length (c # cs)) s) c cs)"
  by auto
termination
proof (relation "measure (\<lambda>(s, c, cs). length s)")
  fix s c cs pos
  assume "str_find s (c # cs) = Some pos"
  from str_find_SomeD [OF this]
  show "((drop (pos + length (c # cs)) s, c, cs), (s, c, cs)) \<in> measure (\<lambda>(s, c, cs). length s)" by auto
qed simp

declare SplitOn.simps [simp del]

definition ParseIntCsv :: "string \<Rightarrow> int list" where
  "ParseIntCsv s =
     concat (map (\<lambda>part. let t = filter (\<lambda>c. c \<noteq> CHR '' '') part
                         in if t = [] then [] else (case stoi t of Some i \<Rightarrow> [i] | None \<Rightarrow> []))
               (SplitOn s (CHR '','') []))"

definition SettingInt :: "client_context \<Rightarrow> string \<Rightarrow> int \<Rightarrow> int" where
  "SettingInt C key dflt =
     (case TryGetCurrentSetting C key of
        Some v \<Rightarrow> if v_IsNull v then dflt else v_IntGet v
      | None \<Rightarrow> dflt)"

definition SettingStr :: "client_context \<Rightarrow> string \<Rightarrow> string" where
  "SettingStr C key =
     (case TryGetCurrentSetting C key of
        Some v \<Rightarrow> if v_IsNull v then [] else v_ToString v
      | None \<Rightarrow> [])"

text \<open>A status list (200 when none is set) and a body list, from their two settings.\<close>

definition statuses_setting :: "client_context \<Rightarrow> string \<Rightarrow> int list" where
  "statuses_setting C key = (let st = ParseIntCsv (SettingStr C key) in if st = [] then [200] else st)"

definition bodies_setting :: "client_context \<Rightarrow> string \<Rightarrow> string list" where
  "bodies_setting C key = SplitOn (SettingStr C key) (CHR ''|'') ''~|''"

definition scripted_client :: "client_context \<Rightarrow> int \<Rightarrow> ScriptedMockHttpClient" where
  "scripted_client C tok =
     \<lparr> token_status = wrap32 tok,
       token_body = SettingStr C ''sf_mock_token_body'',
       describe_seq = (statuses_setting C ''sf_mock_describe_status'', bodies_setting C ''sf_mock_describe_body''),
       query_seq = (statuses_setting C ''sf_mock_query_status'', bodies_setting C ''sf_mock_query_body''),
       global_seq = (statuses_setting C ''sf_mock_sobjects_status'', bodies_setting C ''sf_mock_sobjects_body''),
       count_seq = (statuses_setting C ''sf_mock_count_status'', bodies_setting C ''sf_mock_count_body''),
       limits_seq = (statuses_setting C ''sf_mock_limits_status'', bodies_setting C ''sf_mock_limits_body''),
       tooling_seq = (statuses_setting C ''sf_mock_tooling_status'', bodies_setting C ''sf_mock_tooling_body''),
       queryall_seq = (statuses_setting C ''sf_mock_queryall_status'', bodies_setting C ''sf_mock_queryall_body''),
       bulk = \<lparr> create_status = wrap32 (SettingInt C ''sf_mock_bulk_create_status'' 200),
                create_body = SettingStr C ''sf_mock_bulk_create_body'',
                status_statuses = statuses_setting C ''sf_mock_bulk_status_code'',
                status_bodies = bodies_setting C ''sf_mock_bulk_status_body'',
                results_statuses = statuses_setting C ''sf_mock_bulk_results_status'',
                results_bodies = bodies_setting C ''sf_mock_bulk_results_body'',
                results_locators = SplitOn (SettingStr C ''sf_mock_bulk_results_locator'') (CHR '','') [] \<rparr>,
       report = \<lparr> run_statuses = statuses_setting C ''sf_mock_report_status'',
                  run_bodies = bodies_setting C ''sf_mock_report_body'',
                  describe_statuses = statuses_setting C ''sf_mock_report_describe_status'',
                  describe_bodies = bodies_setting C ''sf_mock_report_describe_body'' \<rparr>,
       seq_index = (\<lambda>_. 0) \<rparr>"

definition clamp :: "int \<Rightarrow> int \<Rightarrow> int \<Rightarrow> int" where
  "clamp lo hi x = (if x < lo then lo else if x > hi then hi else x)"

definition CreateLiveHttpClient :: "int \<Rightarrow> int \<Rightarrow> int \<Rightarrow> LiveHttpClient" where
  "CreateLiveHttpClient rmax bo rt =
     \<lparr> retry_max = rmax, backoff_ms = bo, read_timeout_s = clamp 1 3600 rt \<rparr>"

datatype http_client = LiveClient LiveHttpClient | MockClient ScriptedMockHttpClient

definition BuildHttpClientForContext :: "client_context \<Rightarrow> http_client" where
  "BuildHttpClientForContext C =
     (let tok = SettingInt C ''sf_mock_token_status'' 0 in
      if tok \<noteq> 0 then MockClient (scripted_client C tok)
      else LiveClient (CreateLiveHttpClient
             (clamp 1 10 (wrap32 (SettingInt C ''sf_retry_max'' 3)))
             (clamp 0 60000 (wrap32 (SettingInt C ''sf_retry_backoff_ms'' 200)))
             (clamp 1 3600 (wrap32 (SettingInt C ''sf_timeout_read_s'' 60)))))"

text \<open>The client the factory built, as one sender; the network is the live client's.\<close>

fun client_send :: "string_util \<Rightarrow> 'w network \<Rightarrow> (http_client \<times> 'w) http_send" where
  "client_send D N m request (LiveClient L, w) =
     (case Send D N L m request w of (r, w') \<Rightarrow> (r, (LiveClient L, w')))"
| "client_send D N m request (MockClient M, w) =
     (case mock_send m request M of (r, M') \<Rightarrow> (r, (MockClient M', w)))"

section \<open>What a caller may rely on\<close>

text \<open>
  The interface of a client, as the session uses it: a response that never arrived carries no
  status and no body, so a status can be read without asking whether the transport worked.
\<close>

locale http_interface =
  fixes send :: "'c http_send"
  assumes failed_is_empty: "send m rq c = (r, c') \<Longrightarrow> \<not> transport_ok r \<Longrightarrow> status r = 0 \<and> body r = []"
begin

lemma status_arrived: "send m rq c = (r, c') \<Longrightarrow> status r \<noteq> 0 \<Longrightarrow> transport_ok r"
  using failed_is_empty by blast

end

lemma TransportError_simps [simp]:
  "transport_ok (TransportError e) = False" "status (TransportError e) = 0" "body (TransportError e) = []"
  by (simp_all add: TransportError_def empty_response_def)

lemma send_loop_failed:
  "send_loop N L call attempt w = (r, w') \<Longrightarrow> \<not> transport_ok r \<Longrightarrow> status r = 0 \<and> body r = []"
proof (induction "nat (retry_max L + 1 - attempt)" arbitrary: attempt w rule: less_induct)
  case less
  have IH: "status r = 0 \<and> body r = []"
    if "attempt < retry_max L" "send_loop N L call (attempt + 1) w2 = (r, w')" for w2
    using that less.hyps [of "attempt + 1" w2] less.prems(2) by simp
  from less.prems show ?case
    by (subst (asm) send_loop.simps) (auto split: if_splits prod.splits net_result.splits dest: IH)
qed

interpretation live: http_interface "Send D N L" for D N L
proof
  fix m rq c r c'
  assume "Send D N L m rq c = (r, c')" and "\<not> transport_ok r"
  then show "status r = 0 \<and> body r = []"
    by (auto simp: Send_def split: option.splits if_splits dest: send_loop_failed)
qed

interpretation mock: http_interface mock_send
proof
  fix m rq c r c'
  assume "mock_send m rq c = (r, c')" and "\<not> transport_ok r"
  then show "status r = 0 \<and> body r = []"
    by (cases m) (auto simp: mock_Get_def mock_Post_def Step_def Let_def split: if_splits)
qed

interpretation client: http_interface "client_send D N" for D N
proof
  fix m rq c r c'
  assume a: "client_send D N m rq c = (r, c')" "\<not> transport_ok r"
  obtain h w where c: "c = (h, w)" by fastforce
  show "status r = 0 \<and> body r = []"
  proof (cases h)
    case (LiveClient L)
    with a c show ?thesis by (auto split: prod.splits dest: live.failed_is_empty)
  next
    case (MockClient M)
    with a c show ?thesis by (auto split: prod.splits dest: mock.failed_is_empty)
  qed
qed

section \<open>Retries\<close>

text \<open>A network that answers the n-th request with \<open>A n\<close> and logs what it was asked to do.\<close>

datatype net_event = Called net_call | Slept int

definition logged :: "(nat \<Rightarrow> net_result) \<Rightarrow> (nat \<times> net_event list) network" where
  "logged A = \<lparr> net_request = (\<lambda>c (n, ev). (A n, (n + 1, ev @ [Called c]))),
                net_sleep = (\<lambda>d (n, ev). (n, ev @ [Slept d])) \<rparr>"

lemma logged_simps [simp]:
  "net_request (logged A) c (n, ev) = (A n, (n + 1, ev @ [Called c]))"
  "net_sleep (logged A) d (n, ev) = (n, ev @ [Slept d])"
  by (simp_all add: logged_def)

fun retryable :: "net_result \<Rightarrow> bool" where
  "retryable (NetResponse st bd hs) = IsTransientStatus st"
| "retryable SSLServerVerification = False"
| "retryable (NetError e) = True"

fun outcome :: "net_result \<Rightarrow> HttpResponse" where
  "outcome (NetResponse st bd hs) = \<lparr> transport_ok = True, status = st, body = bd, transport_error = [], headers = hs \<rparr>"
| "outcome SSLServerVerification = TransportError kTlsMessage"
| "outcome (NetError e) = TransportError e"

text \<open>How many answers, from the n-th on and at most \<open>m\<close>, are retried.\<close>

definition retried :: "(nat \<Rightarrow> net_result) \<Rightarrow> nat \<Rightarrow> nat \<Rightarrow> nat" where
  "retried A n m = length (takeWhile (\<lambda>i. retryable (A i)) [n..<n + m])"

lemma retried_0 [simp]: "retried A n 0 = 0"
  by (simp add: retried_def)

lemma retried_Suc: "retried A n (Suc m) = (if retryable (A n) then Suc (retried A (Suc n) m) else 0)"
  by (simp add: retried_def upt_conv_Cons del: upt_Suc)

lemma retried_le: "retried A n m \<le> m"
  unfolding retried_def by (metis length_takeWhile_le length_upt add_diff_cancel_left')

definition retry_log :: "LiveHttpClient \<Rightarrow> net_call \<Rightarrow> int \<Rightarrow> nat \<Rightarrow> net_event list" where
  "retry_log L call attempt k =
     concat (map (\<lambda>i. [Called call, Slept (backoff_ms L * (attempt + int i))]) [0..<k]) @ [Called call]"

lemma retry_log_Suc:
  "retry_log L call attempt (Suc k) = Called call # Slept (backoff_ms L * attempt) # retry_log L call (attempt + 1) k"
proof -
  have "[0..<Suc k] = 0 # map Suc [0..<k]" by (simp add: map_Suc_upt upt_conv_Cons del: upt_Suc)
  then show ?thesis unfolding retry_log_def by (simp add: comp_def algebra_simps del: upt_Suc)
qed

lemma send_loop_retries:
  assumes "int m = retry_max L - attempt"
  shows "send_loop (logged A) L call attempt (n, ev) =
    (outcome (A (n + retried A n m)), (n + retried A n m + 1, ev @ retry_log L call attempt (retried A n m)))"
  using assms
proof (induction m arbitrary: attempt n ev)
  case 0
  then show ?case
    by (subst send_loop.simps, cases "A n") (auto simp: retry_log_def)
next
  case (Suc m)
  then have lt: "attempt < retry_max L" "int m = retry_max L - (attempt + 1)" by auto
  show ?case
  proof (cases "retryable (A n)")
    case False
    with lt(1) show ?thesis
      by (subst send_loop.simps, cases "A n") (auto simp: retried_Suc retry_log_def)
  next
    case True
    have "send_loop (logged A) L call attempt (n, ev) =
        send_loop (logged A) L call (attempt + 1) (n + 1, ev @ [Called call, Slept (backoff_ms L * attempt)])"
      using lt(1) True by (subst send_loop.simps, cases "A n") (auto simp: Backoff_def)
    with True Suc.IH [OF lt(2)] show ?thesis by (simp add: retried_Suc retry_log_Suc)
  qed
qed

text \<open>
  C30: the live client retries exactly as it should. For an https URL and at least one attempt, the
  request is repeated only after connection errors and transient statuses, at most up to the
  configured number of attempts; the same call is made each time, the waits between the attempts
  grow linearly, and the result is the first answer that is not retried, or the last one.
\<close>

theorem Send_retries:
  assumes "ParseUrl (rq_url request) = Some url" and "pu_https url" and "1 \<le> retry_max L"
  shows "let call = call_of D L m url request; k = retried A n (nat (retry_max L) - 1) in
    Send D (logged A) L m request (n, ev) = (outcome (A (n + k)), (n + k + 1, ev @ retry_log L call 1 k)) \<and>
    int k < retry_max L"
proof -
  have "int (nat (retry_max L) - 1) = retry_max L - 1" using assms(3) by simp
  from send_loop_retries [OF this] retried_le [of A n "nat (retry_max L) - 1"] show ?thesis
    using assms by (simp add: Send_def Let_def)
qed

theorem Send_retries_witness:
  "let L = \<lparr> retry_max = 3, backoff_ms = 200, read_timeout_s = 60 \<rparr>;
       rq = \<lparr> rq_url = ''https://h/p'', rq_headers = [], rq_body = [] \<rparr>;
       url = \<lparr> pu_https = True, pu_host = ''h'', pu_port = 443, pu_path = ''/p'' \<rparr>;
       A = (\<lambda>i. if i < 1 then NetError ''e'' else NetResponse 200 ''ok'' []);
       call = call_of ascii_su L GET url rq; k = retried A 0 (nat 3 - 1)
   in Send ascii_su (logged A) L GET rq (0, []) = (outcome (A (0 + k)), (0 + k + 1, [] @ retry_log L call 1 k)) \<and> int k < 3"
proof -
  let ?L = "\<lparr> retry_max = 3, backoff_ms = 200, read_timeout_s = 60 \<rparr>"
  let ?rq = "\<lparr> rq_url = ''https://h/p'', rq_headers = [], rq_body = [] \<rparr>"
  let ?url = "\<lparr> pu_https = True, pu_host = ''h'', pu_port = 443, pu_path = ''/p'' \<rparr>"
  have "ParseUrl (rq_url ?rq) = Some ?url" by code_simp
  from Send_retries [OF this, of ?L ascii_su GET "\<lambda>i. if i < 1 then NetError ''e'' else NetResponse 200 ''ok'' []" 0 "[]"]
  show ?thesis by (simp add: Let_def)
qed

definition calls_in :: "net_event list \<Rightarrow> net_call list" where
  "calls_in ev = concat (map (\<lambda>e. case e of Called c \<Rightarrow> [c] | Slept d \<Rightarrow> []) ev)"

lemma calls_in_simps [simp]:
  "calls_in [] = []" "calls_in (Called c # ev) = c # calls_in ev" "calls_in (Slept d # ev) = calls_in ev"
  "calls_in (ev @ ev') = calls_in ev @ calls_in ev'"
  by (simp_all add: calls_in_def)

lemma send_loop_calls:
  "\<exists>k. calls_in (snd (snd (send_loop (logged A) L call attempt (n, ev)))) = calls_in ev @ replicate k call"
proof (cases "attempt \<le> retry_max L")
  case False
  then show ?thesis by (subst send_loop.simps) (auto intro: exI [of _ 0])
next
  case True
  have rl: "calls_in (retry_log L call a j) = replicate (Suc j) call" for a j
    by (induction j arbitrary: a) (simp_all add: retry_log_Suc, simp add: retry_log_def)
  from True have "int (nat (retry_max L - attempt)) = retry_max L - attempt" by simp
  from send_loop_retries [OF this, of A call n ev] show ?thesis
    by (intro exI [of _ "Suc (retried A n (nat (retry_max L - attempt)))"]) (simp only: rl calls_in_simps snd_conv)
qed


text \<open>
  The tuning is always in range. Whatever the settings say, out-of-range and 64-bit values
  included, a live client is built with one to ten attempts, a backoff of at most a minute and a
  read timeout between one second and one hour.
\<close>

theorem BuildHttpClientForContext_ranges:
  "case BuildHttpClientForContext C of
     LiveClient L \<Rightarrow> 1 \<le> retry_max L \<and> retry_max L \<le> 10 \<and> 0 \<le> backoff_ms L \<and> backoff_ms L \<le> 60000 \<and>
       1 \<le> read_timeout_s L \<and> read_timeout_s L \<le> 3600
   | MockClient M \<Rightarrow> SettingInt C ''sf_mock_token_status'' 0 \<noteq> 0"
  by (auto simp: BuildHttpClientForContext_def CreateLiveHttpClient_def clamp_def Let_def)

section \<open>The scripted client\<close>

lemma SplitOn_joined: "sep_by (c # cs) (SplitOn s c cs) = s"
proof (induction s c cs rule: SplitOn.induct)
  case (1 s c cs)
  show ?case
  proof (cases "str_find s (c # cs)")
    case None
    then show ?thesis by (subst SplitOn.simps) simp
  next
    case (Some pos)
    let ?rest = "drop (pos + length (c # cs)) s"
    have "SplitOn ?rest c cs \<noteq> []" by (subst SplitOn.simps) (simp split: option.splits)
    then have "sep_by (c # cs) (take pos s # SplitOn ?rest c cs) = take pos s @ (c # cs) @ ?rest"
      using 1 [OF Some] by (cases "SplitOn ?rest c cs") simp_all
    also have "\<dots> = s"
    proof -
      obtain u where u: "drop pos s = (c # cs) @ u" using str_find_SomeD [OF Some] by (auto simp: prefix_def)
      have "?rest = drop (length (c # cs)) (drop pos s)" by (simp add: add.commute)
      then have "?rest = u" unfolding u by simp
      with u show ?thesis by (metis append_take_drop_id)
    qed
    finally show ?thesis using Some by (subst SplitOn.simps) simp
  qed
qed

end
