(* ===== verification/SF_Codec.thy ===== *)
theory SF_Codec
  imports SF_Prelude
begin

text \<open>
  The byte-level encodings: percent-encoding of URL components
  (\<^verbatim>\<open>salesforce_url.hpp\<close>) and of form bodies (\<^verbatim>\<open>FormEncode\<close> of \<^verbatim>\<open>salesforce_auth.cpp\<close>),
  base64url of the JWT assertion (\<^verbatim>\<open>salesforce_auth.cpp\<close>), base64 decoding of blob cells
  (\<^verbatim>\<open>salesforce_value.cpp\<close>), and the redaction of secrets (\<^verbatim>\<open>salesforce_mask.hpp\<close>).
  Each encoder is shown to be inverted by the decoder of its standard, and redaction to
  leave no occurrence of a secret that is no part of the mask itself.
\<close>

section \<open>Percent-encoding\<close>

definition unreserved :: "char \<Rightarrow> bool" where
  "unreserved c \<longleftrightarrow> isalnum c \<or> c = CHR ''-'' \<or> c = CHR ''_'' \<or> c = CHR ''.'' \<or> c = CHR ''~''"

definition hex_digits :: string where
  "hex_digits = ''0123456789ABCDEF''"

definition pct_char :: "char \<Rightarrow> string" where
  "pct_char c =
     (if unreserved c then [c]
      else [CHR ''%'', hex_digits ! (code_of c div 16), hex_digits ! (code_of c mod 16)])"

definition UrlEncodeComponent :: "string \<Rightarrow> string" where
  "UrlEncodeComponent s = concat (map pct_char s)"

definition FormEncode :: "string \<Rightarrow> string" where
  "FormEncode s = concat (map pct_char s)"

text \<open>The position of a character in an alphabet: the tables of the code, read backwards.\<close>

fun index_in :: "string \<Rightarrow> char \<Rightarrow> nat option" where
  "index_in [] c = None"
| "index_in (a # as) c = (if a = c then Some 0 else map_option Suc (index_in as c))"

lemma index_in_nth: "distinct al \<Longrightarrow> i < length al \<Longrightarrow> index_in al (al ! i) = Some i"
proof (induction al arbitrary: i)
  case Nil
  then show ?case by simp
next
  case (Cons a al)
  then show ?case by (cases i) auto
qed

text \<open>RFC 3986 decoding, the reader on the other side of the wire.\<close>

fun pct_decode :: "string \<Rightarrow> string option" where
  "pct_decode [] = Some []"
| "pct_decode (c # s) =
     (if c = CHR ''%'' then
        (case s of
           h # l # r \<Rightarrow>
             (case (index_in hex_digits h, index_in hex_digits l) of
                (Some a, Some b) \<Rightarrow> map_option ((#) (char_of (16 * a + b))) (pct_decode r)
              | _ \<Rightarrow> None)
         | _ \<Rightarrow> None)
      else map_option ((#) c) (pct_decode s))"

lemma distinct_hex_digits: "distinct hex_digits" "length hex_digits = 16"
  by (simp_all add: hex_digits_def)

lemma pct_decode_char:
  "pct_decode (pct_char c @ r) = map_option ((#) c) (pct_decode r)"
proof (cases "unreserved c")
  case True
  then have "c \<noteq> CHR ''%''" by (auto simp: unreserved_def isalnum_def isdigit_def isupper_def islower_def)
  with True show ?thesis by (simp add: pct_char_def)
next
  case False
  have "code_of c div 16 < 16" "code_of c mod 16 < 16"
    using code_of_less [of c] by (simp_all add: less_mult_imp_div_less)
  with False show ?thesis
    by (simp add: pct_char_def index_in_nth distinct_hex_digits)
qed

lemma pct_decode_encode: "pct_decode (concat (map pct_char s)) = Some s"
  by (induction s) (simp_all add: pct_decode_char)

lemma hex_digits_alnum: "i < 16 \<Longrightarrow> isalnum (hex_digits ! i)"
proof -
  have "list_all isalnum hex_digits"
    by (simp add: hex_digits_def isalnum_def isdigit_def isupper_def islower_def)
  then show "i < 16 \<Longrightarrow> ?thesis" by (simp add: list_all_length distinct_hex_digits)
qed

lemma pct_char_safe: "c \<in> set (pct_char d) \<Longrightarrow> unreserved c \<or> c = CHR ''%''"
  using code_of_less [of d] hex_digits_alnum [of "code_of d div 16"] hex_digits_alnum [of "code_of d mod 16"]
  by (auto simp: pct_char_def unreserved_def less_mult_imp_div_less split: if_splits)


section \<open>Base64\<close>

definition b64url_alphabet :: string where
  "b64url_alphabet = ''ABCDEFGHIJKLMNOPQRSTUVWXYZabcdefghijklmnopqrstuvwxyz0123456789-_''"

definition b64_alphabet :: string where
  "b64_alphabet = ''ABCDEFGHIJKLMNOPQRSTUVWXYZabcdefghijklmnopqrstuvwxyz0123456789+/''"

text \<open>
  \<^verbatim>\<open>Base64Url\<close>: three bytes give four characters; one or two trailing bytes give two or three
  characters and no padding. The 24-bit group never leaves \<^verbatim>\<open>uint32_t\<close>.
\<close>

definition b64_sym :: "nat \<Rightarrow> nat \<Rightarrow> char" where
  "b64_sym n shift = b64url_alphabet ! ((n div 2 ^ shift) mod 64)"

fun Base64Url :: "string \<Rightarrow> string" where
  "Base64Url (a # b # c # r) =
     (let n = code_of a * 65536 + code_of b * 256 + code_of c
      in [b64_sym n 18, b64_sym n 12, b64_sym n 6, b64_sym n 0] @ Base64Url r)"
| "Base64Url [a, b] =
     (let n = code_of a * 65536 + code_of b * 256 in [b64_sym n 18, b64_sym n 12, b64_sym n 6])"
| "Base64Url [a] = (let n = code_of a * 65536 in [b64_sym n 18, b64_sym n 12])"
| "Base64Url [] = []"

text \<open>
  \<^verbatim>\<open>DecodeBase64\<close>: the accumulator is a 32-bit \<^verbatim>\<open>int\<close> that is shifted left without ever being
  masked, so it wraps after six characters; the shift right is arithmetic. \<^term>\<open>None\<close> is the
  exception on a character outside the alphabet.
\<close>

definition b64_skipped :: "char \<Rightarrow> bool" where
  "b64_skipped c \<longleftrightarrow> c = CHR ''='' \<or> c = LF \<or> c = CR \<or> c = CHR '' ''"

fun b64_loop :: "int \<Rightarrow> int \<Rightarrow> string \<Rightarrow> string option" where
  "b64_loop val bits [] = Some []"
| "b64_loop val bits (c # s) =
     (if b64_skipped c then b64_loop val bits s
      else (case index_in b64_alphabet c of
              None \<Rightarrow> None
            | Some d \<Rightarrow>
                let val' = wrap32 (val * 64 + int d); bits' = bits + 6
                in if bits' \<ge> 0
                   then map_option ((#) (char_of (nat ((val' div 2 ^ nat bits') mod 256))))
                          (b64_loop val' (bits' - 8) s)
                   else b64_loop val' bits' s))"

definition DecodeBase64 :: "string \<Rightarrow> string option" where
  "DecodeBase64 s = b64_loop 0 (-8) s"

text \<open>The standard alphabet in place of the URL-safe one.\<close>

definition url_to_std :: "char \<Rightarrow> char" where
  "url_to_std c = (if c = CHR ''-'' then CHR ''+'' else if c = CHR ''_'' then CHR ''/'' else c)"

lemma b64_alphabets:
  "distinct b64_alphabet" "length b64_alphabet = 64" "length b64url_alphabet = 64"
  "map url_to_std b64url_alphabet = b64_alphabet"
  "list_all (\<lambda>c. \<not> b64_skipped c) b64_alphabet"
  by (simp_all add: b64_alphabet_def b64url_alphabet_def url_to_std_def b64_skipped_def)

lemma b64_digit:
  assumes "i < 64"
  shows "index_in b64_alphabet (url_to_std (b64url_alphabet ! i)) = Some i"
    and "\<not> b64_skipped (url_to_std (b64url_alphabet ! i))"
proof -
  have e: "url_to_std (b64url_alphabet ! i) = b64_alphabet ! i"
    using assms b64_alphabets(3,4) by (metis nth_map)
  show "index_in b64_alphabet (url_to_std (b64url_alphabet ! i)) = Some i"
    unfolding e using assms by (simp add: index_in_nth b64_alphabets)
  show "\<not> b64_skipped (url_to_std (b64url_alphabet ! i))"
    unfolding e using assms b64_alphabets(2,5) by (simp add: list_all_length)
qed

lemma wrap32_mod: "wrap32 x mod 4096 = x mod 4096"
proof -
  have "(x + 2 ^ 31) mod 2 ^ 32 mod 4096 = (x + 2 ^ 31) mod (4096 :: int)"
    by (rule mod_mod_cancel) simp
  then have "((x + 2 ^ 31) mod 2 ^ 32 - 2 ^ 31) mod 4096 = (x + 2 ^ 31 - 2 ^ 31) mod (4096 :: int)"
    by (metis mod_diff_left_eq)
  then show ?thesis by (simp add: wrap32_def)
qed

lemma b64_acc:
  assumes "d < 64"
  shows "wrap32 (val * 64 + int d) mod 4096 = (val mod 64) * 64 + int d"
proof -
  have "val * 64 + int d = ((val mod 64) * 64 + int d) + 4096 * (val div 64)"
    using mult_div_mod_eq [of 64 val] by linarith
  then have "(val * 64 + int d) mod 4096 = ((val mod 64) * 64 + int d) mod 4096"
    by (metis mod_mult_self2)
  moreover have "(val mod 64) * 64 + int d < 4096"
    using assms pos_mod_bound [of 64 val] by linarith
  ultimately show ?thesis by (simp add: wrap32_mod)
qed

text \<open>One character of the encoded text, for each of the four positions in a group.\<close>

lemma b64_loop_digit:
  assumes "i < 64"
  shows "b64_loop val bits (url_to_std (b64url_alphabet ! i) # s) =
    (let val' = wrap32 (val * 64 + int i); bits' = bits + 6
     in if bits' \<ge> 0
        then map_option ((#) (char_of (nat ((val' div 2 ^ nat bits') mod 256)))) (b64_loop val' (bits' - 8) s)
        else b64_loop val' bits' s)"
  using b64_digit [OF assms] by simp

lemma emit_low12:
  fixes val :: int
  shows "(val div 16) mod 256 = (val mod 4096) div 16"
    and "(val div 4) mod 256 = (val mod 4096) div 4 mod 256"
    and "val mod 256 = (val mod 4096) mod 256"
proof -
  have "val mod (16 * 256) = 16 * (val div 16 mod 256) + val mod 16" by (rule zmod_zmult2_eq) simp
  then show "(val div 16) mod 256 = (val mod 4096) div 16" by simp
  have "val mod (4 * 1024) = 4 * (val div 4 mod 1024) + val mod 4" by (rule zmod_zmult2_eq) simp
  then have "(val mod 4096) div 4 = val div 4 mod 1024" by simp
  moreover have "val div 4 mod 1024 mod 256 = val div 4 mod 256" by (rule mod_mod_cancel) simp
  ultimately show "(val div 4) mod 256 = (val mod 4096) div 4 mod 256" by simp
  show "val mod 256 = (val mod 4096) mod 256" by (rule mod_mod_cancel [symmetric]) simp
qed

lemma acc_mod64: "v mod 4096 = x * 64 + int d \<Longrightarrow> d < 64 \<Longrightarrow> (v :: int) mod 64 = int d"
proof -
  assume v: "v mod 4096 = x * 64 + int d" and d: "d < 64"
  have "v mod 64 = (v mod 4096) mod 64" by (rule mod_mod_cancel [symmetric]) simp
  also have "\<dots> = int d mod 64" unfolding v by simp
  finally show "v mod 64 = int d" using d by simp
qed

lemma b64_two:
  assumes "d1 < 64" "d2 < 64"
  shows "\<exists>val'. val' mod 64 = int d2 \<and> (\<forall>s.
    b64_loop val (-8) (url_to_std (b64url_alphabet ! d1) # url_to_std (b64url_alphabet ! d2) # s) =
      map_option ((#) (char_of ((d1 * 64 + d2) div 16))) (b64_loop val' (-4) s))"
proof -
  define v1 where "v1 = wrap32 (val * 64 + int d1)"
  define v2 where "v2 = wrap32 (v1 * 64 + int d2)"
  have "v1 mod 4096 = val mod 64 * 64 + int d1" unfolding v1_def by (rule b64_acc [OF assms(1)])
  then have "v1 mod 64 = int d1" using assms(1) by (rule acc_mod64)
  then have v2: "v2 mod 4096 = int d1 * 64 + int d2"
    using b64_acc [OF assms(2), of v1] by (simp add: v2_def)
  have "(v2 div 16) mod 256 = int ((d1 * 64 + d2) div 16)"
    unfolding emit_low12(1) v2 by (simp add: zdiv_int)
  then have "nat ((v2 div 16) mod 256) = (d1 * 64 + d2) div 16" by simp
  moreover have "v2 mod 64 = int d2" using v2 assms(2) by (rule acc_mod64)
  ultimately show ?thesis
    using assms by (intro exI [of _ v2])
      (simp add: b64_loop_digit Let_def del: b64_loop.simps flip: v1_def v2_def)
qed

lemma b64_third:
  assumes "d3 < 64" "val mod 64 = int d2"
  shows "\<exists>val'. val' mod 64 = int d3 \<and> (\<forall>s.
    b64_loop val (-4) (url_to_std (b64url_alphabet ! d3) # s) =
      map_option ((#) (char_of ((d2 * 64 + d3) div 4 mod 256))) (b64_loop val' (-6) s))"
proof -
  define v where "v = wrap32 (val * 64 + int d3)"
  have v: "v mod 4096 = int d2 * 64 + int d3"
    using b64_acc [OF assms(1), of val] assms(2) by (simp add: v_def)
  have "(v div 4) mod 256 = int ((d2 * 64 + d3) div 4 mod 256)"
    using emit_low12(2) [of v] v by (simp add: zdiv_int zmod_int)
  then have "nat ((v div 4) mod 256) = (d2 * 64 + d3) div 4 mod 256" by linarith
  moreover have "v mod 64 = int d3" using v assms(1) by (rule acc_mod64)
  ultimately show ?thesis
    using assms by (intro exI [of _ v])
      (simp add: b64_loop_digit Let_def del: b64_loop.simps flip: v_def)
qed

lemma b64_fourth:
  assumes "d4 < 64" "val mod 64 = int d3"
  shows "\<exists>val'. \<forall>s. b64_loop val (-6) (url_to_std (b64url_alphabet ! d4) # s) =
      map_option ((#) (char_of ((d3 * 64 + d4) mod 256))) (b64_loop val' (-8) s)"
proof -
  define v where "v = wrap32 (val * 64 + int d4)"
  have v: "v mod 4096 = int d3 * 64 + int d4"
    using b64_acc [OF assms(1), of val] assms(2) by (simp add: v_def)
  have "v mod 256 = int ((d3 * 64 + d4) mod 256)"
    using emit_low12(3) [of v] v by (simp add: zmod_int)
  then have "nat (v mod 256) = (d3 * 64 + d4) mod 256" by linarith
  then show ?thesis
    using assms(1) by (intro exI [of _ v])
      (simp add: b64_loop_digit Let_def del: b64_loop.simps char_of_mod_256 flip: v_def)
qed

lemma div_nat_between: "n * m \<le> q \<Longrightarrow> q < n * m + n \<Longrightarrow> q div n = (m :: nat)"
  by (rule div_nat_eqI) simp_all

text \<open>The four sextets of three bytes, and the bytes back from the sextets.\<close>

definition sx1 :: "nat \<Rightarrow> nat" where "sx1 a = a div 4"
definition sx2 :: "nat \<Rightarrow> nat \<Rightarrow> nat" where "sx2 a b = (a mod 4) * 16 + b div 16"
definition sx3 :: "nat \<Rightarrow> nat \<Rightarrow> nat" where "sx3 b c = (b mod 16) * 4 + c div 64"
definition sx4 :: "nat \<Rightarrow> nat" where "sx4 c = c mod 64"

lemma sextet_bounds:
  assumes "a < 256" "b < 256" "c < 256"
  shows "sx1 a < 64" "sx2 a b < 64" "sx3 b c < 64" "sx4 c < 64"
proof -
  have "b div 16 < 16" "a mod 4 < 4" "b mod 16 < 16" "c div 64 < 4" "a div 4 < 64"
    using assms by (simp_all add: less_mult_imp_div_less)
  then show "sx1 a < 64" "sx2 a b < 64" "sx3 b c < 64" "sx4 c < 64"
    by (simp_all add: sx1_def sx2_def sx3_def sx4_def)
qed

lemma bytes_by_parts:
  assumes "a < 256" "b < 256" "c < 256"
  obtains x ra qb rb qc rc where "a = 4 * x + ra" "b = 16 * qb + rb" "c = 64 * qc + rc"
    "x < 64" "ra < 4" "qb < 16" "rb < 16" "qc < 4" "rc < 64"
    "sx1 a = x" "sx2 a b = ra * 16 + qb" "sx3 b c = rb * 4 + qc" "sx4 c = rc"
proof
  show "a = 4 * (a div 4) + a mod 4" "b = 16 * (b div 16) + b mod 16" "c = 64 * (c div 64) + c mod 64"
    by simp_all
qed (use assms in \<open>simp_all add: less_mult_imp_div_less sx1_def sx2_def sx3_def sx4_def\<close>)

lemma mod_64_low: "n = q * 64 + r \<Longrightarrow> r < 64 \<Longrightarrow> n mod 64 = (r :: nat)"
  by simp

lemma sextets:
  assumes "a < 256" "b < 256" "c < 256"
  shows "((a * 65536 + b * 256 + c) div 2 ^ 18) mod 64 = sx1 a"
    and "((a * 65536 + b * 256 + c) div 2 ^ 12) mod 64 = sx2 a b"
    and "((a * 65536 + b * 256 + c) div 2 ^ 6) mod 64 = sx3 b c"
    and "((a * 65536 + b * 256 + c) div 2 ^ 0) mod 64 = sx4 c"
proof -
  obtain x ra qb rb qc rc where e: "a = 4 * x + ra" "b = 16 * qb + rb" "c = 64 * qc + rc"
    and l: "x < 64" "ra < 4" "qb < 16" "rb < 16" "qc < 4" "rc < 64"
    and sx: "sx1 a = x" "sx2 a b = ra * 16 + qb" "sx3 b c = rb * 4 + qc" "sx4 c = rc"
    using bytes_by_parts [OF assms] .
  let ?n = "a * 65536 + b * 256 + c"
  have "?n div 262144 = x"
    by (rule div_nat_between) (use l in \<open>simp_all add: e\<close>)
  then show "(?n div 2 ^ 18) mod 64 = sx1 a" using l sx by simp
  have "?n div 4096 = x * 64 + (ra * 16 + qb)"
    by (rule div_nat_between) (use l in \<open>simp_all add: e\<close>)
  then show "(?n div 2 ^ 12) mod 64 = sx2 a b" using l sx by simp
  have "?n div 64 = (x * 64 + (ra * 16 + qb)) * 64 + (rb * 4 + qc)"
    by (rule div_nat_between) (use l in \<open>simp_all add: e\<close>)
  from mod_64_low [OF this] show "(?n div 2 ^ 6) mod 64 = sx3 b c" using l sx by simp
  have "?n = ((x * 64 + (ra * 16 + qb)) * 64 + (rb * 4 + qc)) * 64 + rc"
    by (simp add: e)
  from mod_64_low [OF this] show "(?n div 2 ^ 0) mod 64 = sx4 c" using l sx by simp
qed

lemma b64_bytes:
  assumes "a < 256" "b < 256" "c < 256"
  shows "(sx1 a * 64 + sx2 a b) div 16 = a"
    and "(sx2 a b * 64 + sx3 b c) div 4 mod 256 = b"
    and "(sx3 b c * 64 + sx4 c) mod 256 = c"
proof -
  obtain x ra qb rb qc rc where e: "a = 4 * x + ra" "b = 16 * qb + rb" "c = 64 * qc + rc"
    and l: "x < 64" "ra < 4" "qb < 16" "rb < 16" "qc < 4" "rc < 64"
    and sx: "sx1 a = x" "sx2 a b = ra * 16 + qb" "sx3 b c = rb * 4 + qc" "sx4 c = rc"
    using bytes_by_parts [OF assms] .
  show "(sx1 a * 64 + sx2 a b) div 16 = a"
    unfolding sx by (rule div_nat_between) (use l in \<open>simp_all add: e\<close>)
  have "(sx2 a b * 64 + sx3 b c) div 4 = 256 * ra + b"
    unfolding sx by (rule div_nat_between) (use l in \<open>simp_all add: e\<close>)
  then show "(sx2 a b * 64 + sx3 b c) div 4 mod 256 = b" using assms by simp
  have "sx3 b c * 64 + sx4 c = 256 * rb + c"
    unfolding sx by (simp add: e)
  then show "(sx3 b c * 64 + sx4 c) mod 256 = c" using assms by simp
qed

lemma decode_three:
  "\<exists>val'. \<forall>s. b64_loop val (-8)
      (map url_to_std (map ((!) b64url_alphabet)
         [sx1 (code_of a), sx2 (code_of a) (code_of b), sx3 (code_of b) (code_of c), sx4 (code_of c)]) @ s)
    = map_option (\<lambda>t. a # b # c # t) (b64_loop val' (-8) s)"
proof -
  note lt = code_of_less [of a] code_of_less [of b] code_of_less [of c]
  note sx = sextet_bounds [OF lt] and bytes = b64_bytes [OF lt]
  obtain v1 where v1: "v1 mod 64 = int (sx2 (code_of a) (code_of b))"
    and 1: "\<And>s. b64_loop val (-8) (url_to_std (b64url_alphabet ! sx1 (code_of a)) #
       url_to_std (b64url_alphabet ! sx2 (code_of a) (code_of b)) # s)
      = map_option ((#) a) (b64_loop v1 (-4) s)"
    using b64_two [OF sx(1,2), of val, unfolded bytes char_of_char] by blast
  obtain v2 where v2: "v2 mod 64 = int (sx3 (code_of b) (code_of c))"
    and 2: "\<And>s. b64_loop v1 (-4) (url_to_std (b64url_alphabet ! sx3 (code_of b) (code_of c)) # s)
      = map_option ((#) b) (b64_loop v2 (-6) s)"
    using b64_third [OF sx(3) v1, unfolded bytes char_of_char] by blast
  obtain v3 where
    3: "\<And>s. b64_loop v2 (-6) (url_to_std (b64url_alphabet ! sx4 (code_of c)) # s)
      = map_option ((#) c) (b64_loop v3 (-8) s)"
    using b64_fourth [OF sx(4) v2, unfolded bytes char_of_char] by blast
  show ?thesis
    by (rule exI [of _ v3]) (simp add: 1 2 3 option.map_comp comp_def del: b64_loop.simps)
qed

lemma Base64Url_group:
  "Base64Url (a # b # c # r) =
     map ((!) b64url_alphabet) [sx1 (code_of a), sx2 (code_of a) (code_of b),
       sx3 (code_of b) (code_of c), sx4 (code_of c)] @ Base64Url r"
  using sextets [OF code_of_less [of a] code_of_less [of b] code_of_less [of c]]
  by (simp add: b64_sym_def Let_def)

lemma Base64Url_pair:
  "Base64Url [a, b] =
     map ((!) b64url_alphabet) [sx1 (code_of a), sx2 (code_of a) (code_of b), sx3 (code_of b) 0]"
  using sextets [OF code_of_less [of a] code_of_less [of b], of 0]
  by (simp add: b64_sym_def Let_def)

lemma Base64Url_single:
  "Base64Url [a] = map ((!) b64url_alphabet) [sx1 (code_of a), sx2 (code_of a) 0]"
  using sextets [OF code_of_less [of a], of 0 0]
  by (simp add: b64_sym_def Let_def)

lemma decode_pair:
  "b64_loop val (-8) (map url_to_std (Base64Url [a, b])) = Some [a, b]"
proof -
  note lt = code_of_less [of a] code_of_less [of b]
  have z: "(0::nat) < 256" by simp
  note sx = sextet_bounds [OF lt z] and bytes = b64_bytes [OF lt z]
  obtain v1 where v1: "v1 mod 64 = int (sx2 (code_of a) (code_of b))"
    and 1: "\<And>s. b64_loop val (-8) (url_to_std (b64url_alphabet ! sx1 (code_of a)) #
       url_to_std (b64url_alphabet ! sx2 (code_of a) (code_of b)) # s)
      = map_option ((#) a) (b64_loop v1 (-4) s)"
    using b64_two [OF sx(1,2), of val, unfolded bytes char_of_char] by blast
  obtain v2 where
    2: "\<And>s. b64_loop v1 (-4) (url_to_std (b64url_alphabet ! sx3 (code_of b) 0) # s)
      = map_option ((#) b) (b64_loop v2 (-6) s)"
    using b64_third [OF sx(3) v1, unfolded bytes char_of_char] by blast
  show ?thesis
    by (simp only: Base64Url_pair list.map 1 2) simp
qed

lemma decode_single:
  "b64_loop val (-8) (map url_to_std (Base64Url [a])) = Some [a]"
proof -
  have z: "(0::nat) < 256" by simp
  note lt = code_of_less [of a]
  obtain v1 where
    1: "\<And>s. b64_loop val (-8) (url_to_std (b64url_alphabet ! sx1 (code_of a)) #
       url_to_std (b64url_alphabet ! sx2 (code_of a) 0) # s)
      = map_option ((#) a) (b64_loop v1 (-4) s)"
    using b64_two [OF sextet_bounds(1,2) [OF lt z z], of val, unfolded b64_bytes [OF lt z z] char_of_char]
    by blast
  show ?thesis
    by (simp only: Base64Url_single list.map 1) simp
qed

lemma decode_encode: "b64_loop val (-8) (map url_to_std (Base64Url s)) = Some s"
proof (induction s arbitrary: val rule: Base64Url.induct)
  case (1 a b c r)
  obtain val' where "\<forall>s. b64_loop val (-8)
      (map url_to_std (map ((!) b64url_alphabet)
         [sx1 (code_of a), sx2 (code_of a) (code_of b), sx3 (code_of b) (code_of c), sx4 (code_of c)]) @ s)
    = map_option (\<lambda>t. a # b # c # t) (b64_loop val' (-8) s)"
    using decode_three by blast
  then show ?case
    unfolding Base64Url_group map_append using "1.IH" [of _ val'] by (simp del: b64_loop.simps list.map)
qed (rule decode_pair decode_single | simp)+


lemma DecodeBase64_rejects:
  assumes "c \<in> set s" and "\<not> b64_skipped c" and "index_in b64_alphabet c = None"
  shows "DecodeBase64 s = None"
proof -
  have "b64_loop val bits s = None" for val bits
    using assms by (induction s arbitrary: val bits) (auto simp: Let_def split: option.splits)
  then show ?thesis by (simp add: DecodeBase64_def)
qed

section \<open>Redaction of secrets\<close>

definition kMask :: string where
  "kMask = ''***REDACTED***''"

function redact_one :: "string \<Rightarrow> string \<Rightarrow> string" where
  "redact_one s msg =
     (if s = [] then msg
      else (case str_find msg s of
              None \<Rightarrow> msg
            | Some i \<Rightarrow> take i msg @ kMask @ redact_one s (drop (i + length s) msg)))"
  by pat_completeness auto
termination
proof (relation "measure (\<lambda>(s, msg). length msg)", goal_cases)
  case 1
  then show ?case by simp
next
  case (2 s msg i)
  then have "i + length s \<le> length msg" using str_find_SomeD by blast
  with 2 show ?case by (cases s) auto
qed

declare redact_one.simps [simp del]

definition RedactSecrets :: "string \<Rightarrow> string list \<Rightarrow> string" where
  "RedactSecrets msg secrets = foldl (\<lambda>t s. redact_one s t) msg secrets"

lemma redact_one_simps:
  "redact_one [] msg = msg"
  "str_find msg s = None \<Longrightarrow> redact_one s msg = msg"
  "str_find msg s = Some i \<Longrightarrow> s \<noteq> [] \<Longrightarrow>
     redact_one s msg = take i msg @ kMask @ redact_one s (drop (i + length s) msg)"
  by (subst redact_one.simps; simp)+

text \<open>
  A text without a star that is no part of the word between the stars occurs only between the masks.
\<close>

definition apart :: "string \<Rightarrow> bool" where
  "apart s \<longleftrightarrow> CHR ''*'' \<notin> set s \<and> \<not> sublist s ''REDACTED''"

lemma apart_nonempty: "apart s \<Longrightarrow> s \<noteq> []"
  by (auto simp: apart_def)

lemma sublist_cut:
  assumes "sublist n (xs @ ys)" and "n \<noteq> []"
    and "(ys \<noteq> [] \<and> hd ys \<notin> set n) \<or> (xs \<noteq> [] \<and> last xs \<notin> set n)"
  shows "sublist n xs \<or> sublist n ys"
proof -
  consider "sublist n xs" | "sublist n ys" | n1 n2 where "n = n1 @ n2" "suffix n1 xs" "prefix n2 ys"
    using assms(1) by (auto simp: sublist_append)
  then show ?thesis
  proof cases
    case 3
    then have "n1 = [] \<or> n2 = []"
      using assms(3) by (cases n1 rule: rev_cases; cases n2) (auto simp: suffix_def prefix_def)
    with 3 show ?thesis by auto
  qed blast+
qed

lemma apart_not_mask: "apart n \<Longrightarrow> \<not> sublist n kMask"
proof
  assume n: "apart n" and "sublist n kMask"
  then have st: "CHR ''*'' \<notin> set n" "n \<noteq> []" using apart_nonempty by (auto simp: apart_def)
  have "sublist n ((''***'' @ ''REDACTED'') @ ''***'')" using \<open>sublist n kMask\<close> by (simp add: kMask_def)
  then have "sublist n (''***'' @ ''REDACTED'') \<or> sublist n ''***''" by (rule sublist_cut) (use st in simp_all)
  moreover have "\<not> sublist n ''***''" using set_mono_sublist [of n "''***''"] st by (cases n) auto
  ultimately have "sublist n (''***'' @ ''REDACTED'')" by blast
  then have "sublist n ''***'' \<or> sublist n ''REDACTED''" by (rule sublist_cut) (use st in simp_all)
  with \<open>\<not> sublist n ''***''\<close> n show False by (auto simp: apart_def)
qed

lemma sublist_around_mask:
  assumes "sublist n (xs @ kMask @ ys)" and "apart n"
  shows "sublist n xs \<or> sublist n ys"
proof -
  have "hd (kMask @ ys) \<notin> set n" "last kMask \<notin> set n"
    using assms(2) by (auto simp: kMask_def apart_def)
  then have "sublist n xs \<or> sublist n kMask \<or> sublist n ys"
    using sublist_cut [OF assms(1) apart_nonempty [OF assms(2)]] sublist_cut [of n kMask ys] apart_nonempty [OF assms(2)]
    by (auto simp: kMask_def)
  with apart_not_mask [OF assms(2)] show ?thesis by blast
qed

lemma redact_one_no_new:
  assumes "\<not> sublist n msg" and "apart n"
  shows "\<not> sublist n (redact_one s msg)"
  using assms(1)
proof (induction s msg rule: redact_one.induct)
  case (1 s msg)
  show ?case
  proof (cases "s = [] \<or> str_find msg s = None")
    case True
    with "1.prems" show ?thesis by (auto simp: redact_one_simps)
  next
    case False
    then obtain i where i: "str_find msg s = Some i" "s \<noteq> []" by auto
    have "\<not> sublist n (take i msg)" "\<not> sublist n (drop (i + length s) msg)"
      using "1.prems" by (meson sublist_order.order_trans sublist_take sublist_drop)+
    with "1.IH" i sublist_around_mask [OF _ assms(2)] show ?thesis
      by (auto simp: redact_one_simps(3) [OF i])
  qed
qed

lemma before_first_occurrence:
  assumes "str_find msg s = Some i" and "s \<noteq> []"
  shows "\<not> sublist s (take i msg)"
proof
  assume "sublist s (take i msg)"
  then obtain p r where e: "take i msg = p @ s @ r" by (auto simp: sublist_def)
  have "length (take i msg) \<le> i" by simp
  moreover have "length (take i msg) = length p + length s + length r" by (simp add: e)
  ultimately have "length p < i" using assms(2) by (cases s) auto
  moreover have "prefix s (drop (length p) msg)"
  proof -
    have "msg = p @ s @ r @ drop i msg" using e by (metis append_assoc append_take_drop_id)
    then show ?thesis by (metis append_eq_conv_conj prefixI)
  qed
  ultimately show False using str_find_least [OF assms(1)] by blast
qed

lemma redact_one_removes:
  assumes "apart s"
  shows "\<not> sublist s (redact_one s msg)"
proof (induction "length msg" arbitrary: msg rule: less_induct)
  case less
  show ?case
  proof (cases "str_find msg s")
    case None
    then show ?thesis by (simp add: redact_one_simps str_find_None)
  next
    case (Some i)
    have "length (drop (i + length s) msg) < length msg"
      using str_find_SomeD [OF Some] apart_nonempty [OF assms] by (cases s) auto
    then have "\<not> sublist s (redact_one s (drop (i + length s) msg))" by (rule less)
    with before_first_occurrence [OF Some apart_nonempty [OF assms]] sublist_around_mask [OF _ assms] show ?thesis
      by (auto simp: redact_one_simps(3) [OF Some apart_nonempty [OF assms]])
  qed
qed

lemma redact_keeps_absent:
  "apart n \<Longrightarrow> \<not> sublist n t \<Longrightarrow> \<not> sublist n (RedactSecrets t ss)"
  unfolding RedactSecrets_def
  by (induction ss arbitrary: t) (simp_all add: redact_one_no_new)

lemma redact_nothing:
  "list_all (\<lambda>u. u = [] \<or> \<not> sublist u msg) us \<Longrightarrow> RedactSecrets msg us = msg"
proof -
  have "redact_one u msg = msg" if "u = [] \<or> \<not> sublist u msg" for u
  proof (cases "u = [] \<or> str_find msg u = None")
    case True
    then show ?thesis by (auto simp: redact_one_simps)
  next
    case False
    then obtain i where "str_find msg u = Some i" "u \<noteq> []" by auto
    then have "prefix u (drop i msg)" using str_find_SomeD by blast
    then have "sublist u msg" by (meson prefix_imp_sublist sublist_drop sublist_order.order_trans)
    with that \<open>u \<noteq> []\<close> show ?thesis by simp
  qed
  then show "list_all (\<lambda>u. u = [] \<or> \<not> sublist u msg) us \<Longrightarrow> RedactSecrets msg us = msg"
    unfolding RedactSecrets_def by (induction us) auto
qed

text \<open>
  C22: After redaction no secret is left in the message. For every secret of the list that has no star and is
  no part of the word REDACTED (which a real token, longer than that word, cannot be), the redacted message has no occurrence of it,
  whatever the order of the secrets and however they overlap each other, the message and the masks;
  and a message in which no secret occurs is not changed.
\<close>

theorem RedactSecrets_removes:
  assumes "s \<in> set secrets" and "apart s"
  shows "\<not> sublist s (RedactSecrets msg secrets) \<and>
    (if list_all (\<lambda>u. u = [] \<or> \<not> sublist u msg) secrets then RedactSecrets msg secrets = msg else True)"
proof -
  have "\<not> sublist s (RedactSecrets msg secrets)"
    using assms(1)
  proof (induction secrets arbitrary: msg)
    case Nil
    then show ?case by simp
  next
    case (Cons u us)
    have step: "RedactSecrets msg (u # us) = RedactSecrets (redact_one u msg) us"
      by (simp add: RedactSecrets_def)
    show ?case
    proof (cases "s = u")
      case True
      then show ?thesis
        unfolding step using redact_one_removes [OF assms(2)] redact_keeps_absent [OF assms(2)] by blast
    next
      case False
      with Cons show ?thesis unfolding step by simp
    qed
  qed
  then show ?thesis using redact_nothing by simp
qed

theorem RedactSecrets_removes_witness:
  "\<not> sublist ''00D5e!AQEDACTED'' (RedactSecrets ''Bearer 00D5e!AQEDACTED00D5e!AQEDACTED.'' [''Bearer 0'', ''00D5e!AQEDACTED''])"
proof -
  have a: "apart ''00D5e!AQEDACTED''" unfolding apart_def by code_simp
  from RedactSecrets_removes [OF _ a, of "[''Bearer 0'', ''00D5e!AQEDACTED'']"] show ?thesis by simp
qed

end
