(* ===== verification/SF_Auth.thy ===== *)
theory SF_Auth
  imports SF_Config SF_Http SF_Codec
begin

text \<open>
  OAuth token exchange (\<^verbatim>\<open>salesforce_auth.cpp\<close>): the refresh-token grant, the JWT bearer grant and
  the handling of the token response. The outside world is the record \<open>external\<close>: DuckDB's string
  utilities, the HTTP client (any state machine that answers requests), the wall clock (seconds) and
  the steady clock (nanoseconds), the sleep and
  the OpenSSL calls of \<^verbatim>\<open>SignRs256\<close>.

  Shown: the form body decodes to exactly the configured credentials whatever characters they
  hold; a token is accepted exactly from a 200 response with both fields; and the signed
  assertion decodes to the claims that were signed.
\<close>

record openssl =
  BIO_new_mem_buf :: "string \<Rightarrow> string option"
  PEM_read_bio_PrivateKey :: "string \<Rightarrow> string option"
  EVP_DigestSign_SHA256 :: "string \<Rightarrow> string \<Rightarrow> string option"

record 'c external =
  x_su :: string_util
  x_send :: "'c http_send"
  x_time :: "'c \<Rightarrow> int"
  x_steady :: "'c \<Rightarrow> int"
  x_sleep :: "int \<Rightarrow> 'c \<Rightarrow> 'c"
  x_ssl :: openssl

definition send :: "'c external \<Rightarrow> Method \<Rightarrow> HttpRequest \<Rightarrow> ('c, HttpResponse) sfm" where
  "send X m rq = (\<lambda>c. case x_send X m rq c of (r, c') \<Rightarrow> (Inr r, c'))"

record SalesforceTokenSet =
  access_token :: string
  instance_url :: string

definition TrimTrailingSlash :: "string \<Rightarrow> string" where
  "TrimTrailingSlash s = rev (dropWhile (\<lambda>c. c = CHR ''/'') (rev s))"

definition token_hint :: "string \<Rightarrow> string" where
  "token_hint err =
     (if err = ''invalid_grant'' then
        '' (refresh token / JWT assertion is invalid, expired, or the ''
        @ ''user is not authorized for this Connected App '' @ emdash @ '' re-authorize)''
      else if err = ''invalid_client'' \<or> err = ''invalid_client_id'' then
        '' (client_id / client_secret is incorrect for this org)''
      else [])"

definition HandleTokenResponse :: "HttpResponse \<Rightarrow> string \<Rightarrow> SalesforceTokenSet result" where
  "HandleTokenResponse resp url =
     (if \<not> transport_ok resp then Inl (IOException
        (''salesforce OAuth: token request failed to reach '' @ url @ '' ('' @ transport_error resp @ '').''))
      else if status resp \<noteq> 200 then
        (let e = GetString (body resp) ''error''; desc = GetString (body resp) ''error_description'';
             err = (if e = [] then ''unknown_error'' else e)
         in Inl (IOException (''salesforce OAuth token exchange failed (HTTP '' @ show_int (status resp) @ ''): ''
              @ err @ (if desc = [] then [] else '' - '') @ desc @ token_hint err @ ''.'')))
      else
        (let ts = \<lparr> access_token = GetString (body resp) ''access_token'',
                    instance_url = GetString (body resp) ''instance_url'' \<rparr>
         in if access_token ts = [] then Inl (IOException
              ''salesforce OAuth: token response did not contain an access_token.'')
            else if instance_url ts = [] then Inl (IOException
              ''salesforce OAuth: token response did not contain an instance_url.'')
            else Inr ts))"

definition token_url :: "SalesforceConfig \<Rightarrow> string" where
  "token_url config = TrimTrailingSlash (login_url config) @ ''/services/oauth2/token''"

definition token_headers :: "(string \<times> string) list" where
  "token_headers = [(''Content-Type'', ''application/x-www-form-urlencoded''), (''Accept'', ''application/json'')]"

definition refresh_body :: "SalesforceConfig \<Rightarrow> string" where
  "refresh_body config =
     ''grant_type=refresh_token'' @ ''&client_id='' @ FormEncode (client_id config)
     @ ''&client_secret='' @ FormEncode (client_secret config)
     @ ''&refresh_token='' @ FormEncode (refresh_token config)"

definition ExchangeRefreshToken :: "'c external \<Rightarrow> SalesforceConfig \<Rightarrow> ('c, SalesforceTokenSet) sfm" where
  "ExchangeRefreshToken X config =
     bnd (send X POST \<lparr> rq_url = token_url config, rq_headers = token_headers, rq_body = refresh_body config \<rparr>)
       (\<lambda>resp. of_result (HandleTokenResponse resp (token_url config)))"

section \<open>The JWT bearer grant\<close>

text \<open>\<^verbatim>\<open>JsonEscape\<close> of \<^verbatim>\<open>salesforce_auth.cpp\<close>: only the quote and the backslash.\<close>

definition claim_escape :: "string \<Rightarrow> string" where
  "claim_escape s = concat (map (\<lambda>c. if c = DQ \<or> c = BSL then [BSL, c] else [c]) s)"

definition SignRs256 :: "openssl \<Rightarrow> string \<Rightarrow> string \<Rightarrow> string result" where
  "SignRs256 S pem input =
     (case BIO_new_mem_buf S pem of
        None \<Rightarrow> Inl (IOException ''salesforce OAuth (jwt): out of memory loading private key.'')
      | Some bio \<Rightarrow>
          (case PEM_read_bio_PrivateKey S bio of
             None \<Rightarrow> Inl (IOException (''salesforce OAuth (jwt): could not parse the private key (expected an ''
                       @ ''unencrypted PKCS#1/PKCS#8 PEM RSA key).''))
           | Some pkey \<Rightarrow>
               (case EVP_DigestSign_SHA256 S pkey input of
                  None \<Rightarrow> Inl (IOException (''salesforce OAuth (jwt): failed to RS256-sign the assertion (check ''
                            @ ''that the private key is a valid unencrypted RSA key).''))
                | Some sg \<Rightarrow> Inr sg)))"

definition jwt_header :: string where
  "jwt_header = ''{'' @ quoted ''alg'' @ '':'' @ quoted ''RS256'' @ '','' @ quoted ''typ'' @ '':'' @ quoted ''JWT'' @ ''}''"

definition jwt_claims :: "SalesforceConfig \<Rightarrow> int \<Rightarrow> string" where
  "jwt_claims config now =
     ''{'' @ quoted ''iss'' @ '':'' @ quoted (claim_escape (client_id config))
     @ '','' @ quoted ''sub'' @ '':'' @ quoted (claim_escape (username config))
     @ '','' @ quoted ''aud'' @ '':'' @ quoted (claim_escape (TrimTrailingSlash (login_url config)))
     @ '','' @ quoted ''iat'' @ '':'' @ show_int now
     @ '','' @ quoted ''exp'' @ '':'' @ show_int (now + 300) @ ''}''"

definition signing_input :: "SalesforceConfig \<Rightarrow> int \<Rightarrow> string" where
  "signing_input config now = Base64Url jwt_header @ ''.'' @ Base64Url (jwt_claims config now)"

definition jwt_body :: "string \<Rightarrow> string" where
  "jwt_body assertion =
     ''grant_type='' @ FormEncode ''urn:ietf:params:oauth:grant-type:jwt-bearer''
     @ ''&assertion='' @ FormEncode assertion"

definition ExchangeJwtBearer :: "'c external \<Rightarrow> SalesforceConfig \<Rightarrow> ('c, SalesforceTokenSet) sfm" where
  "ExchangeJwtBearer X config =
     bnd (gets (x_time X)) (\<lambda>now.
     let input = signing_input config now in
     bnd (of_result (SignRs256 (x_ssl X) (private_key config) input)) (\<lambda>sg.
     bnd (send X POST \<lparr> rq_url = token_url config, rq_headers = token_headers,
                        rq_body = jwt_body (input @ ''.'' @ Base64Url sg) \<rparr>)
       (\<lambda>resp. of_result (HandleTokenResponse resp (token_url config)))))"

definition AcquireToken :: "'c external \<Rightarrow> SalesforceConfig \<Rightarrow> ('c, SalesforceTokenSet) sfm" where
  "AcquireToken X config =
     (if auth_method config = kJwt then ExchangeJwtBearer X config else ExchangeRefreshToken X config)"

section \<open>Token responses\<close>

lemma HandleTokenResponse_ok:
  "HandleTokenResponse resp url = Inr ts \<longleftrightarrow>
     transport_ok resp \<and> status resp = 200 \<and>
     ts = \<lparr> access_token = GetString (body resp) ''access_token'', instance_url = GetString (body resp) ''instance_url'' \<rparr> \<and>
     access_token ts \<noteq> [] \<and> instance_url ts \<noteq> []"
  by (auto simp: HandleTokenResponse_def Let_def)

lemma send_run [sfm_simps]: "send X m rq c = (case x_send X m rq c of (r, c') \<Rightarrow> (Inr r, c'))"
  by (simp add: send_def)

text \<open>A grant sends at most one request, a POST to the token endpoint of the login host.\<close>

lemma AcquireToken_one_request:
  assumes "AcquireToken X config c = (r, c')"
  shows "c' = c \<or> (\<exists>bd resp. x_send X POST \<lparr> rq_url = token_url config, rq_headers = token_headers, rq_body = bd \<rparr> c
                     = (resp, c') \<and> r = HandleTokenResponse resp (token_url config))"
  using assms
  by (auto simp: AcquireToken_def ExchangeRefreshToken_def ExchangeJwtBearer_def sfm_simps Let_def
      split: if_splits sum.splits prod.splits)

lemma AcquireToken_nonempty:
  "AcquireToken X config c = (Inr ts, c') \<Longrightarrow> access_token ts \<noteq> [] \<and> instance_url ts \<noteq> []"
  by (auto simp: AcquireToken_def ExchangeRefreshToken_def ExchangeJwtBearer_def sfm_simps Let_def
      HandleTokenResponse_ok split: if_splits sum.splits prod.splits)

section \<open>What the request bodies say\<close>

text \<open>How a form body is read: fields separated by ampersands, name and value by the first equals sign.\<close>

definition form_field :: "string \<Rightarrow> string \<times> string option" where
  "form_field f = (takeWhile (\<lambda>c. c \<noteq> CHR ''='') f, pct_decode (drop 1 (dropWhile (\<lambda>c. c \<noteq> CHR ''='') f)))"

definition form_parse :: "string \<Rightarrow> (string \<times> string option) list" where
  "form_parse s = map form_field (split_on_char (CHR ''&'') s)"

lemma split_on_char_free: "c \<notin> set s \<Longrightarrow> split_on_char c s = [s]"
  by (induction s) auto

lemma split_on_char_append: "c \<notin> set s \<Longrightarrow> split_on_char c (s @ c # t) = s # split_on_char c t"
  by (induction s) (auto split: list.splits)

lemma FormEncode_chars: "c \<in> set (FormEncode s) \<Longrightarrow> unreserved c \<or> c = CHR ''%''"
  using pct_char_safe by (auto simp: FormEncode_def)

lemma FormEncode_free: "CHR ''&'' \<notin> set (FormEncode s)" "CHR ''='' \<notin> set (FormEncode s)"
  using FormEncode_chars [of "CHR ''&''" s] FormEncode_chars [of "CHR ''=''" s]
  by (auto simp: unreserved_def isalnum_def isdigit_def isupper_def islower_def)

lemma takeWhile_stop: "c \<notin> set s \<Longrightarrow> takeWhile (\<lambda>x. x \<noteq> c) (s @ c # t) = s"
  by (induction s) auto

lemma dropWhile_stop: "c \<notin> set s \<Longrightarrow> dropWhile (\<lambda>x. x \<noteq> c) (s @ c # t) = c # t"
  by (induction s) auto

lemma form_field_encoded:
  "CHR ''='' \<notin> set n \<Longrightarrow> form_field (n @ CHR ''='' # FormEncode v) = (n, Some v)"
  by (simp add: form_field_def takeWhile_stop dropWhile_stop FormEncode_def pct_decode_encode)

lemma form_parse_cons:
  "CHR ''='' \<notin> set n \<Longrightarrow> CHR ''&'' \<notin> set n \<Longrightarrow>
     form_parse (n @ CHR ''='' # FormEncode v @ CHR ''&'' # t) = (n, Some v) # form_parse t"
  using split_on_char_append [of "CHR ''&''" "n @ CHR ''='' # FormEncode v" t]
  by (simp add: form_parse_def FormEncode_free form_field_encoded)

lemma form_parse_last:
  "CHR ''='' \<notin> set n \<Longrightarrow> CHR ''&'' \<notin> set n \<Longrightarrow> form_parse (n @ CHR ''='' # FormEncode v) = [(n, Some v)]"
  using split_on_char_free [of "CHR ''&''" "n @ CHR ''='' # FormEncode v"]
  by (simp add: form_parse_def FormEncode_free form_field_encoded)

definition form_print :: "(string \<times> string) list \<Rightarrow> string" where
  "form_print fs = sep_by ''&'' (map (\<lambda>(n, v). n @ CHR ''='' # FormEncode v) fs)"

lemma form_parse_print:
  "fs \<noteq> [] \<Longrightarrow> list_all (\<lambda>(n, v). CHR ''='' \<notin> set n \<and> CHR ''&'' \<notin> set n) fs \<Longrightarrow>
     form_parse (form_print fs) = map (\<lambda>(n, v). (n, Some v)) fs"
proof (induction fs)
  case Nil
  then show ?case by simp
next
  case (Cons f fs)
  obtain n v where f: "f = (n, v)" by (cases f)
  show ?case
  proof (cases fs)
    case Nil
    with Cons.prems show ?thesis by (simp add: f form_print_def form_parse_last)
  next
    case (Cons g gs)
    then have "form_print (f # fs) = n @ CHR ''='' # FormEncode v @ CHR ''&'' # form_print fs"
      by (simp add: f form_print_def)
    with Cons.IH Cons.prems Cons show ?thesis by (simp add: f form_parse_cons)
  qed
qed

lemma FormEncode_refresh_token: "FormEncode ''refresh_token'' = ''refresh_token''"
  by code_simp


text \<open>How a receiver reads the assertion: three dot-separated base64url segments.\<close>

definition jwt_parse :: "string \<Rightarrow> string option list" where
  "jwt_parse s = map (\<lambda>w. DecodeBase64 (map url_to_std w)) (split_on_char (CHR ''.'') s)"

lemma b64_alphabet_no_dot: "CHR ''.'' \<notin> set b64url_alphabet"
  by code_simp

lemma Base64Url_chars: "set (Base64Url s) \<subseteq> set b64url_alphabet"
proof -
  have l: "length b64url_alphabet = 64" by code_simp
  have sym: "b64_sym n k \<in> set b64url_alphabet" for n k
    by (simp add: b64_sym_def l)
  show ?thesis by (induction s rule: Base64Url.induct) (auto simp: sym Let_def)
qed

lemma jwt_parse_assertion:
  "jwt_parse (Base64Url a @ ''.'' @ Base64Url b @ ''.'' @ Base64Url c) = [Some a, Some b, Some c]"
proof -
  have f: "CHR ''.'' \<notin> set (Base64Url s)" for s
    using Base64Url_chars [of s] b64_alphabet_no_dot by blast
  have d: "DecodeBase64 (map url_to_std (Base64Url s)) = Some s" for s
    by (simp add: DecodeBase64_def decode_encode)
  show ?thesis
    using split_on_char_append [OF f [of a], of "Base64Url b @ ''.'' @ Base64Url c"]
      split_on_char_append [OF f [of b], of "Base64Url c"] split_on_char_free [OF f [of c]]
    by (simp add: jwt_parse_def d)
qed

text \<open>
  C36: the JWT request carries an assertion signed over what it says. When signing succeeds, exactly
  one request is sent, to the token endpoint; its body has the grant type and the assertion,
  which decodes to the header, to the claims for the present time and to the signature, made
  with the configured key over the first two segments.
\<close>

theorem jwt_assertion_signed:
  assumes "SignRs256 (x_ssl X) (private_key config) (signing_input config (x_time X c)) = Inr sg"
  shows "\<exists>assertion.
    ExchangeJwtBearer X config c =
      (case x_send X POST \<lparr> rq_url = token_url config, rq_headers = token_headers, rq_body = jwt_body assertion \<rparr> c of
         (resp, c') \<Rightarrow> (HandleTokenResponse resp (token_url config), c')) \<and>
    form_parse (jwt_body assertion) =
      [(''grant_type'', Some ''urn:ietf:params:oauth:grant-type:jwt-bearer''), (''assertion'', Some assertion)] \<and>
    jwt_parse assertion = [Some jwt_header, Some (jwt_claims config (x_time X c)), Some sg]"
proof (intro exI conjI)
  let ?a = "signing_input config (x_time X c) @ ''.'' @ Base64Url sg"
  show "ExchangeJwtBearer X config c =
      (case x_send X POST \<lparr> rq_url = token_url config, rq_headers = token_headers, rq_body = jwt_body ?a \<rparr> c of
         (resp, c') \<Rightarrow> (HandleTokenResponse resp (token_url config), c'))"
    using assms by (simp add: ExchangeJwtBearer_def sfm_simps Let_def split: prod.splits)
  let ?fs = "[(''grant_type'', ''urn:ietf:params:oauth:grant-type:jwt-bearer''), (''assertion'', ?a)]"
  have "jwt_body ?a = form_print ?fs"
    by (simp add: jwt_body_def form_print_def)
  then show "form_parse (jwt_body ?a) =
      [(''grant_type'', Some ''urn:ietf:params:oauth:grant-type:jwt-bearer''), (''assertion'', Some ?a)]"
    using form_parse_print [of ?fs] by simp
  show "jwt_parse ?a = [Some jwt_header, Some (jwt_claims config (x_time X c)), Some sg]"
    by (simp add: signing_input_def jwt_parse_assertion [simplified])
qed

definition sample_ssl :: openssl where
  "sample_ssl = \<lparr> BIO_new_mem_buf = Some, PEM_read_bio_PrivateKey = Some,
     EVP_DigestSign_SHA256 = (\<lambda>k i. Some (k @ i)) \<rparr>"

definition sample_external :: "unit external" where
  "sample_external = \<lparr> x_su = ascii_su, x_send = (\<lambda>m rq c. (empty_response, c)), x_time = (\<lambda>_. 1700000000),
     x_steady = (\<lambda>_. 0), x_sleep = (\<lambda>_ c. c), x_ssl = sample_ssl \<rparr>"

theorem jwt_assertion_signed_witness:
  "\<exists>sg assertion.
    ExchangeJwtBearer sample_external (empty_config \<lparr> private_key := ''key'' \<rparr>) () =
      (HandleTokenResponse empty_response (token_url (empty_config \<lparr> private_key := ''key'' \<rparr>)), ()) \<and>
    form_parse (jwt_body assertion) =
      [(''grant_type'', Some ''urn:ietf:params:oauth:grant-type:jwt-bearer''), (''assertion'', Some assertion)] \<and>
    jwt_parse assertion =
      [Some jwt_header, Some (jwt_claims (empty_config \<lparr> private_key := ''key'' \<rparr>) 1700000000), Some sg]"
proof -
  let ?cfg = "empty_config \<lparr> private_key := ''key'' \<rparr>"
  have "\<exists>sg. SignRs256 (x_ssl sample_external) (private_key ?cfg)
      (signing_input ?cfg (x_time sample_external ())) = Inr sg"
    by (simp add: SignRs256_def sample_external_def sample_ssl_def)
  then obtain sg where "SignRs256 (x_ssl sample_external) (private_key ?cfg)
      (signing_input ?cfg (x_time sample_external ())) = Inr sg" by blast
  from jwt_assertion_signed [OF this] show ?thesis by (auto simp: sample_external_def)
qed

end
