(* ===== verification/SF_Csv.thy ===== *)
theory SF_Csv
  imports SF_Prelude
begin

text \<open>
  The CSV parser for Bulk API 2.0 results (\<^verbatim>\<open>src/include/salesforce_csv.hpp\<close>), its state
  the local variables of the loop. The specification is RFC 4180: an inductive relation
  says which texts encode a cell, and the parser recovers the cells from every encoding,
  with either line ending, after the last row or not.
\<close>

record csv_state =
  cs_rows :: "string list list"
  cs_row :: "string list"
  cs_cell :: string
  in_quotes :: bool
  field_started :: bool

definition csv_init :: csv_state where
  "csv_init = \<lparr>cs_rows = [], cs_row = [], cs_cell = [], in_quotes = False, field_started = False\<rparr>"

definition end_field :: "csv_state \<Rightarrow> csv_state" where
  "end_field st = st\<lparr>cs_row := cs_row st @ [cs_cell st], cs_cell := []\<rparr>"

definition end_row :: "csv_state \<Rightarrow> csv_state" where
  "end_row st =
     (let st1 = end_field st
      in st1\<lparr>cs_rows := cs_rows st1 @ [cs_row st1], cs_row := [], field_started := False\<rparr>)"

definition push_cell :: "char \<Rightarrow> csv_state \<Rightarrow> csv_state" where
  "push_cell c st = st\<lparr>cs_cell := cs_cell st @ [c]\<rparr>"

fun csv_loop :: "csv_state \<Rightarrow> string \<Rightarrow> csv_state" where
  "csv_loop st [] = st"
| "csv_loop st (c # s) =
     (if in_quotes st then
        (if c = DQ then
           (case s of
              e # t \<Rightarrow> if e = DQ then csv_loop (push_cell DQ st) t
                       else csv_loop (st\<lparr>in_quotes := False\<rparr>) s
            | [] \<Rightarrow> csv_loop (st\<lparr>in_quotes := False\<rparr>) s)
         else csv_loop (push_cell c st) s)
      else if c = DQ then csv_loop (st\<lparr>in_quotes := True, field_started := True\<rparr>) s
      else if c = CHR '','' then csv_loop ((end_field st)\<lparr>field_started := True\<rparr>) s
      else if c = CR then
        (case s of
           e # t \<Rightarrow> if e = LF then csv_loop (end_row st) t else csv_loop (end_row st) s
         | [] \<Rightarrow> csv_loop (end_row st) s)
      else if c = LF then csv_loop (end_row st) s
      else csv_loop ((push_cell c st)\<lparr>field_started := True\<rparr>) s)"

definition Parse :: "string \<Rightarrow> string list list" where
  "Parse data =
     (let st = csv_loop csv_init data
      in cs_rows (if field_started st \<or> cs_cell st \<noteq> [] \<or> cs_row st \<noteq> [] then end_row st else st))"

section \<open>RFC 4180 encodings\<close>

definition csv_special :: "char \<Rightarrow> bool" where
  "csv_special c \<longleftrightarrow> c = DQ \<or> c = CHR '','' \<or> c = CR \<or> c = LF"

fun double_quotes :: "string \<Rightarrow> string" where
  "double_quotes [] = []"
| "double_quotes (c # s) = (if c = DQ then DQ # DQ # double_quotes s else c # double_quotes s)"

inductive encodes_cell :: "string \<Rightarrow> string \<Rightarrow> bool" where
  bare: "list_all (\<lambda>c. \<not> csv_special c) v \<Longrightarrow> encodes_cell v v"
| quoted_cell: "encodes_cell v (DQ # double_quotes v @ [DQ])"

inductive encodes_row :: "string list \<Rightarrow> string \<Rightarrow> bool" where
  single: "encodes_cell v t \<Longrightarrow> encodes_row [v] t"
| more: "encodes_cell v t \<Longrightarrow> encodes_row vs u \<Longrightarrow> encodes_row (v # vs) (t @ CHR '','' # u)"

definition line_end :: "string \<Rightarrow> bool" where
  "line_end eol \<longleftrightarrow> eol = [LF] \<or> eol = [CR, LF]"

inductive encodes_doc :: "string list list \<Rightarrow> string \<Rightarrow> bool" where
  doc_nil: "encodes_doc [] []"
| doc_row: "encodes_row r t \<Longrightarrow> line_end eol \<Longrightarrow> encodes_doc rs u \<Longrightarrow>
     encodes_doc (r # rs) (t @ eol @ u)"

text \<open>
  The line end of the last row may be missing. (A last row of one empty bare cell is then no text at all, and
  cannot be told from no row.)
\<close>

inductive encodes_file :: "string list list \<Rightarrow> string \<Rightarrow> bool" where
  terminated: "encodes_doc rs t \<Longrightarrow> encodes_file rs t"
| unterminated: "encodes_doc rs t \<Longrightarrow> encodes_row r u \<Longrightarrow> u \<noteq> [] \<Longrightarrow> encodes_file (rs @ [r]) (t @ u)"

section \<open>Steps of the loop\<close>

lemmas csv_state_simps = end_field_def end_row_def push_cell_def Let_def

lemma csv_bare:
  "\<not> in_quotes st \<Longrightarrow> list_all (\<lambda>c. \<not> csv_special c) v \<Longrightarrow>
     csv_loop st (v @ r) = csv_loop (st\<lparr>cs_cell := cs_cell st @ v, field_started := field_started st \<or> v \<noteq> []\<rparr>) r"
proof (induction v arbitrary: st)
  case Nil
  then show ?case by simp
next
  case (Cons c v)
  let ?st = "(push_cell c st)\<lparr>field_started := True\<rparr>"
  have "csv_loop st ((c # v) @ r) = csv_loop ?st (v @ r)"
    using Cons.prems by (simp add: csv_special_def)
  moreover have "csv_loop ?st (v @ r) = csv_loop (?st\<lparr>cs_cell := cs_cell ?st @ v, field_started := True\<rparr>) r"
    using Cons.IH [of ?st] Cons.prems by (auto simp: push_cell_def)
  ultimately show ?case by (simp add: push_cell_def)
qed

lemma csv_in_quotes:
  assumes "\<And>t. r \<noteq> DQ # t"
  shows "in_quotes st \<Longrightarrow>
     csv_loop st (double_quotes v @ DQ # r) =
       csv_loop (st\<lparr>cs_cell := cs_cell st @ v, in_quotes := False\<rparr>) r"
proof (induction v arbitrary: st)
  case Nil
  then show ?case using assms by (auto split: list.splits)
next
  case (Cons c v)
  then show ?case by (simp add: push_cell_def)
qed

lemma csv_cell:
  assumes "encodes_cell v t" and "\<not> in_quotes st" and "cs_cell st = []" and "\<And>u. r \<noteq> DQ # u"
  shows "csv_loop st (t @ r) = csv_loop (st\<lparr>cs_cell := v, field_started := field_started st \<or> t \<noteq> []\<rparr>) r"
  using assms(1)
proof (cases rule: encodes_cell.cases)
  case bare
  then show ?thesis using csv_bare [of st v r] assms(2,3) by simp
next
  case quoted_cell
  let ?st = "st\<lparr>in_quotes := True, field_started := True\<rparr>"
  have "csv_loop st (t @ r) = csv_loop ?st (double_quotes v @ DQ # r)"
    using assms(2) by (simp add: quoted_cell)
  also have "\<dots> = csv_loop (?st\<lparr>cs_cell := cs_cell ?st @ v, in_quotes := False\<rparr>) r"
    by (rule csv_in_quotes [OF assms(4)]) simp
  also have "?st\<lparr>cs_cell := cs_cell ?st @ v, in_quotes := False\<rparr>
             = st\<lparr>cs_cell := v, field_started := field_started st \<or> t \<noteq> []\<rparr>"
    using assms(2,3) quoted_cell by (cases st) simp
  finally show ?thesis .
qed

lemma csv_comma:
  "\<not> in_quotes st \<Longrightarrow>
     csv_loop st (CHR '','' # s) = csv_loop ((end_field st)\<lparr>field_started := True\<rparr>) s"
  by simp

lemma csv_row:
  assumes "encodes_row vs t" and "\<not> in_quotes st" and "cs_cell st = []" and "\<And>u. r \<noteq> DQ # u"
  shows "csv_loop st (t @ r) =
     csv_loop (st\<lparr>cs_row := cs_row st @ butlast vs, cs_cell := last vs, field_started := field_started st \<or> t \<noteq> []\<rparr>) r"
  using assms
proof (induction arbitrary: st rule: encodes_row.induct)
  case (single v t)
  from csv_cell [OF single] show ?case by simp
next
  case (more v t vs u)
  have vs: "vs \<noteq> []" using more.hyps(2) by (cases rule: encodes_row.cases) auto
  let ?fs = "field_started st \<or> t \<noteq> []"
  have "csv_loop st (t @ CHR '','' # u @ r) =
      csv_loop (st\<lparr>cs_cell := v, field_started := ?fs\<rparr>) (CHR '','' # u @ r)"
    using csv_cell [OF more.hyps(1) more.prems(1,2), of "CHR '','' # u @ r"] by auto
  also have "\<dots> = csv_loop ((end_field (st\<lparr>cs_cell := v, field_started := ?fs\<rparr>))\<lparr>field_started := True\<rparr>) (u @ r)"
    by (rule csv_comma) (use more.prems in simp)
  finally have step: "csv_loop st ((t @ CHR '','' # u) @ r) = csv_loop (st\<lparr>cs_row := cs_row st @ [v], cs_cell := [], field_started := True\<rparr>) (u @ r)"
    by (simp add: end_field_def)
  then show ?case
    using more.IH [of "st\<lparr>cs_row := cs_row st @ [v], cs_cell := [], field_started := True\<rparr>"] more.prems vs
    by simp
qed

lemma csv_line_end:
  assumes "line_end eol" and "\<not> in_quotes st"
  shows "csv_loop st (eol @ s) = csv_loop (end_row st) s"
  using assms by (auto simp: line_end_def)

lemma line_end_not_DQ: "line_end eol \<Longrightarrow> eol @ s \<noteq> DQ # u"
  by (auto simp: line_end_def)

lemma encodes_row_nonempty: "encodes_row vs t \<Longrightarrow> vs \<noteq> []"
  by (cases rule: encodes_row.cases) auto

definition between_rows :: "csv_state \<Rightarrow> bool" where
  "between_rows st \<longleftrightarrow> \<not> in_quotes st \<and> cs_cell st = [] \<and> cs_row st = [] \<and> \<not> field_started st"

lemma csv_doc:
  assumes "encodes_doc rs t"
  shows "between_rows st \<Longrightarrow> csv_loop st (t @ w) = csv_loop (st\<lparr>cs_rows := cs_rows st @ rs\<rparr>) w"
  using assms
proof (induction arbitrary: st rule: encodes_doc.induct)
  case doc_nil
  then show ?case by simp
next
  case (doc_row r t eol rs u)
  let ?r = "st\<lparr>cs_row := butlast r, cs_cell := last r, field_started := t \<noteq> []\<rparr>"
  have step: "csv_loop st (t @ eol @ u @ w) = csv_loop ?r (eol @ u @ w)"
    using csv_row [OF doc_row.hyps(1) _ _ line_end_not_DQ [OF doc_row.hyps(2)], of st "u @ w"]
      doc_row.prems by (simp add: between_rows_def)
  let ?st = "st\<lparr>cs_rows := cs_rows st @ [r]\<rparr>"
  have "csv_loop ?r (eol @ u @ w) = csv_loop (end_row ?r) (u @ w)"
    by (rule csv_line_end [OF doc_row.hyps(2)]) (use doc_row.prems in \<open>simp add: between_rows_def\<close>)
  also have "end_row ?r = ?st"
    using encodes_row_nonempty [OF doc_row.hyps(1)] doc_row.prems
    by (cases st) (simp add: end_row_def end_field_def between_rows_def)
  also have "csv_loop ?st (u @ w) = csv_loop (?st\<lparr>cs_rows := cs_rows ?st @ rs\<rparr>) w"
    by (rule doc_row.IH) (use doc_row.prems in \<open>simp add: between_rows_def\<close>)
  finally show ?case using step by simp
qed

lemma csv_init_between: "between_rows (csv_init\<lparr>cs_rows := rs\<rparr>)" "between_rows csv_init"
  by (simp_all add: between_rows_def csv_init_def)

section \<open>The parser inverts every encoding\<close>

text \<open>
  C21: For every table encoded as RFC 4180 says, each cell bare or quoted at the writer's choice, each row
  ended by LF or CRLF, and the line end of the last row present or missing, the parser returns
  exactly the rows of the table.
\<close>

theorem Parse_inverts_encoding:
  assumes "encodes_file rows text"
  shows "Parse text = rows"
  using assms
proof cases
  case terminated
  then show ?thesis
    using csv_doc [OF terminated csv_init_between(2), of "[]"] by (simp add: Parse_def csv_init_def)
next
  case (unterminated rs t r u)
  let ?st = "csv_init\<lparr>cs_rows := rs, cs_row := butlast r, cs_cell := last r, field_started := True\<rparr>"
  have "csv_loop csv_init (t @ u) = csv_loop (csv_init\<lparr>cs_rows := rs\<rparr>) (u @ [])"
    using csv_doc [OF unterminated(3) csv_init_between(2), of u] by (simp add: csv_init_def)
  also have "\<dots> = ?st"
    using csv_row [OF unterminated(4), of "csv_init\<lparr>cs_rows := rs\<rparr>" "[]"] unterminated(5)
    by (simp add: csv_init_def)
  finally show ?thesis
    using encodes_row_nonempty [OF unterminated(4)]
    by (simp add: Parse_def unterminated(1,2) csv_init_def end_row_def end_field_def)
qed

lemma example_doc:
  "encodes_doc [[''Id'', ''Name''], [''1'', [DQ, CHR '','', LF]]]
     (''Id,Name'' @ [CR, LF] @ ''1,'' @ [DQ, DQ, DQ, CHR '','', LF, DQ, LF])"
proof -
  have h: "encodes_row [''Id'', ''Name''] (''Id'' @ CHR '','' # ''Name'')"
    by (intro encodes_row.intros encodes_cell.bare) (simp_all add: csv_special_def)
  have c: "encodes_cell [DQ, CHR '','', LF] (DQ # double_quotes [DQ, CHR '','', LF] @ [DQ])"
    by (rule encodes_cell.quoted_cell)
  have r: "encodes_row [''1'', [DQ, CHR '','', LF]]
      (''1'' @ CHR '','' # DQ # double_quotes [DQ, CHR '','', LF] @ [DQ])"
    by (intro encodes_row.more encodes_row.single encodes_cell.bare c) (simp add: csv_special_def)
  have "encodes_doc [[''Id'', ''Name''], [''1'', [DQ, CHR '','', LF]]]
     ((''Id'' @ CHR '','' # ''Name'') @ [CR, LF] @
      (''1'' @ CHR '','' # DQ # double_quotes [DQ, CHR '','', LF] @ [DQ]) @ [LF] @ [])"
    by (intro encodes_doc.intros h r) (simp_all add: line_end_def)
  then show ?thesis by simp
qed

theorem Parse_inverts_encoding_witness:
  "Parse (''Id,Name'' @ [CR, LF] @ ''1,'' @ [DQ, DQ, DQ, CHR '','', LF, DQ, LF] @ ''2,'' @ [DQ, DQ])
     = [[''Id'', ''Name''], [''1'', [DQ, CHR '','', LF]], [''2'', []]]"
proof -
  have r: "encodes_row [''2'', []] (''2'' @ CHR '','' # DQ # double_quotes [] @ [DQ])"
    by (intro encodes_row.intros encodes_cell.bare encodes_cell.quoted_cell) (simp add: csv_special_def)
  from Parse_inverts_encoding [OF unterminated [OF example_doc r]] show ?thesis by simp
qed

end
