(* ===== verification/SF_Diag.thy ===== *)
theory SF_Diag
  imports SF_Types
begin

text \<open>
  The process-wide diagnostics: the last-scan cost snapshot (\<^verbatim>\<open>salesforce_diag.cpp\<close>), the
  last-SOQL, page, Bulk-body, transport and call-counter diagnostics (the second half of
  \<^verbatim>\<open>salesforce_soql.cpp\<close>) and the last quota decision (\<^verbatim>\<open>salesforce_quota.cpp\<close>). All are
  global variables behind mutexes; every access is one lock-protected step, so a run is a
  sequence of the operations below on the record \<open>globals\<close>.

  Each diagnostic has a table function that emits its value once. They share one contract,
  the locale \<open>diagnostic_function\<close>: one row that fits the declared columns, then nothing.
\<close>

section \<open>State\<close>

record DiagExplainItem =
  it_role :: string
  it_field :: string
  it_field_known :: bool
  it_pushed :: bool
  it_residual :: bool
  it_relationship_name :: string
  it_reference_to :: "string list"

definition empty_item :: DiagExplainItem where
  "empty_item = \<lparr> it_role = [], it_field = [], it_field_known = False, it_pushed = False,
     it_residual = False, it_relationship_name = [], it_reference_to = [] \<rparr>"

record ScanCost =
  sc_object :: string
  sc_soql :: string
  sc_transport :: string
  sc_est_rows :: int
  sc_transport_reason :: string
  sc_projected_fields :: int
  sc_total_fields :: int
  sc_pushed_filters :: int
  sc_residual_filters :: int
  sc_where_pushed :: string
  sc_pages_fetched :: int
  sc_rows_emitted :: int
  sc_bulk :: bool
  sc_count_pushdown :: bool
  sc_bulk_chunks :: int
  sc_bulk_polls :: int
  sc_query_mode :: string
  sc_quota_consulted :: bool
  sc_quota_remaining :: int
  sc_quota_allowed :: bool
  sc_catalog_alias :: string
  sc_explain_items :: "DiagExplainItem list"

definition empty_cost :: ScanCost where
  "empty_cost = \<lparr> sc_object = [], sc_soql = [], sc_transport = [], sc_est_rows = - 1,
     sc_transport_reason = [], sc_projected_fields = 0, sc_total_fields = 0, sc_pushed_filters = 0,
     sc_residual_filters = 0, sc_where_pushed = [], sc_pages_fetched = - 1, sc_rows_emitted = 0,
     sc_bulk = False, sc_count_pushdown = False, sc_bulk_chunks = 1, sc_bulk_polls = - 1,
     sc_query_mode = ''query'', sc_quota_consulted = False, sc_quota_remaining = - 1,
     sc_quota_allowed = False, sc_catalog_alias = [], sc_explain_items = [] \<rparr>"

record SalesforceQuotaSnapshot =
  qs_available :: bool
  qs_api_max :: int
  qs_api_remaining :: int
  qs_bulk_max :: int
  qs_bulk_remaining :: int

record quota_decision =
  qd_limit_name :: string
  qd_max :: int
  qd_remaining :: int
  qd_threshold :: int
  qd_allowed :: bool
  qd_reason :: string

record globals =
  g_last_soql :: string
  g_last_scan_pages :: int
  g_last_bulk_create_body :: string
  g_last_transport :: string
  g_last_est_rows :: int
  g_last_transport_reason :: string
  g_describe_calls :: int
  g_tooling_calls :: int
  g_global_describe_calls :: int
  g_cost :: ScanCost
  g_cache :: "string \<rightharpoonup> SalesforceQuotaSnapshot \<times> int"
  g_last_quota :: quota_decision

definition initial_globals :: globals where
  "initial_globals = \<lparr> g_last_soql = [], g_last_scan_pages = 0, g_last_bulk_create_body = [],
     g_last_transport = [], g_last_est_rows = - 1, g_last_transport_reason = [], g_describe_calls = 0,
     g_tooling_calls = 0, g_global_describe_calls = 0, g_cost = empty_cost, g_cache = Map.empty,
     g_last_quota = \<lparr> qd_limit_name = [], qd_max = - 1, qd_remaining = - 1, qd_threshold = - 1,
                     qd_allowed = True, qd_reason = [] \<rparr> \<rparr>"

section \<open>Setters\<close>

definition SetLastSoql :: "string \<Rightarrow> globals \<Rightarrow> globals" where
  "SetLastSoql soql g = g \<lparr> g_last_soql := soql \<rparr>"

definition SetLastScanPages :: "int \<Rightarrow> globals \<Rightarrow> globals" where
  "SetLastScanPages pages g = g \<lparr> g_last_scan_pages := pages \<rparr>"

definition SetLastBulkCreateBody :: "string \<Rightarrow> globals \<Rightarrow> globals" where
  "SetLastBulkCreateBody bd g =
     (let old = g_last_bulk_create_body g
      in g \<lparr> g_last_bulk_create_body := (if old = [] then old else old @ [LF]) @ bd \<rparr>)"

definition ResetBulkCreateBodies :: "globals \<Rightarrow> globals" where
  "ResetBulkCreateBodies g = g \<lparr> g_last_bulk_create_body := [] \<rparr>"

definition SetLastTransport :: "string \<Rightarrow> int \<Rightarrow> string \<Rightarrow> globals \<Rightarrow> globals" where
  "SetLastTransport tr est reason g =
     g \<lparr> g_last_transport := tr, g_last_est_rows := est, g_last_transport_reason := reason \<rparr>"

definition ResetDescribeCalls :: "globals \<Rightarrow> globals" where
  "ResetDescribeCalls g = g \<lparr> g_describe_calls := 0 \<rparr>"

definition IncDescribeCalls :: "globals \<Rightarrow> globals" where
  "IncDescribeCalls g = g \<lparr> g_describe_calls := g_describe_calls g + 1 \<rparr>"

definition ResetToolingCalls :: "globals \<Rightarrow> globals" where
  "ResetToolingCalls g = g \<lparr> g_tooling_calls := 0 \<rparr>"

definition IncToolingCalls :: "globals \<Rightarrow> globals" where
  "IncToolingCalls g = g \<lparr> g_tooling_calls := g_tooling_calls g + 1 \<rparr>"

definition ResetGlobalDescribeCalls :: "globals \<Rightarrow> globals" where
  "ResetGlobalDescribeCalls g = g \<lparr> g_global_describe_calls := 0 \<rparr>"

definition IncGlobalDescribeCalls :: "globals \<Rightarrow> globals" where
  "IncGlobalDescribeCalls g = g \<lparr> g_global_describe_calls := g_global_describe_calls g + 1 \<rparr>"

definition DiagRecordScan ::
  "string \<Rightarrow> string \<Rightarrow> string \<Rightarrow> int \<Rightarrow> string \<Rightarrow> int \<Rightarrow> int \<Rightarrow> int \<Rightarrow> int \<Rightarrow> string \<Rightarrow> bool \<Rightarrow> int \<Rightarrow> bool \<Rightarrow> string \<Rightarrow>
   globals \<Rightarrow> globals" where
  "DiagRecordScan object soql tr est_rows tr_reason projected total_flds pushed residual where_pushed is_bulk
       pages_init count_pushdown qmode g =
     g \<lparr> g_cost := empty_cost \<lparr> sc_object := object, sc_soql := soql, sc_transport := tr,
        sc_est_rows := est_rows, sc_transport_reason := tr_reason, sc_projected_fields := projected,
        sc_total_fields := total_flds, sc_pushed_filters := pushed, sc_residual_filters := residual,
        sc_where_pushed := where_pushed, sc_bulk := is_bulk, sc_pages_fetched := pages_init,
        sc_count_pushdown := count_pushdown, sc_query_mode := qmode \<rparr> \<rparr>"

definition DiagReset :: "globals \<Rightarrow> globals" where
  "DiagReset g = g \<lparr> g_cost := empty_cost \<rparr>"

definition DiagSetExplain :: "string \<Rightarrow> DiagExplainItem list \<Rightarrow> globals \<Rightarrow> globals" where
  "DiagSetExplain alias items g =
     g \<lparr> g_cost := g_cost g \<lparr> sc_catalog_alias := alias, sc_explain_items := items \<rparr> \<rparr>"

record DiagExplainSnapshot =
  sn_object :: string
  sn_catalog_alias :: string
  sn_items :: "DiagExplainItem list"
  sn_transport :: string
  sn_transport_reason :: string
  sn_count_pushdown :: bool
  sn_query_mode :: string
  sn_est_rows :: int

definition DiagGetExplain :: "globals \<Rightarrow> DiagExplainSnapshot" where
  "DiagGetExplain g =
     (let c = g_cost g
      in \<lparr> sn_object = sc_object c, sn_catalog_alias = sc_catalog_alias c, sn_items = sc_explain_items c,
           sn_transport = sc_transport c, sn_transport_reason = sc_transport_reason c,
           sn_count_pushdown = sc_count_pushdown c, sn_query_mode = sc_query_mode c,
           sn_est_rows = sc_est_rows c \<rparr>)"

definition DiagSetPages :: "int \<Rightarrow> globals \<Rightarrow> globals" where
  "DiagSetPages pages g = g \<lparr> g_cost := g_cost g \<lparr> sc_pages_fetched := pages \<rparr> \<rparr>"

definition DiagSetBulkChunks :: "int \<Rightarrow> globals \<Rightarrow> globals" where
  "DiagSetBulkChunks chunks g = g \<lparr> g_cost := g_cost g \<lparr> sc_bulk_chunks := chunks \<rparr> \<rparr>"

definition DiagSetBulkPolls :: "int \<Rightarrow> globals \<Rightarrow> globals" where
  "DiagSetBulkPolls polls g = g \<lparr> g_cost := g_cost g \<lparr> sc_bulk_polls := polls \<rparr> \<rparr>"

definition DiagAddRowsEmitted :: "int \<Rightarrow> globals \<Rightarrow> globals" where
  "DiagAddRowsEmitted rows g =
     g \<lparr> g_cost := g_cost g \<lparr> sc_rows_emitted := sc_rows_emitted (g_cost g) + rows \<rparr> \<rparr>"

definition DiagSetQuota :: "int \<Rightarrow> bool \<Rightarrow> globals \<Rightarrow> globals" where
  "DiagSetQuota remaining allowed g =
     g \<lparr> g_cost := g_cost g \<lparr> sc_quota_consulted := True, sc_quota_remaining := remaining,
                             sc_quota_allowed := allowed \<rparr> \<rparr>"

definition RecordDecision :: "string \<Rightarrow> int \<Rightarrow> int \<Rightarrow> int \<Rightarrow> bool \<Rightarrow> string \<Rightarrow> globals \<Rightarrow> globals" where
  "RecordDecision limit_name mx rem thr allowed reason g =
     g \<lparr> g_last_quota := \<lparr> qd_limit_name = limit_name, qd_max = mx, qd_remaining = rem, qd_threshold = thr,
                          qd_allowed = allowed, qd_reason = reason \<rparr> \<rparr>"

lemmas diag_setter_defs =
  SetLastSoql_def SetLastScanPages_def SetLastBulkCreateBody_def ResetBulkCreateBodies_def
  SetLastTransport_def ResetDescribeCalls_def IncDescribeCalls_def ResetToolingCalls_def
  IncToolingCalls_def ResetGlobalDescribeCalls_def IncGlobalDescribeCalls_def DiagRecordScan_def
  DiagReset_def DiagSetExplain_def DiagSetPages_def DiagSetBulkChunks_def DiagSetBulkPolls_def
  DiagAddRowsEmitted_def DiagSetQuota_def RecordDecision_def

section \<open>Guidance\<close>

definition opt_hint :: "bool \<Rightarrow> string \<Rightarrow> string list" where
  "opt_hint b h = (if b then [h] else [])"

definition guidance_hints :: "ScanCost \<Rightarrow> string list" where
  "guidance_hints c =
     [if sc_where_pushed c \<noteq> [] then ''Salesforce is filtering server-side (predicate pushed to SOQL)''
      else ''no predicate pushed to SOQL '' @ emdash @ '' full-object scan; add a filterable WHERE'']
     @ opt_hint (sc_residual_filters c > 0)
         (''DuckDB is filtering after a full remote scan: '' @ show_int (sc_residual_filters c)
          @ '' filter(s) applied residually (not server-filterable) '' @ emdash @ '' over-fetch'')
     @ opt_hint (sc_bulk c \<and> sc_where_pushed c = [])
         (''Bulk full-object read with no pushed predicate '' @ emdash @ '' for a large backfill, split by ''
          @ ''CreatedDate/SystemModstamp windows, or set sf_bulk_require_predicate to enforce it'')
     @ opt_hint (sc_total_fields c > 0 \<and> sc_projected_fields c \<ge> sc_total_fields c)
         (''all fields projected '' @ emdash @ '' SELECT fewer columns to cut egress'')
     @ opt_hint (sc_bulk c)
         (''Bulk job completes server-side first; result pages stream lazily; LIMIT is not server-side'')
     @ opt_hint (sc_count_pushdown c)
         (''count pushdown: emitted '' @ show_int (sc_rows_emitted c)
          @ '' rows from SELECT COUNT(), no records fetched'')"

definition BuildGuidance :: "ScanCost \<Rightarrow> string" where
  "BuildGuidance c =
     (let hints = guidance_hints c
      in sep_by ''; '' (if hints = [] then [''ok: predicate + projection pushed down''] else hints))"

section \<open>The table functions\<close>

text \<open>
  A call gets the flag \<^verbatim>\<open>emitted\<close> of its own scan state and the globals, and returns the rows of
  the chunk and the new flag.
\<close>

type_synonym diag_function = "bool \<Rightarrow> globals \<Rightarrow> cell list list \<times> bool"

definition emit_once :: "(globals \<Rightarrow> cell list) \<Rightarrow> diag_function" where
  "emit_once row emitted g = (if emitted then ([], emitted) else ([row g], True))"

definition IntOrNull :: "int \<Rightarrow> cell" where
  "IntOrNull v = (if v < 0 then CNull else CBigint v)"

definition LastSoqlBind :: "(string \<times> LogicalType) list" where
  "LastSoqlBind = [(''soql'', VARCHAR)]"

definition LastSoqlFunction :: diag_function where
  "LastSoqlFunction = emit_once (\<lambda>g. [CVarchar (g_last_soql g)])"

definition LastPagesBind :: "(string \<times> LogicalType) list" where
  "LastPagesBind = [(''pages'', BIGINT)]"

definition LastPagesFunction :: diag_function where
  "LastPagesFunction = emit_once (\<lambda>g. [CBigint (g_last_scan_pages g)])"

definition LastBulkBodyBind :: "(string \<times> LogicalType) list" where
  "LastBulkBodyBind = [(''body'', VARCHAR)]"

definition LastBulkBodyFunction :: diag_function where
  "LastBulkBodyFunction = emit_once (\<lambda>g. [CVarchar (g_last_bulk_create_body g)])"

definition LastTransportBind :: "(string \<times> LogicalType) list" where
  "LastTransportBind = [(''transport'', VARCHAR), (''est_rows'', BIGINT), (''reason'', VARCHAR)]"

definition LastTransportFunction :: diag_function where
  "LastTransportFunction =
     emit_once (\<lambda>g. [CVarchar (g_last_transport g), IntOrNull (g_last_est_rows g),
                     CVarchar (g_last_transport_reason g)])"

definition CallsBind :: "(string \<times> LogicalType) list" where
  "CallsBind = [(''calls'', BIGINT)]"

definition DescribeCallsFunction :: diag_function where
  "DescribeCallsFunction = emit_once (\<lambda>g. [CBigint (g_describe_calls g)])"

definition ToolingCallsFunction :: diag_function where
  "ToolingCallsFunction = emit_once (\<lambda>g. [CBigint (g_tooling_calls g)])"

definition GlobalCallsFunction :: diag_function where
  "GlobalCallsFunction = emit_once (\<lambda>g. [CBigint (g_global_describe_calls g)])"

definition LastQuotaBind :: "(string \<times> LogicalType) list" where
  "LastQuotaBind = [(''limit_name'', VARCHAR), (''max'', BIGINT), (''remaining'', BIGINT),
     (''threshold'', BIGINT), (''allowed'', BOOLEAN), (''reason'', VARCHAR)]"

definition LastQuotaFunction :: diag_function where
  "LastQuotaFunction =
     emit_once (\<lambda>g. let q = g_last_quota g in
       [CVarchar (qd_limit_name q), IntOrNull (qd_max q), IntOrNull (qd_remaining q),
        IntOrNull (qd_threshold q), CBoolean (qd_allowed q), CVarchar (qd_reason q)])"

definition QueryCostBind :: "(string \<times> LogicalType) list" where
  "QueryCostBind = zip
     [''object'', ''soql'', ''transport'', ''est_rows'', ''transport_reason'', ''projected_fields'',
      ''total_fields'', ''pushed_filters'', ''residual_filters'', ''where_pushed'', ''pages_fetched'', ''rows_emitted'',
      ''bulk'', ''count_pushdown'', ''bulk_chunks'', ''query_mode'', ''quota_remaining'', ''quota_allowed'',
      ''guidance'', ''bulk_polls'']
     [VARCHAR, VARCHAR, VARCHAR, BIGINT, VARCHAR, BIGINT, BIGINT, BIGINT, BIGINT, VARCHAR, BIGINT, BIGINT,
      BOOLEAN, BOOLEAN, BIGINT, VARCHAR, BIGINT, BOOLEAN, VARCHAR, BIGINT]"

definition QueryCostFunction :: diag_function where
  "QueryCostFunction =
     emit_once (\<lambda>g. let c = g_cost g in
       [CVarchar (sc_object c), CVarchar (sc_soql c), CVarchar (sc_transport c), IntOrNull (sc_est_rows c),
        CVarchar (sc_transport_reason c), CBigint (sc_projected_fields c), CBigint (sc_total_fields c),
        CBigint (sc_pushed_filters c), CBigint (sc_residual_filters c), CVarchar (sc_where_pushed c),
        IntOrNull (sc_pages_fetched c), CBigint (sc_rows_emitted c), CBoolean (sc_bulk c),
        CBoolean (sc_count_pushdown c), CBigint (sc_bulk_chunks c), CVarchar (sc_query_mode c)]
       @ (if sc_quota_consulted c then [IntOrNull (sc_quota_remaining c), CBoolean (sc_quota_allowed c)]
          else [CNull, CNull])
       @ [CVarchar (BuildGuidance c), IntOrNull (sc_bulk_polls c)])"

section \<open>The contract of a diagnostic function\<close>

fun fits :: "cell \<Rightarrow> LogicalType \<Rightarrow> bool" where
  "fits CNull t \<longleftrightarrow> True"
| "fits (CVarchar _) t \<longleftrightarrow> t = VARCHAR"
| "fits (CBigint _) t \<longleftrightarrow> t = BIGINT"
| "fits (CBoolean _) t \<longleftrightarrow> t = BOOLEAN"
| "fits _ t \<longleftrightarrow> False"

text \<open>The rows of consecutive calls of one scan; the globals may change between the calls.\<close>

fun drain :: "diag_function \<Rightarrow> bool \<Rightarrow> globals list \<Rightarrow> cell list list" where
  "drain f emitted [] = []"
| "drain f emitted (g # gs) = (case f emitted g of (rows, emitted') \<Rightarrow> rows @ drain f emitted' gs)"

locale diagnostic_function =
  fixes f :: diag_function and schema :: "(string \<times> LogicalType) list" and row :: "globals \<Rightarrow> cell list"
  assumes first_call: "f False g = ([row g], True)"
    and later_calls: "f True g = ([], True)"
    and row_fits: "list_all2 fits (row g) (map snd schema)"
begin

lemma drained: "drain f True gs = []"
  by (induction gs) (simp_all add: later_calls)

lemma one_row: "drain f False (g # gs) = [row g]"
  by (simp add: first_call drained)

lemma width: "length (row g) = length schema"
  using row_fits [of g] by (simp add: list_all2_lengthD)

end

lemma emit_once_contract:
  "(\<And>g. list_all2 fits (row g) (map snd schema)) \<Longrightarrow> diagnostic_function (emit_once row) schema row"
  by unfold_locales (simp_all add: emit_once_def)

interpretation last_soql: diagnostic_function LastSoqlFunction LastSoqlBind "\<lambda>g. [CVarchar (g_last_soql g)]"
  unfolding LastSoqlFunction_def by (rule emit_once_contract) (simp add: LastSoqlBind_def)

interpretation last_pages: diagnostic_function LastPagesFunction LastPagesBind "\<lambda>g. [CBigint (g_last_scan_pages g)]"
  unfolding LastPagesFunction_def by (rule emit_once_contract) (simp add: LastPagesBind_def)

interpretation last_bulk: diagnostic_function LastBulkBodyFunction LastBulkBodyBind
  "\<lambda>g. [CVarchar (g_last_bulk_create_body g)]"
  unfolding LastBulkBodyFunction_def by (rule emit_once_contract) (simp add: LastBulkBodyBind_def)

interpretation last_transport: diagnostic_function LastTransportFunction LastTransportBind
  "\<lambda>g. [CVarchar (g_last_transport g), IntOrNull (g_last_est_rows g), CVarchar (g_last_transport_reason g)]"
  unfolding LastTransportFunction_def
  by (rule emit_once_contract) (simp add: LastTransportBind_def IntOrNull_def)

interpretation describe_calls: diagnostic_function DescribeCallsFunction CallsBind "\<lambda>g. [CBigint (g_describe_calls g)]"
  unfolding DescribeCallsFunction_def by (rule emit_once_contract) (simp add: CallsBind_def)

interpretation tooling_calls: diagnostic_function ToolingCallsFunction CallsBind "\<lambda>g. [CBigint (g_tooling_calls g)]"
  unfolding ToolingCallsFunction_def by (rule emit_once_contract) (simp add: CallsBind_def)

interpretation global_calls: diagnostic_function GlobalCallsFunction CallsBind
  "\<lambda>g. [CBigint (g_global_describe_calls g)]"
  unfolding GlobalCallsFunction_def by (rule emit_once_contract) (simp add: CallsBind_def)

interpretation last_quota: diagnostic_function LastQuotaFunction LastQuotaBind
  "\<lambda>g. let q = g_last_quota g in
     [CVarchar (qd_limit_name q), IntOrNull (qd_max q), IntOrNull (qd_remaining q),
      IntOrNull (qd_threshold q), CBoolean (qd_allowed q), CVarchar (qd_reason q)]"
  unfolding LastQuotaFunction_def
  by (rule emit_once_contract) (simp add: LastQuotaBind_def IntOrNull_def Let_def)

definition cost_row :: "ScanCost \<Rightarrow> cell list" where
  "cost_row c = fst (QueryCostFunction False (initial_globals \<lparr> g_cost := c \<rparr>)) ! 0"

interpretation query_cost: diagnostic_function QueryCostFunction QueryCostBind "\<lambda>g. cost_row (g_cost g)"
proof
  fix g
  show "QueryCostFunction False g = ([cost_row (g_cost g)], True)" "QueryCostFunction True g = ([], True)"
    by (simp_all add: QueryCostFunction_def emit_once_def cost_row_def Let_def)
  show "list_all2 fits (cost_row (g_cost g)) (map snd QueryCostBind)"
    by (simp add: QueryCostBind_def cost_row_def QueryCostFunction_def emit_once_def IntOrNull_def Let_def)
qed

text \<open>
  The query-cost function. However often a scan of \<^verbatim>\<open>salesforce_query_cost()\<close> is called and
  whatever the other scans do to the snapshot meanwhile, it emits exactly one row, that of the
  snapshot at its first call, with 20 cells that fit the declared column types.
\<close>

theorem QueryCost_one_row:
  "drain QueryCostFunction False (g # gs) = [cost_row (g_cost g)] \<and>
   list_all2 fits (cost_row (g_cost g)) (map snd QueryCostBind) \<and> length (cost_row (g_cost g)) = 20"
  using query_cost.one_row [of g gs] query_cost.row_fits [of g] query_cost.width [of g]
  by (simp add: QueryCostBind_def)

text \<open>
  The guidance is never the all-clear. The first hint is always present, so the fallback text
  \<^verbatim>\<open>ok: predicate + projection pushed down\<close> cannot be reached: the guidance of every
  snapshot starts with the server-side or with the full-scan hint.
\<close>

theorem BuildGuidance_never_ok:
  "prefix (if sc_where_pushed c \<noteq> [] then ''Salesforce is filtering'' else ''no predicate pushed'') (BuildGuidance c)"
proof -
  have "\<exists>hs. guidance_hints c =
      (if sc_where_pushed c \<noteq> [] then ''Salesforce is filtering server-side (predicate pushed to SOQL)''
       else ''no predicate pushed to SOQL '' @ emdash @ '' full-object scan; add a filterable WHERE'') # hs"
    by (simp add: guidance_hints_def)
  then obtain hs where hs: "guidance_hints c =
      (if sc_where_pushed c \<noteq> [] then ''Salesforce is filtering server-side (predicate pushed to SOQL)''
       else ''no predicate pushed to SOQL '' @ emdash @ '' full-object scan; add a filterable WHERE'') # hs" by blast
  show ?thesis unfolding BuildGuidance_def hs Let_def by (cases hs) simp_all
qed

end
