(* ===== verification/SF_Session.thy ===== *)
theory SF_Session
  imports SF_Auth SF_Csv SF_Diag
begin

text \<open>
  The authenticated session (\<^verbatim>\<open>salesforce_session.cpp\<close>): the token it holds, the one
  401-refresh-retry around every request, and the operations the catalog and the scan call.
  The state is the outside world, the process-wide diagnostics and the session object; every
  operation is a state-and-exception computation over it.
\<close>

section \<open>State\<close>

record SalesforceSession =
  s_config :: SalesforceConfig
  s_token :: SalesforceTokenSet
  s_query_all :: bool
  s_bulk_poll_budget :: int

definition new_session :: "SalesforceConfig \<Rightarrow> SalesforceSession" where
  "new_session config = \<lparr> s_config = config, s_token = \<lparr> access_token = [], instance_url = [] \<rparr>,
     s_query_all = False, s_bulk_poll_budget = 600 \<rparr>"

definition SetToken :: "SalesforceTokenSet \<Rightarrow> SalesforceSession \<Rightarrow> SalesforceSession" where
  "SetToken ts s = s \<lparr> s_token := ts \<rparr>"

definition SetQueryAll :: "bool \<Rightarrow> SalesforceSession \<Rightarrow> SalesforceSession" where
  "SetQueryAll b s = s \<lparr> s_query_all := b \<rparr>"

definition SetBulkPollBudget :: "int \<Rightarrow> SalesforceSession \<Rightarrow> SalesforceSession" where
  "SetBulkPollBudget n s = s \<lparr> s_bulk_poll_budget := n \<rparr>"

record 'c sworld =
  w_outside :: 'c
  w_globals :: globals
  w_session :: SalesforceSession

type_synonym ('c, 'a) sess = "('c sworld, 'a) sfm"

definition outside_do :: "('c, 'a) sfm \<Rightarrow> ('c, 'a) sess" where
  "outside_do m = (\<lambda>s. case m (w_outside s) of (r, c') \<Rightarrow> (r, s \<lparr> w_outside := c' \<rparr>))"

definition globals_do :: "(globals \<Rightarrow> globals) \<Rightarrow> ('c, unit) sess" where
  "globals_do f = upd (\<lambda>s. s \<lparr> w_globals := f (w_globals s) \<rparr>)"

definition session_do :: "(SalesforceSession \<Rightarrow> SalesforceSession) \<Rightarrow> ('c, unit) sess" where
  "session_do f = upd (\<lambda>s. s \<lparr> w_session := f (w_session s) \<rparr>)"

lemma sess_run [sfm_simps]:
  "outside_do m s = (case m (w_outside s) of (r, c') \<Rightarrow> (r, s \<lparr> w_outside := c' \<rparr>))"
  "globals_do f s = (Inr (), s \<lparr> w_globals := f (w_globals s) \<rparr>)"
  "session_do h s = (Inr (), s \<lparr> w_session := h (w_session s) \<rparr>)"
  by (simp_all add: outside_do_def globals_do_def session_do_def sfm_run)

definition config_of :: "'c sworld \<Rightarrow> SalesforceConfig" where
  "config_of s = s_config (w_session s)"

section \<open>Authorised requests\<close>

definition Authenticate :: "'c external \<Rightarrow> ('c, unit) sess" where
  "Authenticate X =
     bnd (gets config_of) (\<lambda>cfg. bnd (outside_do (AcquireToken X cfg)) (\<lambda>ts. session_do (SetToken ts)))"

definition auth_request :: "SalesforceTokenSet \<Rightarrow> bool \<Rightarrow> string \<Rightarrow> string \<Rightarrow> HttpRequest" where
  "auth_request tok post path json_body =
     \<lparr> rq_url = TrimTrailingSlash (instance_url tok) @ path,
       rq_headers = [(''Authorization'', ''Bearer '' @ access_token tok), (''Accept'', ''application/json'')]
                    @ (if post then [(''Content-Type'', ''application/json'')] else []),
       rq_body = (if post then json_body else []) \<rparr>"

definition do_req :: "'c external \<Rightarrow> bool \<Rightarrow> string \<Rightarrow> string \<Rightarrow> ('c, HttpResponse) sess" where
  "do_req X post path json_body =
     bnd (gets (\<lambda>s. s_token (w_session s))) (\<lambda>tok.
       outside_do (send X (if post then POST else GET) (auth_request tok post path json_body)))"

definition unreachable :: "string \<Rightarrow> HttpResponse \<Rightarrow> sf_error" where
  "unreachable path resp = IOException
     (''salesforce: request to '' @ path @ '' failed to reach the server ('' @ transport_error resp @ '').'')"

definition auth_failed :: sf_error where
  "auth_failed = IOException ''salesforce: authentication failed (HTTP 401) after refreshing the token.''"

definition limit_exhausted :: sf_error where
  "limit_exhausted = IOException
     (''salesforce: daily API request limit exhausted (REQUEST_LIMIT_EXCEEDED). This ''
      @ ''resets at the org'' @ [SQ] @ ''s midnight and is not retried. Reduce usage, raise the org ''
      @ ''limit, or wait for the reset.'')"

definition over_limit :: "HttpResponse \<Rightarrow> bool" where
  "over_limit r \<longleftrightarrow> status r \<ge> 400 \<and> GetString (body r) ''errorCode'' = ''REQUEST_LIMIT_EXCEEDED''"

definition AuthorizedSend :: "'c external \<Rightarrow> bool \<Rightarrow> string \<Rightarrow> string \<Rightarrow> ('c, HttpResponse) sess" where
  "AuthorizedSend X post path json_body =
     bnd (do_req X post path json_body) (\<lambda>resp.
     if \<not> transport_ok resp then throw (unreachable path resp)
     else bnd (if status resp = 401 then
                 bnd (Authenticate X) (\<lambda>_.
                 bnd (do_req X post path json_body) (\<lambda>resp2.
                 if \<not> transport_ok resp2 then throw (unreachable path resp2)
                 else if status resp2 = 401 then throw auth_failed
                 else ret resp2))
               else ret resp)
            (\<lambda>r. if over_limit r then throw limit_exhausted else ret r))"

definition SalesforceRemedyHint :: "string \<Rightarrow> int \<Rightarrow> string" where
  "SalesforceRemedyHint code st =
     (if code = ''INVALID_SESSION_ID'' then
        ''session re-authenticated once already; if this recurs, the refresh ''
        @ ''token may have been revoked - re-issue it from the Connected App''
      else if code = ''REQUEST_LIMIT_EXCEEDED'' then
        ''daily API quota exhausted - inspect salesforce_last_quota() and ''
        @ ''salesforce_query_cost() to find the over-fetching scan''
      else if code = ''QUERY_TIMEOUT'' then
        ''query too selective for Salesforce - add a pushed filter on an ''
        @ ''indexed field (check salesforce_query_explain() for residual filters)''
      else if code = ''INVALID_FIELD'' then
        ''field unknown to this sObject - check salesforce_metadata_fields()''
      else if code = ''INVALID_TYPE'' then
        ''object unknown or not queryable - check salesforce_metadata_objects()''
      else if code = ''OPERATION_TOO_LARGE'' \<or> code = ''ENTITY_NOT_QUERYABLE'' then
        ''object not supported by this API path - try sf_force_transport ''
        @ ''adjustments or a narrower window''
      else if st = 429 then
        ''rate limited - the client retries automatically; consider raising '' @ ''sf_retry_backoff_ms''
      else [])"

definition request_error :: "string \<Rightarrow> HttpResponse \<Rightarrow> sf_error" where
  "request_error path resp =
     (let c = GetString (body resp) ''errorCode''; msg = GetString (body resp) ''message'';
          code = (if c = [] then ''error'' else c); hint = SalesforceRemedyHint code (status resp)
      in IOException (''salesforce: request to '' @ path @ '' failed (HTTP '' @ show_int (status resp) @ ''): '' @ code
           @ (if msg = [] then [] else '' - '') @ msg @ (if hint = [] then [] else '' HINT: '') @ hint @ ''.''))"

definition AuthorizedGet :: "'c external \<Rightarrow> string \<Rightarrow> ('c, string) sess" where
  "AuthorizedGet X path =
     bnd (AuthorizedSend X False path []) (\<lambda>resp.
       if status resp = 200 then ret (body resp) else throw (request_error path resp))"

definition data_path :: "'c sworld \<Rightarrow> string" where
  "data_path s = ''/services/data/'' @ api_version (config_of s)"

definition QueryPath :: "SalesforceSession \<Rightarrow> string \<Rightarrow> string" where
  "QueryPath ss soql =
     ''/services/data/'' @ api_version (s_config ss)
     @ (if s_query_all ss then ''/queryAll?q='' else ''/query?q='') @ UrlEncodeComponent soql"

section \<open>Probes\<close>

definition empty_snapshot :: SalesforceQuotaSnapshot where
  "empty_snapshot = \<lparr> qs_available = False, qs_api_max = - 1, qs_api_remaining = - 1,
     qs_bulk_max = - 1, qs_bulk_remaining = - 1 \<rparr>"

definition limits_of :: "string \<Rightarrow> SalesforceQuotaSnapshot" where
  "limits_of bd =
     (let api = ExtractObject bd ''DailyApiRequests''; bulk = ExtractObject bd ''DailyBulkV2QueryJobs'';
          amax = (if api = [] then - 1 else GetInt api ''Max'' (- 1));
          arem = (if api = [] then - 1 else GetInt api ''Remaining'' (- 1));
          bmax = (if bulk = [] then - 1 else GetInt bulk ''Max'' (- 1));
          brem = (if bulk = [] then - 1 else GetInt bulk ''Remaining'' (- 1))
      in \<lparr> qs_available = (amax \<ge> 0 \<and> arem \<ge> 0), qs_api_max = amax, qs_api_remaining = arem,
           qs_bulk_max = bmax, qs_bulk_remaining = brem \<rparr>)"

definition QueryLimits :: "'c external \<Rightarrow> ('c, SalesforceQuotaSnapshot) sess" where
  "QueryLimits X =
     catch_all
       (bnd (gets data_path) (\<lambda>p.
        bnd (AuthorizedSend X False (p @ ''/limits'') []) (\<lambda>resp.
        ret (if status resp \<noteq> 200 then empty_snapshot else limits_of (body resp)))))
       empty_snapshot"

definition TryEstimateCount :: "'c external \<Rightarrow> string \<Rightarrow> ('c, int option) sess" where
  "TryEstimateCount X count_soql =
     catch_all
       (bnd (gets (\<lambda>s. QueryPath (w_session s) count_soql)) (\<lambda>p.
        bnd (AuthorizedSend X False p []) (\<lambda>resp.
        ret (if status resp \<noteq> 200 then None
             else (case GetValue (body resp) ''totalSize'' of (raw, found, is_null) \<Rightarrow>
                     if \<not> found \<or> is_null then None
                     else let n = GetInt (body resp) ''totalSize'' (- 1) in if n \<ge> 0 then Some n else None)))))
       None"

definition TryAggregateQuery :: "'c external \<Rightarrow> string \<Rightarrow> ('c, string option) sess" where
  "TryAggregateQuery X soql =
     catch_all
       (bnd (gets (\<lambda>s. QueryPath (w_session s) soql)) (\<lambda>p.
        bnd (AuthorizedSend X False p []) (\<lambda>resp.
        ret (if status resp \<noteq> 200 then None
             else (case GetObjectArray (body resp) ''records'' of [] \<Rightarrow> None | r # _ \<Rightarrow> Some r)))))
       None"

definition min_max_soql :: "string \<Rightarrow> string \<Rightarrow> string" where
  "min_max_soql object wh =
     ''SELECT MIN(Id) mn, MAX(Id) mx FROM '' @ object @ (if wh = [] then [] else '' WHERE '' @ wh)"

definition min_max_of :: "string \<Rightarrow> (string \<times> string) option" where
  "min_max_of bd =
     (case GetObjectArray bd ''records'' of
        [] \<Rightarrow> None
      | r # _ \<Rightarrow>
          (case (GetValue r ''mn'', GetValue r ''mx'') of
             ((mn, fm, nm), (mx, fx, nx)) \<Rightarrow>
               if \<not> fm \<or> nm \<or> \<not> fx \<or> nx \<or> mn = [] \<or> mx = [] then None
               else if mn < mx then Some (mn, mx) else None))"

definition TryMinMaxId :: "'c external \<Rightarrow> string \<Rightarrow> string \<Rightarrow> ('c, (string \<times> string) option) sess" where
  "TryMinMaxId X object wh =
     catch_all
       (bnd (gets (\<lambda>s. QueryPath (w_session s) (min_max_soql object wh))) (\<lambda>p.
        bnd (AuthorizedSend X False p []) (\<lambda>resp.
        ret (if status resp \<noteq> 200 then None else min_max_of (body resp)))))
       None"

section \<open>Describe\<close>

definition DescribeJson :: "'c external \<Rightarrow> string \<Rightarrow> ('c, string) sess" where
  "DescribeJson X object =
     bnd (gets data_path) (\<lambda>p. AuthorizedGet X (p @ ''/sobjects/'' @ object @ ''/describe''))"

definition Describe :: "'c external \<Rightarrow> string \<Rightarrow> ('c, SalesforceDescribe) sess" where
  "Describe X object =
     bnd (DescribeJson X object) (\<lambda>bd. ret ((ParseDescribe (x_su X) bd object) \<lparr> d_object_name := object \<rparr>))"

record SalesforceObjectInfo =
  oi_name :: string
  oi_queryable :: bool

definition GlobalDescribe :: "'c external \<Rightarrow> ('c, string list) sess" where
  "GlobalDescribe X =
     bnd (gets data_path) (\<lambda>p.
     bnd (AuthorizedGet X (p @ ''/sobjects'')) (\<lambda>bd.
     ret (filter (\<lambda>n. n \<noteq> [])
            (map (\<lambda>obj. GetString obj ''name'')
               (filter (\<lambda>obj. GetBool obj ''queryable'' False) (GetObjectArray bd ''sobjects''))))))"

definition GlobalDescribeInfos :: "'c external \<Rightarrow> ('c, SalesforceObjectInfo list) sess" where
  "GlobalDescribeInfos X =
     bnd (gets data_path) (\<lambda>p.
     bnd (AuthorizedGet X (p @ ''/sobjects'')) (\<lambda>bd.
     ret (map (\<lambda>obj. \<lparr> oi_name = GetString obj ''name'', oi_queryable = GetBool obj ''queryable'' False \<rparr>)
            (filter (\<lambda>obj. GetString obj ''name'' \<noteq> []) (GetObjectArray bd ''sobjects'')))))"

definition RunReport :: "'c external \<Rightarrow> string \<Rightarrow> ('c, string) sess" where
  "RunReport X report_id =
     bnd (gets data_path) (\<lambda>p. AuthorizedGet X (p @ ''/analytics/reports/'' @ report_id @ ''?includeDetails=true''))"

definition DescribeReport :: "'c external \<Rightarrow> string \<Rightarrow> ('c, string) sess" where
  "DescribeReport X report_id =
     bnd (gets data_path) (\<lambda>p. AuthorizedGet X (p @ ''/analytics/reports/'' @ report_id @ ''/describe''))"

section \<open>Tooling describe\<close>

definition kChunk :: nat where "kChunk = 100"

definition tooling_escape :: "string \<Rightarrow> string" where
  "tooling_escape s = concat (map (\<lambda>c. if c = BSL \<or> c = SQ then [BSL, c] else [c]) s)"

definition tooling_in_list :: "string list \<Rightarrow> string" where
  "tooling_in_list names = sep_by '','' (map (\<lambda>n. [SQ] @ tooling_escape n @ [SQ]) names)"

definition tooling_soql :: "string list \<Rightarrow> string" where
  "tooling_soql names =
     ''SELECT EntityDefinition.QualifiedApiName, QualifiedApiName, DataType, ''
     @ ''IsCompound, IsFilterable FROM FieldDefinition WHERE ''
     @ ''EntityDefinition.QualifiedApiName IN ('' @ tooling_in_list names @ '')''"

text \<open>
  The brace matching that cuts the nested entity out of a record: the number of characters from
  the opening brace up to and including the one that closes it, or up to the end. Unlike
  \<open>object_len\<close> it does not look at strings.
\<close>

fun brace_span :: "int \<Rightarrow> string \<Rightarrow> nat" where
  "brace_span d [] = 0"
| "brace_span d (c # s) =
     (if c = CHR ''{'' then Suc (brace_span (d + 1) s)
      else if c = CHR ''}'' then (if d - 1 = 0 then 1 else Suc (brace_span (d - 1) s))
      else Suc (brace_span d s))"

definition strip_entity :: "string \<Rightarrow> string" where
  "strip_entity r =
     (case str_find r (quoted ''EntityDefinition'') of
        None \<Rightarrow> r
      | Some ep \<Rightarrow>
          (case str_find_at r ''{'' ep of
             None \<Rightarrow> r
           | Some br \<Rightarrow> take ep r @ drop (br + brace_span 0 (drop br r)) r))"

definition tooling_field :: "string_util \<Rightarrow> string \<Rightarrow> SalesforceField" where
  "tooling_field D flat =
     (let (ty, ok) = MapToolingDataType D (GetString flat ''DataType'')
      in SalesforceField (GetString flat ''QualifiedApiName'') (GetString flat ''DataType'') ty
           True 0 0 0 (GetBool flat ''IsFilterable'' False) False (\<not> ok) [] [] [] False [])"

type_synonym describes = "string \<rightharpoonup> SalesforceDescribe"

definition tooling_record :: "string_util \<Rightarrow> string \<Rightarrow> describes \<Rightarrow> describes" where
  "tooling_record D r out =
     (let ent = ExtractObject r ''EntityDefinition'';
          obj = (if ent = [] then [] else GetString ent ''QualifiedApiName'');
          flat = strip_entity r
      in if obj = [] \<or> GetString flat ''QualifiedApiName'' = [] then out
         else if GetBool flat ''IsCompound'' False then out
         else let key = su_Lower D obj;
                  old = (case out key of Some d \<Rightarrow> d
                         | None \<Rightarrow> \<lparr> d_object_name = [], d_fields = [], d_child_relationships = [] \<rparr>);
                  named = (if d_object_name old = [] then old \<lparr> d_object_name := obj \<rparr> else old)
              in out (key \<mapsto> named \<lparr> d_fields := d_fields named @ [tooling_field D flat] \<rparr>))"

definition kToolingGuard :: nat where "kToolingGuard = 100000"

text \<open>The pages of one chunk. \<^term>\<open>False\<close> is the early \<^verbatim>\<open>return false\<close>.\<close>

function tooling_pages ::
    "'c external \<Rightarrow> string \<Rightarrow> string list \<Rightarrow> nat \<Rightarrow> describes \<Rightarrow> ('c, bool \<times> describes) sess" where
  "tooling_pages X path seen guard out =
     bnd (globals_do IncToolingCalls) (\<lambda>_.
     bnd (AuthorizedSend X False path []) (\<lambda>resp.
     if status resp \<noteq> 200 then ret (False, out)
     else let out' = fold (tooling_record (x_su X)) (GetObjectArray (body resp) ''records'') out;
              done = GetBool (body resp) ''done'' True;
              next = GetString (body resp) ''nextRecordsUrl''
          in if done \<or> next = [] then ret (True, out')
             else if guard + 1 > kToolingGuard \<or> next \<in> set seen then ret (True, out')
             else tooling_pages X next (next # seen) (guard + 1) out'))"
  by auto
termination
  by (relation "measure (\<lambda>(X, path, seen, guard, out). kToolingGuard - guard)") auto

declare tooling_pages.simps [simp del]

function ToolingDescribe :: "'c external \<Rightarrow> string list \<Rightarrow> describes \<Rightarrow> ('c, bool \<times> describes) sess" where
  "ToolingDescribe X objects out =
     (if objects = [] then ret (True, out)
      else bnd (gets data_path) (\<lambda>p.
           bnd (tooling_pages X (p @ ''/tooling/query?q='' @ UrlEncodeComponent (tooling_soql (take kChunk objects)))
                  [] 0 out) (\<lambda>r.
           if \<not> fst r then ret r else ToolingDescribe X (drop kChunk objects) (snd r))))"
  by auto
termination
  by (relation "measure (\<lambda>(X, objects, out). length objects)") (auto simp: kChunk_def)

declare ToolingDescribe.simps [simp del]

section \<open>Queries\<close>

record SalesforceQueryPage =
  pg_records :: "string list"
  pg_next_path :: string
  pg_done :: bool

definition page_of :: "string \<Rightarrow> SalesforceQueryPage" where
  "page_of bd = \<lparr> pg_records = GetObjectArray bd ''records'', pg_next_path = GetString bd ''nextRecordsUrl'',
                  pg_done = GetBool bd ''done'' True \<rparr>"

definition FetchPage :: "'c external \<Rightarrow> string \<Rightarrow> ('c, SalesforceQueryPage) sess" where
  "FetchPage X path = bnd (AuthorizedGet X path) (\<lambda>bd. ret (page_of bd))"

definition kMaxPages :: nat where "kMaxPages = 1000000"

definition too_many_pages :: sf_error where
  "too_many_pages = IOException ''salesforce query aborted: exceeded the maximum page count (1000000).''"

definition page_loop :: sf_error where
  "page_loop = IOException ''salesforce query aborted: pagination loop detected (nextRecordsUrl repeated).''"

function query_loop ::
    "'c external \<Rightarrow> string \<Rightarrow> string list \<Rightarrow> string list \<Rightarrow> nat \<Rightarrow> ('c, string list \<times> nat) sess" where
  "query_loop X path seen records page_count =
     bnd (FetchPage X path) (\<lambda>pg.
     let records' = records @ pg_records pg; n = page_count + 1 in
     if pg_done pg \<or> pg_next_path pg = [] then ret (records', n)
     else if n \<ge> kMaxPages then throw too_many_pages
     else if pg_next_path pg \<in> set seen then throw page_loop
     else query_loop X (pg_next_path pg) (pg_next_path pg # seen) records' n)"
  by auto
termination
  by (relation "measure (\<lambda>(X, path, seen, records, n). kMaxPages - n)") auto

declare query_loop.simps [simp del]

definition Query :: "'c external \<Rightarrow> string \<Rightarrow> ('c, string list \<times> nat) sess" where
  "Query X soql = bnd (gets (\<lambda>s. QueryPath (w_session s) soql)) (\<lambda>p. query_loop X p [] [] 0)"

section \<open>Bulk jobs\<close>

definition bulk_error :: "string \<Rightarrow> HttpResponse \<Rightarrow> sf_error" where
  "bulk_error stage r =
     (let c = GetString (body r) ''errorCode''; msg = GetString (body r) ''message''
      in IOException (''salesforce bulk '' @ stage @ '' failed (HTTP '' @ show_int (status r) @ ''): ''
           @ (if c = [] then ''error'' else c) @ (if msg = [] then [] else '' - '') @ msg @ ''.''))"

definition success :: "HttpResponse \<Rightarrow> bool" where
  "success r \<longleftrightarrow> 200 \<le> status r \<and> status r < 300"

definition create_job_body :: "bool \<Rightarrow> string \<Rightarrow> string" where
  "create_job_body qall soql =
     ''{'' @ quoted ''operation'' @ '':'' @ quoted (if qall then ''queryAll'' else ''query'') @ '',''
     @ quoted ''query'' @ '':'' @ quoted (JsonEscape soql) @ '',''
     @ quoted ''contentType'' @ '':'' @ quoted ''CSV'' @ '','' @ quoted ''lineEnding'' @ '':'' @ quoted ''LF'' @ ''}''"

definition job_failed :: "string \<Rightarrow> string \<Rightarrow> sf_error" where
  "job_failed state msg =
     IOException (''salesforce bulk: job '' @ state @ (if msg = [] then [] else '' - '') @ msg @ ''.'')"

definition poll_exhausted :: "int \<Rightarrow> sf_error" where
  "poll_exhausted n = IOException (''salesforce bulk: job did not complete after '' @ show_int n @ '' polls ''
     @ ''(raise sf_bulk_poll_budget for a large backfill).'')"

text \<open>The poll loop from iteration \<open>i\<close> on: the number of polls made so far is \<open>i\<close> too.\<close>

function poll_loop :: "'c external \<Rightarrow> string \<Rightarrow> int \<Rightarrow> int \<Rightarrow> ('c, unit) sess" where
  "poll_loop X job_path max_polls i =
     bnd (AuthorizedSend X False job_path []) (\<lambda>st.
     bnd (globals_do (DiagSetBulkPolls (i + 1))) (\<lambda>_.
     if \<not> success st then throw (bulk_error ''job status'' st)
     else let state = GetString (body st) ''state'' in
       if state = ''JobComplete'' then ret ()
       else if state = ''Failed'' \<or> state = ''Aborted''
         then throw (job_failed state (GetString (body st) ''errorMessage''))
       else if i \<ge> max_polls then throw (poll_exhausted max_polls)
       else bnd (outside_do (upd (x_sleep X 250))) (\<lambda>_. poll_loop X job_path max_polls (i + 1))))"
  by auto
termination
  by (relation "measure (\<lambda>(X, path, max_polls, i). nat (max_polls - i))") auto

declare poll_loop.simps [simp del]

definition BulkStartJob :: "'c external \<Rightarrow> string \<Rightarrow> ('c, string) sess" where
  "BulkStartJob X soql =
     bnd (gets data_path) (\<lambda>p.
     bnd (gets w_session) (\<lambda>ss.
     let base = p @ ''/jobs/query''; create_body = create_job_body (s_query_all ss) soql in
     bnd (globals_do (SetLastBulkCreateBody create_body)) (\<lambda>_.
     bnd (AuthorizedSend X True base create_body) (\<lambda>cr.
     if \<not> success cr then throw (bulk_error ''job create'' cr)
     else let job_id = GetString (body cr) ''id'' in
       if job_id = [] then throw (IOException ''salesforce bulk: job create returned no id.'')
       else let job_path = base @ ''/'' @ job_id;
                max_polls = (if s_bulk_poll_budget ss < 1 then 1 else s_bulk_poll_budget ss) in
         bnd (poll_loop X job_path max_polls 0) (\<lambda>_. ret (job_path @ ''/results''))))))"

record SalesforceBulkPage =
  bp_columns :: "string list"
  bp_rows :: "string list list"
  bp_next_locator :: string

definition bulk_page_of :: "string_util \<Rightarrow> HttpResponse \<Rightarrow> SalesforceBulkPage" where
  "bulk_page_of D rs =
     (let rows = Parse (body rs); loc = GetHeader D rs ''Sforce-Locator''
      in \<lparr> bp_columns = (case rows of [] \<Rightarrow> [] | h # _ \<Rightarrow> h), bp_rows = (case rows of [] \<Rightarrow> [] | _ # r \<Rightarrow> r),
           bp_next_locator = (if loc = ''null'' then [] else loc) \<rparr>)"

definition BulkFetchResultPage :: "'c external \<Rightarrow> string \<Rightarrow> ('c, SalesforceBulkPage) sess" where
  "BulkFetchResultPage X path =
     bnd (AuthorizedSend X False path []) (\<lambda>rs.
       if \<not> success rs then throw (bulk_error ''job results'' rs) else ret (bulk_page_of (x_su X) rs))"

section \<open>Servers\<close>

text \<open>
  A server in the most general form: its answer to a request may depend on everything it was
  ever asked. The outside world is the history of requests.
\<close>

type_synonym history = "(Method \<times> HttpRequest) list"

definition hist_send :: "(history \<Rightarrow> Method \<Rightarrow> HttpRequest \<Rightarrow> HttpResponse) \<Rightarrow> history http_send" where
  "hist_send answer m rq h = (answer h m rq, h @ [(m, rq)])"

definition against ::
  "(history \<Rightarrow> Method \<Rightarrow> HttpRequest \<Rightarrow> HttpResponse) \<Rightarrow> history external \<Rightarrow> history external" where
  "against answer X = X \<lparr> x_send := hist_send answer \<rparr>"

lemma against_send [simp]: "x_send (against answer X) m rq h = (answer h m rq, h @ [(m, rq)])"
  by (simp add: against_def hist_send_def)

lemma against_rest [simp]:
  "x_su (against answer X) = x_su X" "x_time (against answer X) = x_time X"
  "x_steady (against answer X) = x_steady X"
  "x_sleep (against answer X) = x_sleep X" "x_ssl (against answer X) = x_ssl X"
  by (simp_all add: against_def)

text \<open>Acquiring a token asks the token endpoint once, unless the assertion of a JWT grant cannot be signed.\<close>

lemma AcquireToken_against:
  "(\<exists>e. AcquireToken (against answer X) config h = (Inl e, h) \<and> auth_method config = kJwt) \<or>
   (\<exists>bd. AcquireToken (against answer X) config h =
      (HandleTokenResponse (answer h POST \<lparr> rq_url = token_url config, rq_headers = token_headers, rq_body = bd \<rparr>)
         (token_url config), h @ [(POST, \<lparr> rq_url = token_url config, rq_headers = token_headers, rq_body = bd \<rparr>)]))"
proof (cases "auth_method config = kJwt")
  case True
  then show ?thesis
    by (cases "SignRs256 (x_ssl X) (private_key config) (signing_input config (x_time X h))")
      (auto simp: AcquireToken_def ExchangeJwtBearer_def sfm_simps Let_def)
next
  case False
  then show ?thesis by (auto simp: AcquireToken_def ExchangeRefreshToken_def sfm_simps)
qed

section \<open>The 401 refresh\<close>

definition resource_call :: "bool \<Rightarrow> string \<Rightarrow> string \<Rightarrow> SalesforceTokenSet \<Rightarrow> Method \<times> HttpRequest" where
  "resource_call post path jb tok = (if post then POST else GET, auth_request tok post path jb)"

definition token_call :: "SalesforceConfig \<Rightarrow> string \<Rightarrow> Method \<times> HttpRequest" where
  "token_call config bd = (POST, \<lparr> rq_url = token_url config, rq_headers = token_headers, rq_body = bd \<rparr>)"

lemma do_req_against [sfm_simps]:
  "do_req (against answer X) post path jb s =
     (let c = resource_call post path jb (s_token (w_session s))
      in (Inr (answer (w_outside s) (fst c) (snd c)), s \<lparr> w_outside := w_outside s @ [c] \<rparr>))"
  by (simp add: do_req_def sfm_simps resource_call_def Let_def)

text \<open>What becomes of an answer, the first time and after a renewal of the token.\<close>

definition verdict :: "string \<Rightarrow> HttpResponse \<Rightarrow> HttpResponse result" where
  "verdict path a =
     (if \<not> transport_ok a then Inl (unreachable path a)
      else if over_limit a then Inl limit_exhausted else Inr a)"

definition unauthorized :: "HttpResponse \<Rightarrow> bool" where
  "unauthorized a \<longleftrightarrow> transport_ok a \<and> status a = 401"

definition token_answer ::
  "(history \<Rightarrow> Method \<Rightarrow> HttpRequest \<Rightarrow> HttpResponse) \<Rightarrow> history \<Rightarrow> SalesforceConfig \<Rightarrow> string \<Rightarrow> SalesforceTokenSet result" where
  "token_answer answer h config bd =
     HandleTokenResponse (answer h (fst (token_call config bd)) (snd (token_call config bd))) (token_url config)"

lemma Authenticate_against:
  "(\<exists>e. Authenticate (against answer X) s = (Inl e, s) \<and> auth_method (config_of s) = kJwt) \<or>
   (\<exists>bd. let s2 = s \<lparr> w_outside := w_outside s @ [token_call (config_of s) bd] \<rparr> in
      Authenticate (against answer X) s = (case token_answer answer (w_outside s) (config_of s) bd of
        Inl e \<Rightarrow> (Inl e, s2)
      | Inr ts \<Rightarrow> (Inr (), s2 \<lparr> w_session := SetToken ts (w_session s) \<rparr>)))"
proof -
  consider (none) e where "AcquireToken (against answer X) (config_of s) (w_outside s) = (Inl e, w_outside s)" "auth_method (config_of s) = kJwt"
    | (asked) bd where "AcquireToken (against answer X) (config_of s) (w_outside s) =
        (token_answer answer (w_outside s) (config_of s) bd, w_outside s @ [token_call (config_of s) bd])"
    using AcquireToken_against [of answer X "config_of s" "w_outside s"] unfolding token_answer_def token_call_def fst_conv snd_conv by blast
  then show ?thesis
  proof cases
    case none
    then show ?thesis by (simp add: Authenticate_def sfm_simps)
  next
    case (asked bd)
    then show ?thesis
      by (intro disjI2 exI [of _ bd]) (simp add: Authenticate_def sfm_simps Let_def split: sum.splits)
  qed
qed


section \<open>Probes never throw\<close>

lemma catch_all_returns: "\<exists>v. fst (catch_all m d s) = Inr v"
  by (auto simp: catch_all_def split: prod.splits sum.splits)

text \<open>
  The probes never throw. Whatever the server does, reading the limits, estimating a count,
  running a pushed aggregate and probing the Id range return a value; the Id range is only
  reported when it is not empty.
\<close>

theorem probes_never_throw:
  "(\<exists>v. fst (QueryLimits X s) = Inr v) \<and> (\<exists>v. fst (TryEstimateCount X q s) = Inr v) \<and>
   (\<exists>v. fst (TryAggregateQuery X q s) = Inr v) \<and>
   (\<exists>v. fst (TryMinMaxId X ob wh s) = Inr v \<and> (case v of None \<Rightarrow> True | Some (mn, mx) \<Rightarrow> mn \<noteq> [] \<and> mn < mx))"
proof -
  have mm: "min_max_of bd = Some (mn, mx) \<Longrightarrow> mn \<noteq> [] \<and> mn < mx" for bd mn mx
    by (auto simp: min_max_of_def split: list.splits prod.splits if_splits)
  have "case v of None \<Rightarrow> True | Some (mn, mx) \<Rightarrow> mn \<noteq> [] \<and> mn < mx"
    if "fst (TryMinMaxId X ob wh s) = Inr v" for v
    using that mm
    by (auto simp: TryMinMaxId_def sfm_simps split: prod.splits sum.splits if_splits option.splits)
  moreover have "\<exists>v. fst (TryMinMaxId X ob wh s) = Inr v"
    unfolding TryMinMaxId_def by (rule catch_all_returns)
  moreover have "\<exists>v. fst (QueryLimits X s) = Inr v"
    unfolding QueryLimits_def by (rule catch_all_returns)
  moreover have "\<exists>v. fst (TryEstimateCount X q s) = Inr v"
    unfolding TryEstimateCount_def by (rule catch_all_returns)
  moreover have "\<exists>v. fst (TryAggregateQuery X q s) = Inr v"
    unfolding TryAggregateQuery_def by (rule catch_all_returns)
  ultimately show ?thesis by blast
qed

text \<open>
  The object list is the queryable part of the infos. On the same state, \<^verbatim>\<open>GlobalDescribe\<close> and
  \<^verbatim>\<open>GlobalDescribeInfos\<close> fail alike, and the first returns exactly the names of the
  queryable entries of the second, in order.
\<close>

theorem GlobalDescribe_queryable_infos:
  "GlobalDescribe X s =
     (case GlobalDescribeInfos X s of
        (Inl e, s') \<Rightarrow> (Inl e, s')
      | (Inr infos, s') \<Rightarrow> (Inr (map oi_name (filter oi_queryable infos)), s'))"
proof -
  have "filter (\<lambda>n. n \<noteq> []) (map (\<lambda>obj. GetString obj ''name'') (filter (\<lambda>obj. GetBool obj ''queryable'' False) os))
      = map oi_name (filter oi_queryable
          (map (\<lambda>obj. \<lparr> oi_name = GetString obj ''name'', oi_queryable = GetBool obj ''queryable'' False \<rparr>)
            (filter (\<lambda>obj. GetString obj ''name'' \<noteq> []) os)))" for os
    by (induction os) auto
  then show ?thesis
    by (simp add: GlobalDescribe_def GlobalDescribeInfos_def sfm_simps split: prod.splits sum.splits)
qed

section \<open>Pagination\<close>

text \<open>
  The pages of a query, as the server links them: from a path, the pages in order with the
  cursors between them, up to the first page that is done or names no next one.
\<close>

definition is_last :: "SalesforceQueryPage \<Rightarrow> bool" where
  "is_last pg \<longleftrightarrow> pg_done pg \<or> pg_next_path pg = []"

inductive chain :: "(string \<Rightarrow> SalesforceQueryPage) \<Rightarrow> string \<Rightarrow> string list \<Rightarrow> string list list \<Rightarrow> bool"
  for P where
  last_page: "is_last (P p) \<Longrightarrow> chain P p [] [pg_records (P p)]"
| next_page: "\<not> is_last (P p) \<Longrightarrow> chain P (pg_next_path (P p)) cs pages \<Longrightarrow>
    chain P p (pg_next_path (P p) # cs) (pg_records (P p) # pages)"

lemma chain_length: "chain P p cs pages \<Longrightarrow> length pages = length cs + 1"
  by (induction rule: chain.induct) simp_all

text \<open>
  The interface the pagination loops rely on: while the invariant holds, a fetch of a path
  returns the page of that path, and neither fetching nor recording a diagnostic breaks it.
\<close>

locale page_source =
  fixes X :: "'c external" and I :: "'c sworld \<Rightarrow> bool" and P :: "string \<Rightarrow> SalesforceQueryPage"
  assumes serves: "I s \<Longrightarrow> \<exists>s'. FetchPage X p s = (Inr (P p), s') \<and> I s'"
    and diagnostics: "I s \<Longrightarrow> I (s \<lparr> w_globals := g \<rparr>)"
begin

lemma query_loop_chain:
  assumes "chain P p cs pages" and "I s" and "distinct cs" and "set cs \<inter> set seen = {}"
    and "n + length pages \<le> kMaxPages"
  shows "\<exists>s'. query_loop X p seen recs n s = (Inr (recs @ concat pages, n + length pages), s') \<and> I s'"
  using assms
proof (induction arbitrary: s seen recs n rule: chain.induct)
  case (last_page p)
  obtain s' where "FetchPage X p s = (Inr (P p), s')" "I s'" using serves [OF last_page(2)] by blast
  with last_page(1) show ?case
    by (subst query_loop.simps) (simp add: sfm_simps Let_def is_last_def)
next
  case (next_page p cs pages)
  let ?q = "pg_next_path (P p)"
  obtain s' where s': "FetchPage X p s = (Inr (P p), s')" "I s'" using serves [OF next_page.prems(1)] by blast
  have len: "1 \<le> length pages" using chain_length [OF next_page.hyps(2)] by simp
  have "\<exists>s''. query_loop X ?q (?q # seen) (recs @ pg_records (P p)) (n + 1) s' =
      (Inr ((recs @ pg_records (P p)) @ concat pages, (n + 1) + length pages), s'') \<and> I s''"
    by (rule next_page.IH [OF s'(2)]) (use next_page.prems in auto)
  moreover have "query_loop X p seen recs n s =
      query_loop X ?q (?q # seen) (recs @ pg_records (P p)) (n + 1) s'"
    using next_page.hyps(1) next_page.prems len s'(1)
    by (subst query_loop.simps) (auto simp: sfm_simps Let_def is_last_def)
  ultimately show ?case by simp
qed

lemma query_loop_sound:
  assumes "I s" and "query_loop X p seen recs n s = (Inr (out, m), s')" and "n < kMaxPages"
  shows "\<exists>cs pages. chain P p cs pages \<and> distinct cs \<and> set cs \<inter> set seen = {} \<and>
    n + length pages \<le> kMaxPages \<and> out = recs @ concat pages \<and> m = n + length pages"
  using assms
proof (induction "kMaxPages - n" arbitrary: p seen recs n s rule: less_induct)
  case less
  let ?q = "pg_next_path (P p)"
  obtain s1 where s1: "FetchPage X p s = (Inr (P p), s1)" "I s1" using serves [OF less.prems(1)] by blast
  show ?case
  proof (cases "is_last (P p)")
    case True
    with less.prems(2) s1(1) have "out = recs @ pg_records (P p)" "m = n + 1"
      by (subst (asm) query_loop.simps, simp add: sfm_simps Let_def is_last_def)+
    with True less.prems(3) show ?thesis
      by (intro exI [of _ "[]"] exI [of _ "[pg_records (P p)]"]) (auto intro: chain.last_page)
  next
    case False
    with less.prems(2) s1(1) have q: "?q \<notin> set seen" "n + 1 < kMaxPages"
      and r: "query_loop X ?q (?q # seen) (recs @ pg_records (P p)) (n + 1) s1 = (Inr (out, m), s')"
      by (subst (asm) query_loop.simps, auto simp: sfm_simps Let_def is_last_def split: if_splits)+
    have dec: "kMaxPages - (n + 1) < kMaxPages - n" using less.prems(3) by simp
    from less.hyps [OF dec s1(2) r q(2)] obtain cs pages where
      "chain P ?q cs pages" "distinct cs" "set cs \<inter> set (?q # seen) = {}"
      "n + 1 + length pages \<le> kMaxPages" "out = (recs @ pg_records (P p)) @ concat pages" "m = n + 1 + length pages"
      by blast
    with False q(1) show ?thesis
      by (intro exI [of _ "?q # cs"] exI [of _ "pg_records (P p) # pages"]) (auto intro: chain.next_page)
  qed
qed

lemma Query_iff:
  assumes "I s"
  shows "(\<exists>s'. Query X soql s = (Inr (recs, n), s')) \<longleftrightarrow>
    (\<exists>cs pages. chain P (QueryPath (w_session s) soql) cs pages \<and> distinct cs \<and> length pages \<le> kMaxPages \<and>
       recs = concat pages \<and> n = length pages)"
proof
  assume "\<exists>s'. Query X soql s = (Inr (recs, n), s')"
  then obtain s' where "query_loop X (QueryPath (w_session s) soql) [] [] 0 s = (Inr (recs, n), s')"
    by (auto simp: Query_def sfm_simps)
  from query_loop_sound [OF assms this] show
    "\<exists>cs pages. chain P (QueryPath (w_session s) soql) cs pages \<and> distinct cs \<and> length pages \<le> kMaxPages \<and>
       recs = concat pages \<and> n = length pages"
    by (auto simp: kMaxPages_def)
next
  assume "\<exists>cs pages. chain P (QueryPath (w_session s) soql) cs pages \<and> distinct cs \<and> length pages \<le> kMaxPages \<and>
       recs = concat pages \<and> n = length pages"
  then obtain cs pages where c: "chain P (QueryPath (w_session s) soql) cs pages" "distinct cs"
    "length pages \<le> kMaxPages" "recs = concat pages" "n = length pages" by blast
  from query_loop_chain [OF c(1) assms c(2), of "[]" 0 "[]"] c(3-5) show "\<exists>s'. Query X soql s = (Inr (recs, n), s')"
    by (auto simp: Query_def sfm_simps)
qed

end

text \<open>
  A static server: every authorised request is answered with 200 and the content of its URL.
\<close>

definition ok_response :: "string \<Rightarrow> HttpResponse" where
  "ok_response bd = empty_response \<lparr> transport_ok := True, status := 200, body := bd \<rparr>"

definition static_server :: "(string \<Rightarrow> string) \<Rightarrow> history external \<Rightarrow> history external" where
  "static_server content X = against (\<lambda>h m rq. ok_response (content (rq_url rq))) X"

definition holds_token :: "SalesforceTokenSet \<Rightarrow> 'c sworld \<Rightarrow> bool" where
  "holds_token tok s \<longleftrightarrow> s_token (w_session s) = tok"

definition served_page :: "(string \<Rightarrow> string) \<Rightarrow> SalesforceTokenSet \<Rightarrow> string \<Rightarrow> SalesforceQueryPage" where
  "served_page content tok p = page_of (content (TrimTrailingSlash (instance_url tok) @ p))"

lemma AuthorizedSend_static:
  "AuthorizedSend (static_server content X) post path jb s =
     (Inr (ok_response (content (TrimTrailingSlash (instance_url (s_token (w_session s))) @ path))),
      s \<lparr> w_outside := w_outside s @ [resource_call post path jb (s_token (w_session s))] \<rparr>)"
  by (simp add: AuthorizedSend_def static_server_def sfm_simps Let_def ok_response_def over_limit_def
      resource_call_def auth_request_def)

lemma static_sleep [simp]:
  "x_sleep (static_server content X) = x_sleep X" "x_su (static_server content X) = x_su X"
  "x_steady (static_server content X) = x_steady X"
  by (simp_all add: static_server_def)

interpretation static: page_source "static_server content X" "holds_token tok" "served_page content tok"
  for content X tok
proof
  fix s :: "history sworld" and p
  assume "holds_token tok s"
  then show "\<exists>s'. FetchPage (static_server content X) p s = (Inr (served_page content tok p), s') \<and> holds_token tok s'"
    by (simp add: FetchPage_def AuthorizedGet_def sfm_simps AuthorizedSend_static holds_token_def
        served_page_def ok_response_def)
qed (simp add: holds_token_def)

text \<open>
  C6: the eager query is complete and stops. Against a server that serves linked pages, a query
  returns records exactly when the links end, no cursor repeats on the way and there are at
  most a million pages; then it returns the records of all pages, once each and in order, and
  the number of pages. In every other case (a loop, a runaway cursor) it ends with an error.
\<close>

theorem Query_returns_all_pages:
  "(\<exists>s'. Query (static_server content X) soql s = (Inr (recs, n), s')) =
   (\<exists>cs pages. chain (served_page content (s_token (w_session s))) (QueryPath (w_session s) soql) cs pages \<and>
      distinct cs \<and> length pages \<le> 1000000 \<and> recs = concat pages \<and> n = length pages)"
  using static.Query_iff [of "s_token (w_session s)" s content X soql recs n]
  by (simp add: holds_token_def kMaxPages_def)

section \<open>The poll budget\<close>

definition pending :: "string \<Rightarrow> bool" where
  "pending bd \<longleftrightarrow> GetString bd ''state'' \<notin> {''JobComplete'', ''Failed'', ''Aborted''}"

lemma poll_loop_pending:
  assumes "pending (content (TrimTrailingSlash (instance_url (s_token (w_session s))) @ path))"
    and "x_sleep X = (\<lambda>d h. h)" and "0 \<le> i" and "i \<le> mp"
  shows "poll_loop (static_server content X) path mp i s =
    (Inl (poll_exhausted mp),
     s \<lparr> w_outside := w_outside s @ replicate (nat (mp - i) + 1) (resource_call False path [] (s_token (w_session s))),
         w_globals := DiagSetBulkPolls (mp + 1) (w_globals s) \<rparr>)"
  using assms
proof (induction "nat (mp - i)" arbitrary: i s)
  case 0
  then have "i = mp" by simp
  with 0 show ?case
    by (subst poll_loop.simps)
      (simp add: sfm_simps AuthorizedSend_static success_def ok_response_def pending_def Let_def)
next
  case (Suc k)
  let ?c = "resource_call False path [] (s_token (w_session s))"
  let ?s = "s \<lparr> w_outside := w_outside s @ [?c], w_globals := DiagSetBulkPolls (i + 1) (w_globals s) \<rparr>"
  have sw: "t \<lparr> w_globals := g, w_outside := h \<rparr> = t \<lparr> w_outside := h, w_globals := g \<rparr>" for t :: "history sworld" and g h
    by simp
  have lt: "i < mp" using Suc.hyps(2) by simp
  have "poll_loop (static_server content X) path mp i s = poll_loop (static_server content X) path mp (i + 1) ?s"
    using Suc.prems lt
    by (subst poll_loop.simps)
      (simp add: sfm_simps AuthorizedSend_static success_def ok_response_def pending_def Let_def sw)
  also have "\<dots> = (Inl (poll_exhausted mp),
     ?s \<lparr> w_outside := w_outside ?s @ replicate (nat (mp - (i + 1)) + 1) ?c,
          w_globals := DiagSetBulkPolls (mp + 1) (w_globals ?s) \<rparr>)"
    using Suc.hyps(1) [of "i + 1" ?s] Suc.prems Suc.hyps(2) by simp
  finally have r: "poll_loop (static_server content X) path mp i s = (Inl (poll_exhausted mp),
     ?s \<lparr> w_outside := w_outside ?s @ replicate (nat (mp - (i + 1)) + 1) ?c,
          w_globals := DiagSetBulkPolls (mp + 1) (w_globals ?s) \<rparr>)" .
  have "nat (mp - i) = Suc (nat (mp - (i + 1)))" using lt by simp
  then show ?case unfolding r by (simp add: DiagSetBulkPolls_def)
qed

text \<open>
  The poll budget. A job that stays unfinished is polled exactly once more than the budget
  says, every poll the same request; then the start fails, naming the budget, and the
  diagnostics show the true number of polls.
\<close>

theorem poll_budget_exhausted:
  assumes "pending (content (TrimTrailingSlash (instance_url (s_token (w_session s))) @ path))"
    and "x_sleep X = (\<lambda>d h. h)" and "0 \<le> mp"
  shows "case poll_loop (static_server content X) path mp 0 s of (r, s') \<Rightarrow>
    r = Inl (poll_exhausted mp) \<and>
    w_outside s' = w_outside s @ replicate (nat mp + 1) (resource_call False path [] (s_token (w_session s))) \<and>
    sc_bulk_polls (g_cost (w_globals s')) = mp + 1"
  using poll_loop_pending [of content s path X 0 mp] assms by (simp add: DiagSetBulkPolls_def)

definition sample_state :: "history sworld" where
  "sample_state = \<lparr> w_outside = [], w_globals = initial_globals,
     w_session = SetToken \<lparr> access_token = ''t'', instance_url = ''https://x'' \<rparr> (new_session empty_config) \<rparr>"

definition history_external :: "history external" where
  "history_external = \<lparr> x_su = ascii_su, x_send = hist_send (\<lambda>h m rq. empty_response), x_time = (\<lambda>_. 1700000000),
     x_steady = (\<lambda>_. 0), x_sleep = (\<lambda>_ h. h), x_ssl = sample_ssl \<rparr>"

theorem poll_budget_exhausted_witness:
  "case poll_loop (static_server (\<lambda>_. ''{}'') history_external) ''/job'' 2 0 sample_state of (r, s') \<Rightarrow>
    r = Inl (poll_exhausted 2) \<and>
    w_outside s' = w_outside sample_state @
      replicate (nat 2 + 1) (resource_call False ''/job'' [] (s_token (w_session sample_state))) \<and>
    sc_bulk_polls (g_cost (w_globals s')) = 2 + 1"
  by (rule poll_budget_exhausted) (simp_all add: history_external_def pending_def, code_simp)

end
