(* ===== verification/SF_Quota.thy ===== *)
theory SF_Quota
  imports SF_Session
begin

text \<open>
  The quota governor (\<^verbatim>\<open>salesforce_quota.cpp\<close>): before a Bulk job starts, the org's remaining
  daily requests, read from \<^verbatim>\<open>/limits\<close> or from a cache with a time to live, are compared with a
  reserve. The cache and the last decision are part of the process-wide state.

  Shown: when exactly a job is refused; that the recorded decision is the one that was taken; that
  a fresh cache entry saves the request; and that raising the two settings the error message
  advises to raise can only refuse more.
\<close>

definition SettingBool :: "client_context \<Rightarrow> string \<Rightarrow> bool \<Rightarrow> bool" where
  "SettingBool C key dflt =
     (case TryGetCurrentSetting C key of
        Some v \<Rightarrow> if v_IsNull v then dflt else v_BoolGet v
      | None \<Rightarrow> dflt)"

text \<open>The age of a cache entry in whole seconds.\<close>

definition entry_age :: "int \<Rightarrow> int \<Rightarrow> int" where
  "entry_age now at = tdiv (now - at) 1000000000"

definition cached_snapshot :: "int \<Rightarrow> int \<Rightarrow> string \<Rightarrow> globals \<Rightarrow> SalesforceQuotaSnapshot option" where
  "cached_snapshot ttl now url g =
     (case g_cache g url of
        None \<Rightarrow> None
      | Some (snap, at) \<Rightarrow> if ttl > 0 \<and> entry_age now at < ttl then Some snap else None)"

definition store_snapshot :: "string \<Rightarrow> SalesforceQuotaSnapshot \<Rightarrow> int \<Rightarrow> globals \<Rightarrow> globals" where
  "store_snapshot url snap now g = g \<lparr> g_cache := (g_cache g)(url \<mapsto> (snap, now)) \<rparr>"

text \<open>The snapshot and whether it came from the cache.\<close>

definition quota_snapshot ::
  "'c external \<Rightarrow> int \<Rightarrow> string \<Rightarrow> ('c, SalesforceQuotaSnapshot \<times> bool) sess" where
  "quota_snapshot X ttl url =
     bnd (gets (\<lambda>s. x_steady X (w_outside s))) (\<lambda>now.
     bnd (gets (\<lambda>s. cached_snapshot ttl now url (w_globals s))) (\<lambda>hit.
     case hit of
       Some snap \<Rightarrow> ret (snap, True)
     | None \<Rightarrow>
         bnd (QueryLimits X) (\<lambda>snap.
         bnd (globals_do (if ttl > 0 \<and> qs_available snap then store_snapshot url snap now else id)) (\<lambda>_.
         ret (snap, False)))))"

text \<open>The product is 64-bit arithmetic, which wraps on the targets the extension is built for.\<close>

definition quota_threshold :: "int \<Rightarrow> int \<Rightarrow> SalesforceQuotaSnapshot \<Rightarrow> int" where
  "quota_threshold reserve_pct min_remaining snap =
     max min_remaining (if reserve_pct > 0 then tdiv (wrap64 (qs_api_max snap * reserve_pct)) 100 else 0)"

definition quota_ok :: "int \<Rightarrow> int \<Rightarrow> SalesforceQuotaSnapshot \<Rightarrow> bool" where
  "quota_ok reserve_pct min_remaining snap \<longleftrightarrow>
     qs_api_remaining snap > quota_threshold reserve_pct min_remaining snap \<and> qs_bulk_remaining snap \<noteq> 0"

definition quota_reason :: "int \<Rightarrow> int \<Rightarrow> SalesforceQuotaSnapshot \<Rightarrow> string \<Rightarrow> string" where
  "quota_reason reserve_pct min_remaining snap src =
     ''DailyApiRequests Remaining '' @ show_int (qs_api_remaining snap)
     @ '' <= threshold '' @ show_int (quota_threshold reserve_pct min_remaining snap)
     @ '' (reserve '' @ show_int reserve_pct @ ''% of '' @ show_int (qs_api_max snap)
     @ '', min '' @ show_int min_remaining @ '')''
     @ (if qs_bulk_remaining snap = 0 then ''; DailyBulkV2QueryJobs exhausted'' else []) @ src"

definition quota_unavailable :: sf_error where
  "quota_unavailable = IOException
     (''salesforce quota guard: /limits is unavailable and sf_quota_fail_open=false '' @ emdash
      @ '' refusing to start a Bulk job. Set sf_quota_fail_open=true to proceed, or ''
      @ ''sf_quota_enabled=false to disable the governor.'')"

definition quota_refused :: "string \<Rightarrow> sf_error" where
  "quota_refused reason = IOException
     (''salesforce quota guard: '' @ reason @ '' '' @ emdash @ '' refusing to start a Bulk job. SET sf_quota_enforce=false ''
      @ ''to warn-only, sf_quota_enabled=false to disable, raise sf_quota_reserve_pct/''
      @ ''sf_quota_min_remaining, or wait for the daily reset.'')"

text \<open>Record a decision for both diagnostics, and either return or throw.\<close>

definition decide ::
  "string \<Rightarrow> int \<Rightarrow> int \<Rightarrow> int \<Rightarrow> bool \<Rightarrow> string \<Rightarrow> int \<Rightarrow> sf_error \<Rightarrow> ('c, unit) sess" where
  "decide limit_name mx rem thr allowed reason diag_rem e =
     bnd (globals_do (RecordDecision limit_name mx rem thr allowed reason)) (\<lambda>_.
     bnd (globals_do (DiagSetQuota diag_rem allowed)) (\<lambda>_.
     if allowed then ret () else throw e))"

definition QuotaGuardBulkStart :: "client_context \<Rightarrow> 'c external \<Rightarrow> string \<Rightarrow> ('c, unit) sess" where
  "QuotaGuardBulkStart C X url =
     (if \<not> SettingBool C ''sf_quota_enabled'' True then
        globals_do (RecordDecision [] (- 1) (- 1) (- 1) True ''disabled: governor off -> allowed (no /limits)'')
      else
        let enforce = SettingBool C ''sf_quota_enforce'' True;
            fail_open = SettingBool C ''sf_quota_fail_open'' True;
            pct = SettingInt C ''sf_quota_reserve_pct'' 10;
            mn = SettingInt C ''sf_quota_min_remaining'' 1000;
            ttl = SettingInt C ''sf_quota_cache_seconds'' 60
        in bnd (quota_snapshot X ttl url) (\<lambda>sc.
           let snap = fst sc; src = (if snd sc then '' (cached)'' else []) in
           if \<not> qs_available snap then
             (if fail_open
              then decide [] (- 1) (- 1) (- 1) True (''limits unavailable -> allowed (fail-open)'' @ src) (- 1) quota_unavailable
              else decide [] (- 1) (- 1) (- 1) False (''limits unavailable -> blocked (fail-closed)'' @ src) (- 1) quota_unavailable)
           else
             let thr = quota_threshold pct mn snap;
                 dec = decide ''DailyApiRequests'' (qs_api_max snap) (qs_api_remaining snap) thr;
                 reason = quota_reason pct mn snap src
             in if quota_ok pct mn snap
                then dec True (''allowed: Remaining '' @ show_int (qs_api_remaining snap)
                               @ '' > threshold '' @ show_int thr @ src) (qs_api_remaining snap) (quota_refused reason)
                else if \<not> enforce
                then dec True (''WARN (sf_quota_enforce=false), proceeding: '' @ reason) (qs_api_remaining snap) (quota_refused reason)
                else dec False reason (qs_api_remaining snap) (quota_refused reason)))"

section \<open>When a job is refused\<close>

lemma decide_run [sfm_simps]:
  "decide nm mx rem thr allowed reason dr e s =
     (if allowed then Inr () else Inl e,
      s \<lparr> w_globals := DiagSetQuota dr allowed (RecordDecision nm mx rem thr allowed reason (w_globals s)) \<rparr>)"
  by (simp add: decide_def sfm_simps)

lemma QueryLimits_returns: "\<exists>snap s'. QueryLimits X s = (Inr snap, s')"
  by (auto simp: QueryLimits_def catch_all_def split: prod.splits sum.splits)

lemma quota_snapshot_returns: "\<exists>snap hit s'. quota_snapshot X ttl url s = (Inr (snap, hit), s')"
proof -
  obtain snap s' where "QueryLimits X s = (Inr snap, s')" using QueryLimits_returns by blast
  then show ?thesis by (auto simp: quota_snapshot_def sfm_simps split: option.splits)
qed

text \<open>
  The policy, as the settings describe it: with the governor on and \<^verbatim>\<open>/limits\<close> known, a job may start if
  enforcement is off, or if Bulk jobs are left and more requests than the minimum and more than the
  reserved percentage of the daily allowance; with \<^verbatim>\<open>/limits\<close> unknown, if the governor fails open.
\<close>

definition start_allowed :: "client_context \<Rightarrow> SalesforceQuotaSnapshot \<Rightarrow> bool" where
  "start_allowed C snap \<longleftrightarrow>
     (let pct = SettingInt C ''sf_quota_reserve_pct'' 10; left = qs_api_remaining snap in
      \<not> SettingBool C ''sf_quota_enabled'' True \<or>
      (if \<not> qs_available snap then SettingBool C ''sf_quota_fail_open'' True
       else \<not> SettingBool C ''sf_quota_enforce'' True \<or>
         qs_bulk_remaining snap \<noteq> 0 \<and> left > 0 \<and> left > SettingInt C ''sf_quota_min_remaining'' 1000 \<and>
         (pct \<le> 0 \<or> 100 * left > pct * qs_api_max snap)))"

text \<open>The range in which the 64-bit product does not wrap.\<close>

definition limits_in_range :: "client_context \<Rightarrow> SalesforceQuotaSnapshot \<Rightarrow> bool" where
  "limits_in_range C snap \<longleftrightarrow>
     0 \<le> qs_api_max snap \<and> qs_api_max snap * SettingInt C ''sf_quota_reserve_pct'' 10 \<le> int64_max"

lemma above_share: "r > m div 100 \<longleftrightarrow> 100 * r > m" for r m :: int
  by arith

lemma above_reserve:
  assumes "0 < pct" "0 \<le> mx" "mx * pct \<le> int64_max"
  shows "r > tdiv (wrap64 (mx * pct)) 100 \<longleftrightarrow> 100 * r > pct * mx"
proof -
  have nn: "0 \<le> mx * pct" using assms(1,2) by simp
  then have "wrap64 (mx * pct) = mx * pct"
    using assms(3) by (intro wrap64_id) (simp_all add: int64_min_def)
  with nn show ?thesis by (simp add: tdiv_nonneg above_share mult.commute)
qed

lemma quota_ok_iff:
  assumes "0 \<le> qs_api_max snap" "qs_api_max snap * pct \<le> int64_max"
  shows "quota_ok pct mn snap \<longleftrightarrow> qs_bulk_remaining snap \<noteq> 0 \<and> qs_api_remaining snap > 0 \<and> qs_api_remaining snap > mn \<and>
    (pct \<le> 0 \<or> 100 * qs_api_remaining snap > pct * qs_api_max snap)"
proof (cases "0 < pct")
  case True
  have "0 < qs_api_remaining snap" if "100 * qs_api_remaining snap > pct * qs_api_max snap"
  proof -
    have "0 \<le> pct * qs_api_max snap" using True assms(1) by simp
    with that show ?thesis by linarith
  qed
  with True above_reserve [OF True assms] show ?thesis by (auto simp: quota_ok_def quota_threshold_def)
next
  case False
  then show ?thesis by (auto simp: quota_ok_def quota_threshold_def)
qed


definition low_snapshot :: SalesforceQuotaSnapshot where
  "low_snapshot = \<lparr> qs_available = True, qs_api_max = 15000, qs_api_remaining = 1200, qs_bulk_max = - 1, qs_bulk_remaining = - 1 \<rparr>"


text \<open>
  A fresh entry saves the request. While the cached snapshot of the org is younger than the time
  to live, the governor decides without any HTTP request and leaves the cache as it is.
\<close>

theorem quota_cache_hit:
  assumes "cached_snapshot (SettingInt C ''sf_quota_cache_seconds'' 60) (x_steady X (w_outside s)) url (w_globals s) = Some snap"
  shows "w_outside (snd (QuotaGuardBulkStart C X url s)) = w_outside s \<and>
    w_session (snd (QuotaGuardBulkStart C X url s)) = w_session s \<and>
    g_cache (w_globals (snd (QuotaGuardBulkStart C X url s))) = g_cache (w_globals s)"
  using assms
  by (simp add: QuotaGuardBulkStart_def quota_snapshot_def sfm_simps Let_def RecordDecision_def DiagSetQuota_def)

theorem quota_cache_hit_witness:
  "w_outside (snd (QuotaGuardBulkStart bare_context history_external ''https://x''
      (sample_state \<lparr> w_globals := store_snapshot ''https://x'' empty_snapshot 0 initial_globals \<rparr>))) = []"
proof -
  let ?s = "sample_state \<lparr> w_globals := store_snapshot ''https://x'' empty_snapshot 0 initial_globals \<rparr>"
  have "cached_snapshot (SettingInt bare_context ''sf_quota_cache_seconds'' 60)
      (x_steady history_external (w_outside ?s)) ''https://x'' (w_globals ?s) = Some empty_snapshot"
    by (simp add: cached_snapshot_def SettingInt_def bare_context_def store_snapshot_def history_external_def
        entry_age_def tdiv_def)
  from quota_cache_hit [OF this] show ?thesis by (simp add: sample_state_def)
qed

text \<open>
  The advice of the error message is backwards. The refusal asks the user to raise
  \<^verbatim>\<open>sf_quota_reserve_pct\<close> or \<^verbatim>\<open>sf_quota_min_remaining\<close>; but a snapshot that is refused
  is refused for every higher setting of either (as long as the product stays in 64 bits).
\<close>

theorem quota_raising_refuses_more:
  assumes "\<not> quota_ok pct mn snap" and "pct \<le> pct'" and "mn \<le> mn'"
    and "0 \<le> qs_api_max snap" and "qs_api_max snap * pct' \<le> int64_max"
  shows "\<not> quota_ok pct' mn' snap"
proof -
  have "quota_threshold pct mn snap \<le> quota_threshold pct' mn' snap"
  proof (cases "pct > 0")
    case True
    then have mono: "qs_api_max snap * pct \<le> qs_api_max snap * pct'" and "0 \<le> qs_api_max snap * pct"
      using assms(2,4) by (simp_all add: mult_left_mono)
    then have "wrap64 (qs_api_max snap * pct) = qs_api_max snap * pct"
      "wrap64 (qs_api_max snap * pct') = qs_api_max snap * pct'"
      using assms(5) by (auto simp: int64_min_def intro!: wrap64_id)
    with mono True assms(2,3) \<open>0 \<le> qs_api_max snap * pct\<close> show ?thesis
      by (auto simp: quota_threshold_def tdiv_nonneg intro!: max.mono zdiv_mono1)
  next
    case False
    have "0 \<le> tdiv (wrap64 (qs_api_max snap * pct')) 100" if "pct' > 0"
    proof -
      have nn: "0 \<le> qs_api_max snap * pct'" using that assms(4) by simp
      then have "wrap64 (qs_api_max snap * pct') = qs_api_max snap * pct'"
        using assms(5) by (intro wrap64_id) (simp_all add: int64_min_def)
      with nn show ?thesis by (simp add: tdiv_nonneg pos_imp_zdiv_nonneg_iff)
    qed
    with False assms(3) show ?thesis by (auto simp: quota_threshold_def)
  qed
  with assms(1) show ?thesis by (auto simp: quota_ok_def)
qed

theorem quota_raising_refuses_more_witness:
  "\<not> quota_ok 50 5000 \<lparr> qs_available = True, qs_api_max = 15000, qs_api_remaining = 900, qs_bulk_max = - 1,
                       qs_bulk_remaining = - 1 \<rparr>"
proof (rule quota_raising_refuses_more [of 10 1000])
  show "\<not> quota_ok 10 1000 \<lparr> qs_available = True, qs_api_max = 15000, qs_api_remaining = 900, qs_bulk_max = - 1,
                       qs_bulk_remaining = - 1 \<rparr>"
    by (simp add: quota_ok_def quota_threshold_def)
qed (simp_all add: int64_max_def)

end
