(* ===== verification/SF_Value.thy ===== *)
theory SF_Value
  imports SF_Types SF_Codec
begin

text \<open>
  Value decoding (\<^verbatim>\<open>salesforce_value.cpp\<close>): one JSON value or one CSV cell of a described field
  becomes one cell of an output vector. DuckDB's cast from text and its type names are the
  parameter \<open>duck_types\<close>; its vector size is the parameter of the table function.

  Shown: cells fit the declared type of their field; the messages of decoding errors depend on
  the field and at most on the length and shape of the value, never on its content; a scan in
  chunks of any size delivers every record once and in order; and what the date-time
  normalisation really does with an offset.
\<close>

record duck_types =
  DefaultCastAs :: "LogicalType \<Rightarrow> string \<Rightarrow> cell option"
  type_ToString :: "LogicalType \<Rightarrow> string"

section \<open>Dates and times\<close>

definition find_first_of :: "(char \<Rightarrow> bool) \<Rightarrow> string \<Rightarrow> nat \<Rightarrow> nat option" where
  "find_first_of p s pos = map_option ((+) pos) (str_find_if p (drop pos s))"

definition is_zone :: "char \<Rightarrow> bool" where
  "is_zone c \<longleftrightarrow> c = CHR ''Z'' \<or> c = CHR ''z'' \<or> c = CHR ''+''"

definition NormalizeDateTime :: "string \<Rightarrow> string" where
  "NormalizeDateTime s0 =
     (case str_find s0 ''T'' of
        None \<Rightarrow> s0
      | Some t \<Rightarrow>
          let s = s0[t := CHR '' ''] in
          (case find_first_of is_zone s (t + 1) of
             None \<Rightarrow> (case str_find_at s ''-'' (t + 1) of None \<Rightarrow> s | Some dash \<Rightarrow> take dash s)
           | Some tz \<Rightarrow> take tz s))"

definition NormalizeTime :: "string \<Rightarrow> string" where
  "NormalizeTime s =
     (case find_first_of is_zone s 0 of
        Some tz \<Rightarrow> take tz s
      | None \<Rightarrow> (case str_find s ''-'' of Some dash \<Rightarrow> take dash s | None \<Rightarrow> s))"

section \<open>Cells\<close>

definition IsBlobUrlReference :: "string \<Rightarrow> bool" where
  "IsBlobUrlReference raw \<longleftrightarrow>
     (raw \<noteq> [] \<and> hd raw = CHR ''/'') \<or> (length raw \<ge> 4 \<and> map tolower (take 4 raw) = ''http'')"

definition blob_error :: "SalesforceField \<Rightarrow> string \<Rightarrow> sf_error" where
  "blob_error f raw =
     (if IsBlobUrlReference raw then InvalidInputException
        (''salesforce: Salesforce returned a URL reference for blob/base64 field '' @ [SQ] @ f_name f @ [SQ]
         @ ''; inline BLOB decoding is not supported by REST query. ''
         @ ''Select non-blob fields or fetch the blob URL outside the scanner.'')
      else InvalidInputException
        (''salesforce: field '' @ [SQ] @ f_name f @ [SQ] @ '' (Salesforce type '' @ [SQ] @ f_sf_type f @ [SQ]
         @ '') could not be decoded as BLOB (length='' @ show_nat (length raw) @ '').''))"

definition cast_error :: "duck_types \<Rightarrow> SalesforceField \<Rightarrow> sf_error" where
  "cast_error K f = InvalidInputException
     (''salesforce: field '' @ [SQ] @ f_name f @ [SQ] @ '' (Salesforce type '' @ [SQ] @ f_sf_type f @ [SQ]
      @ '') could not be decoded as '' @ type_ToString K (f_duckdb_type f) @ ''.'')"

definition cast_text :: "LogicalType \<Rightarrow> string \<Rightarrow> string" where
  "cast_text ty raw =
     (case ty of TIMESTAMP \<Rightarrow> NormalizeDateTime raw | TIME \<Rightarrow> NormalizeTime raw | _ \<Rightarrow> raw)"

definition AppendTypedCell :: "duck_types \<Rightarrow> SalesforceField \<Rightarrow> string \<Rightarrow> cell result" where
  "AppendTypedCell K f raw =
     (let ty = f_duckdb_type f in
      if ty = VARCHAR then Inr (CVarchar raw)
      else if ty = BLOB then
        (case DecodeBase64 raw of Some bytes \<Rightarrow> Inr (CBlob bytes) | None \<Rightarrow> Inl (blob_error f raw))
      else (case DefaultCastAs K ty (cast_text ty raw) of
              Some v \<Rightarrow> Inr v
            | None \<Rightarrow> Inl (cast_error K f)))"

text \<open>
  \<^verbatim>\<open>AppendJsonValue\<close> and \<^verbatim>\<open>AppendRelationshipStruct\<close>: a missing parent is a null struct, otherwise
  the children are read from the nested object.
\<close>

fun AppendJsonValue :: "duck_types \<Rightarrow> SalesforceField \<Rightarrow> string \<Rightarrow> cell result"
  and AppendRelationshipStruct :: "duck_types \<Rightarrow> SalesforceField list \<Rightarrow> string \<Rightarrow> cell list result" where
  "AppendJsonValue K (SalesforceField nm st ty nil len prc scl flt srt unk rel refs pick is_rel children) record_json =
     (if is_rel then
        (let nested = ExtractObject record_json rel in
         if nested = [] then Inr CNull
         else rbind (AppendRelationshipStruct K children nested) (\<lambda>cs. Inr (CStruct cs)))
      else (case GetValue record_json nm of (raw, found, is_null) \<Rightarrow>
              if \<not> found \<or> is_null then Inr CNull
              else AppendTypedCell K
                (SalesforceField nm st ty nil len prc scl flt srt unk rel refs pick is_rel children) raw))"
| "AppendRelationshipStruct K [] nested = Inr []"
| "AppendRelationshipStruct K (f # fs) nested =
     rbind (AppendJsonValue K f nested) (\<lambda>c.
     rbind (AppendRelationshipStruct K fs nested) (\<lambda>cs. Inr (c # cs)))"

text \<open>One output row: one cell per column, left to right; the first error ends it.\<close>

fun row_cells :: "('f \<Rightarrow> cell result) \<Rightarrow> 'f list \<Rightarrow> cell list result" where
  "row_cells g [] = Inr []"
| "row_cells g (f # fs) = rbind (g f) (\<lambda>c. rbind (row_cells g fs) (\<lambda>cs. Inr (c # cs)))"

text \<open>The rows of one chunk: at most \<open>k\<close> items from the front of a list.\<close>

fun chunk_rows :: "('r \<Rightarrow> cell list result) \<Rightarrow> 'r list \<Rightarrow> cell list list result" where
  "chunk_rows g [] = Inr []"
| "chunk_rows g (r # rs) = rbind (g r) (\<lambda>row. rbind (chunk_rows g rs) (\<lambda>rows. Inr (row # rows)))"

section \<open>The decode table function\<close>

record DecodeBindData =
  db_fields :: "SalesforceField list"
  db_records :: "string list"

definition DecodeBind :: "string_util \<Rightarrow> Value list \<Rightarrow> (DecodeBindData \<times> (string \<times> LogicalType) list) result" where
  "DecodeBind D inputs =
     (if length inputs < 2
      then Inl (BinderException ''salesforce_decode(fields_json, records_json) requires two arguments'')
      else let flds = d_fields (ParseDescribe D (v_ToString (inputs ! 0)) ''decode'');
               recs = SplitArrayObjects (v_ToString (inputs ! 1))
           in if flds = [] then Inl (BinderException ''salesforce_decode: fields_json described no fields'')
              else Inr (\<lparr> db_fields = flds, db_records = recs \<rparr>, map (\<lambda>f. (f_name f, f_duckdb_type f)) flds))"

definition DecodeFunction ::
  "duck_types \<Rightarrow> nat \<Rightarrow> DecodeBindData \<Rightarrow> nat \<Rightarrow> (cell list list \<times> nat) result" where
  "DecodeFunction K vector_size b cursor =
     (let now = take vector_size (drop cursor (db_records b))
      in rbind (chunk_rows (\<lambda>r. row_cells (\<lambda>f. AppendJsonValue K f r) (db_fields b)) now)
           (\<lambda>rows. Inr (rows, cursor + length now)))"

section \<open>Types of cells\<close>

fun cell_of :: "cell \<Rightarrow> LogicalType \<Rightarrow> bool" where
  "cell_of CNull t \<longleftrightarrow> True"
| "cell_of (CVarchar _) t \<longleftrightarrow> t = VARCHAR"
| "cell_of (CBlob _) t \<longleftrightarrow> t = BLOB"
| "cell_of (CBigint _) t \<longleftrightarrow> t = BIGINT"
| "cell_of (CInteger _) t \<longleftrightarrow> t = INTEGER"
| "cell_of (CBoolean _) t \<longleftrightarrow> t = BOOLEAN"
| "cell_of (CFixed u _) t \<longleftrightarrow> t = u"
| "cell_of (CStruct cs) t \<longleftrightarrow> (case t of STRUCT ts \<Rightarrow> list_all2 (\<lambda>c u. cell_of c (snd u)) cs ts | _ \<Rightarrow> False)"
| "cell_of (CList cs) t \<longleftrightarrow> (case t of LIST u \<Rightarrow> list_all (\<lambda>c. cell_of c u) cs | _ \<Rightarrow> False)"

text \<open>DuckDB's cast returns a value of the type it is asked for.\<close>

definition typed_casts :: "duck_types \<Rightarrow> bool" where
  "typed_casts K \<longleftrightarrow> (\<forall>ty s v. DefaultCastAs K ty s = Some v \<longrightarrow> cell_of v ty)"

text \<open>
  A relationship field has the struct type made of its children's names and types. Every field of
  a table the catalog resolves is such: it is part of the invariant of SF_Catalog (\<open>expanded\<close>).
\<close>

fun wf_field :: "SalesforceField \<Rightarrow> bool" where
  "wf_field (SalesforceField nm st ty nil len prc scl flt srt unk rel refs pick is_rel children) \<longleftrightarrow>
     (is_rel \<longrightarrow> ty = STRUCT (map (\<lambda>f. (f_name f, f_duckdb_type f)) children)) \<and> list_all wf_field children"

lemma AppendTypedCell_typed:
  "typed_casts K \<Longrightarrow> AppendTypedCell K f raw = Inr c \<Longrightarrow> cell_of c (f_duckdb_type f)"
  by (auto simp: AppendTypedCell_def typed_casts_def Let_def split: if_splits option.splits)

lemma AppendJsonValue_typed_aux:
  shows "AppendJsonValue K f js = Inr c \<Longrightarrow> typed_casts K \<Longrightarrow> wf_field f \<Longrightarrow> cell_of c (f_duckdb_type f)"
    and "AppendRelationshipStruct K fs js = Inr cs \<Longrightarrow> typed_casts K \<Longrightarrow> list_all wf_field fs \<Longrightarrow>
           list_all2 (\<lambda>c f. cell_of c (f_duckdb_type f)) cs fs"
proof (induction K f js and K fs js arbitrary: c and cs rule: AppendJsonValue_AppendRelationshipStruct.induct)
  case (1 K nm st ty nil len prc scl flt srt unk rel refs pick is_rel children js)
  show ?case
  proof (cases is_rel)
    case True
    show ?thesis
    proof (cases "ExtractObject js rel = []")
      case empty: True
      with 1(2) True show ?thesis by simp
    next
      case False
      with 1(2) True obtain cs where cs: "AppendRelationshipStruct K children (ExtractObject js rel) = Inr cs"
        "c = CStruct cs" by (auto simp: Let_def rbind_eq_Inr)
      have "list_all2 (\<lambda>c f. cell_of c (f_duckdb_type f)) cs children"
        using "1.IH" [OF True refl False cs(1) 1(3)] 1(4) by simp
      with cs(2) 1(4) True show ?thesis by (simp add: list_all2_map2)
    qed
  next
    case False
    with 1(2,3) show ?thesis
      by (auto split: prod.splits if_splits dest: AppendTypedCell_typed)
  qed
next
  case (2 K js)
  then show ?case by simp
next
  case (3 K f fs js)
  then show ?case by (auto simp: rbind_eq_Inr)
qed

lemma AppendRelationshipStruct_nth:
  "AppendRelationshipStruct K fs js = Inr cs \<Longrightarrow>
     length cs = length fs \<and> (\<forall>i < length fs. AppendJsonValue K (fs ! i) js = Inr (cs ! i))"
proof (induction fs arbitrary: cs)
  case (Cons f fs)
  then show ?case by (auto simp: rbind_eq_Inr nth_Cons split: nat.split)
qed simp

definition cell_from_record :: "duck_types \<Rightarrow> SalesforceField \<Rightarrow> string \<Rightarrow> cell \<Rightarrow> bool" where
  "cell_from_record K f js c \<longleftrightarrow>
     (if f_is_relationship f then
        (let nested = ExtractObject js (f_relationship_name f); cs = f_children f in
         if nested = [] then c = CNull
         else \<exists>vs. c = CStruct vs \<and> length vs = length cs \<and>
                (\<forall>i < length cs. AppendJsonValue K (cs ! i) nested = Inr (vs ! i)))
      else (case GetValue js (f_name f) of (raw, found, is_null) \<Rightarrow>
              (c = CNull \<and> (\<not> found \<or> is_null)) \<or>
              (found \<and> \<not> is_null \<and> AppendTypedCell K f raw = Inr c)))"

lemma AppendJsonValue_from_record:
  assumes "AppendJsonValue K f js = Inr c"
  shows "cell_from_record K f js c"
proof (cases f)
  case (SalesforceField nm st ty nil len prc scl flt srt unk rel refs pick is_rel children)
  with assms show ?thesis
    by (auto simp: cell_from_record_def Let_def rbind_eq_Inr dest!: AppendRelationshipStruct_nth
        split: if_splits prod.splits)
qed

text \<open>
  C34: decoded cells have the type of their column. If DuckDB's casts return values of the type they
  are asked for, every cell decoded for a well-formed field is NULL or a value of the field's
  declared type, and a relationship's cell is NULL exactly where the parent is missing and otherwise
  a struct whose entries have the children's types in their order, the i-th being what the i-th
  child decodes from the nested object.
\<close>

theorem AppendJsonValue_typed:
  assumes "typed_casts K" and "wf_field f" and "AppendJsonValue K f record_json = Inr c"
  shows "cell_of c (f_duckdb_type f) \<and> cell_from_record K f record_json c"
  using AppendJsonValue_typed_aux(1) [OF assms(3,1,2)] AppendJsonValue_from_record [OF assms(3)] by simp

definition text_casts :: duck_types where
  "text_casts = \<lparr> DefaultCastAs = (\<lambda>ty s. if s = [] then None else Some (CFixed ty s)), type_ToString = (\<lambda>_. ''T'') \<rparr>"

definition text_field :: "string \<Rightarrow> LogicalType \<Rightarrow> SalesforceField" where
  "text_field nm ty = SalesforceField nm ''string'' ty True 0 0 0 True True False [] [] [] False []"

definition owner_field :: SalesforceField where
  "owner_field = SalesforceField ''Owner'' ''reference'' (STRUCT [(''Name'', VARCHAR), (''Seen'', TIMESTAMP)])
     True 0 0 0 False False False ''Owner'' [] [] True [text_field ''Name'' VARCHAR, text_field ''Seen'' TIMESTAMP]"

theorem AppendJsonValue_typed_witness:
  "cell_of (CStruct [CVarchar ''Ada'', CFixed TIMESTAMP ''2024-01-15 10:20:30'']) (f_duckdb_type owner_field) \<and>
   \<not> cell_of (CStruct [CFixed TIMESTAMP ''2024-01-15 10:20:30'', CVarchar ''Ada'']) (f_duckdb_type owner_field)"
proof -
  have t: "typed_casts text_casts" by (simp add: typed_casts_def text_casts_def)
  have w: "wf_field owner_field" by (simp add: owner_field_def text_field_def)
  have r: "AppendJsonValue text_casts owner_field
      (''{'' @ quoted ''Owner'' @ '':{'' @ quoted ''Name'' @ '':'' @ quoted ''Ada'' @ '','' @
       quoted ''Seen'' @ '':'' @ quoted ''2024-01-15T10:20:30Z'' @ ''}}'')
     = Inr (CStruct [CVarchar ''Ada'', CFixed TIMESTAMP ''2024-01-15 10:20:30''])" by code_simp
  from AppendJsonValue_typed [OF t w r] show ?thesis by (simp add: owner_field_def)
qed

section \<open>Errors do not reveal values\<close>

text \<open>
  Decoding errors are value-free. Two values of the same length, both or neither of the shape
  of a URL, that cannot be decoded for a field give the same error: the message names the field
  and its types and at most the length, never the content.
\<close>

theorem AppendTypedCell_error_value_free:
  assumes "AppendTypedCell K f raw = Inl e" and "AppendTypedCell K f raw' = Inl e'"
    and "length raw = length raw'" and "IsBlobUrlReference raw = IsBlobUrlReference raw'"
  shows "e = e'"
  using assms by (auto simp: AppendTypedCell_def Let_def blob_error_def split: if_splits option.splits)

theorem AppendTypedCell_error_value_free_witness:
  "blob_error (text_field ''B'' BLOB) ''secret-1!'' = blob_error (text_field ''B'' BLOB) ''secret-2!''"
proof (rule AppendTypedCell_error_value_free)
  show "AppendTypedCell text_casts (text_field ''B'' BLOB) ''secret-1!'' = Inl (blob_error (text_field ''B'' BLOB) ''secret-1!'')"
    by code_simp
  show "AppendTypedCell text_casts (text_field ''B'' BLOB) ''secret-2!'' = Inl (blob_error (text_field ''B'' BLOB) ''secret-2!'')"
    by code_simp
  show "IsBlobUrlReference ''secret-1!'' = IsBlobUrlReference ''secret-2!''" by code_simp
qed simp

section \<open>Chunked delivery\<close>

lemma chunk_rows_append:
  "chunk_rows g (xs @ ys) = rbind (chunk_rows g xs) (\<lambda>a. rbind (chunk_rows g ys) (\<lambda>b. Inr (a @ b)))"
  by (induction xs) (auto simp: rbind_def split: sum.splits)

lemma chunk_rows_length: "chunk_rows g xs = Inr rows \<Longrightarrow> length rows = length xs"
  by (induction xs arbitrary: rows) (auto simp: rbind_eq_Inr)

text \<open>DuckDB calls a table function until a chunk is empty.\<close>

function decode_all :: "duck_types \<Rightarrow> nat \<Rightarrow> DecodeBindData \<Rightarrow> nat \<Rightarrow> cell list list result" where
  "decode_all K n b cursor =
     rbind (DecodeFunction K n b cursor) (\<lambda>(rows, cursor').
       if rows = [] then Inr [] else rbind (decode_all K n b cursor') (\<lambda>more. Inr (rows @ more)))"
  by auto
termination
proof (relation "measure (\<lambda>(K, n, b, cursor). length (db_records b) - cursor)")
  fix K n b cursor x rows cursor'
  assume "DecodeFunction K n b cursor = Inr x" "(rows, cursor') = x" "rows \<noteq> []"
  then have c: "cursor' = cursor + length (take n (drop cursor (db_records b)))"
    and r: "chunk_rows (\<lambda>r. row_cells (\<lambda>f. AppendJsonValue K f r) (db_fields b)) (take n (drop cursor (db_records b))) = Inr rows"
    by (auto simp: DecodeFunction_def Let_def rbind_eq_Inr)
  have "take n (drop cursor (db_records b)) \<noteq> []"
    using chunk_rows_length [OF r] \<open>rows \<noteq> []\<close> by (metis length_0_conv)
  with c show "((K, n, b, cursor'), (K, n, b, cursor)) \<in> measure (\<lambda>(K, n, b, cursor). length (db_records b) - cursor)"
    by auto
qed simp

declare decode_all.simps [simp del]

lemma decode_all_rest:
  assumes "0 < n"
  shows "decode_all K n b cursor =
    chunk_rows (\<lambda>r. row_cells (\<lambda>f. AppendJsonValue K f r) (db_fields b)) (drop cursor (db_records b))"
proof (induction "length (db_records b) - cursor" arbitrary: cursor rule: less_induct)
  case less
  let ?g = "\<lambda>r. row_cells (\<lambda>f. AppendJsonValue K f r) (db_fields b)"
  let ?now = "take n (drop cursor (db_records b))"
  have split: "drop cursor (db_records b) = ?now @ drop (cursor + length ?now) (db_records b)"
    by (metis add.commute append_take_drop_id drop_drop length_take append_eq_conv_conj)
  show ?case
  proof (cases "?now = []")
    case True
    with assms have d: "drop cursor (db_records b) = []" by simp
    then show ?thesis by (subst decode_all.simps) (simp add: DecodeFunction_def Let_def)
  next
    case False
    then have lt: "length (db_records b) - (cursor + length ?now) < length (db_records b) - cursor" by auto
    show ?thesis
    proof (cases "chunk_rows ?g ?now")
      case (Inl e)
      then show ?thesis
        by (subst decode_all.simps, subst split) (simp add: DecodeFunction_def Let_def chunk_rows_append)
    next
      case (Inr rows)
      with False have "rows \<noteq> []" using chunk_rows_length [OF Inr] by auto
      then have "decode_all K n b cursor = rbind (decode_all K n b (cursor + length ?now)) (\<lambda>more. Inr (rows @ more))"
        using Inr by (subst decode_all.simps) (simp add: DecodeFunction_def Let_def)
      also have "\<dots> = chunk_rows ?g (?now @ drop (cursor + length ?now) (db_records b))"
        unfolding less.hyps [OF lt] chunk_rows_append Inr by simp
      finally show ?thesis by (subst split)
    qed
  qed
qed

text \<open>
  C23: chunked delivery is lossless. For every positive vector size, the chunks of
  \<^verbatim>\<open>salesforce_decode\<close> together are the rows of all records, each once and in order, or the
  error of the first record that cannot be decoded.
\<close>

theorem decode_chunks_lossless:
  assumes "0 < vector_size"
  shows "decode_all K vector_size b 0 =
    chunk_rows (\<lambda>r. row_cells (\<lambda>f. AppendJsonValue K f r) (db_fields b)) (db_records b)"
  using decode_all_rest [OF assms, of K b 0] by simp

theorem decode_chunks_lossless_witness:
  "decode_all text_casts 2 \<lparr> db_fields = [text_field ''A'' VARCHAR], db_records = [''{}'', ''{}'', ''{}''] \<rparr> 0 =
     Inr [[CNull], [CNull], [CNull]]"
proof -
  have "chunk_rows (\<lambda>r. row_cells (\<lambda>f. AppendJsonValue text_casts f r) [text_field ''A'' VARCHAR]) [''{}'', ''{}'', ''{}''] =
     Inr [[CNull], [CNull], [CNull]]" by code_simp
  then show ?thesis
    using decode_chunks_lossless [of 2 text_casts "\<lparr> db_fields = [text_field ''A'' VARCHAR], db_records = [''{}'', ''{}'', ''{}''] \<rparr>"]
    by simp
qed

section \<open>Offsets\<close>

lemma str_find_if_at: "list_all (\<lambda>c. \<not> p c) s \<Longrightarrow> p z \<Longrightarrow> str_find_if p (s @ z # r) = Some (length s)"
  by (induction s) auto

lemma str_find_if_none: "list_all (\<lambda>c. \<not> p c) s \<Longrightarrow> str_find_if p s = None"
  by (induction s) auto

lemma str_find_first_char: "c \<notin> set s \<Longrightarrow> str_find (s @ c # t) [c] = Some (length s)"
  by (induction s) auto

text \<open>
  What happens to an offset. For a date without a \<^verbatim>\<open>T\<close> and a time without zone marks, the zone
  suffix is cut off, whatever it says: \<^verbatim>\<open>Z\<close>, \<^verbatim>\<open>+0200\<close> and any other \<^verbatim>\<open>+\<close> offset give the
  same text, the local wall clock, not the UTC one the comment promises.
\<close>

theorem NormalizeDateTime_drops_offset:
  assumes "CHR ''T'' \<notin> set d" and "list_all (\<lambda>c. \<not> is_zone c) t" and "is_zone z"
  shows "NormalizeDateTime (d @ ''T'' @ t @ z # offset) = d @ '' '' @ t"
proof -
  let ?s = "d @ CHR '' '' # t @ z # offset"
  have f: "str_find (d @ ''T'' @ t @ z # offset) ''T'' = Some (length d)"
    using str_find_first_char [OF assms(1), of "t @ z # offset"] by simp
  have u: "(d @ ''T'' @ t @ z # offset)[length d := CHR '' ''] = ?s" by simp
  have z: "find_first_of is_zone ?s (length d + 1) = Some (length d + 1 + length t)"
    using str_find_if_at [OF assms(2,3), of offset] by (simp add: find_first_of_def)
  have "NormalizeDateTime (d @ ''T'' @ t @ z # offset) = take (length d + 1 + length t) ?s"
    unfolding NormalizeDateTime_def f u Let_def option.case z ..
  then show ?thesis by simp
qed

theorem NormalizeDateTime_drops_offset_witness:
  "NormalizeDateTime ''2024-01-15T10:20:30.000+0200'' = ''2024-01-15 10:20:30.000'' \<and>
   NormalizeDateTime ''2024-01-15T10:20:30.000Z'' = ''2024-01-15 10:20:30.000''"
  using NormalizeDateTime_drops_offset [of "''2024-01-15''" "''10:20:30.000''" "CHR ''+''" "''0200''"]
    NormalizeDateTime_drops_offset [of "''2024-01-15''" "''10:20:30.000''" "CHR ''Z''" "[]"]
  by (simp add: is_zone_def)

end
