(* ===== verification/SF_Soql.thy ===== *)
theory SF_Soql
  imports SF_Types
begin

text \<open>
  SOQL generation and filter pushdown (\<^verbatim>\<open>salesforce_soql.cpp\<close>). DuckDB's bound expressions
  are a datatype with one constructor per expression class the code tells apart (the 1.5.x
  classes). The translator returns the clause and its exactness flag, \<^term>\<open>None\<close> for "leave residual", and
  the one exception it lets through.

  What the generated WHERE means, and that pushing filters down neither loses nor adds rows,
  is the subject of \<^verbatim>\<open>SF_Pushdown\<close>.
\<close>

datatype ExpressionType =
    COMPARE_EQUAL | COMPARE_NOTEQUAL | COMPARE_LESSTHAN | COMPARE_GREATERTHAN
  | COMPARE_LESSTHANOREQUALTO | COMPARE_GREATERTHANOREQUALTO | COMPARE_IN
  | OPERATOR_IS_NULL | OPERATOR_IS_NOT_NULL | CONJUNCTION_AND | CONJUNCTION_OR | OTHER_TYPE_EXPR

datatype expr =
    BoundColumnRef nat
  | BoundConstant Value
  | BoundComparison ExpressionType expr expr
  | BoundBetween expr expr expr bool bool
  | BoundOperator ExpressionType "expr list"
  | BoundFunction string "expr list"
  | BoundConjunction ExpressionType "expr list"
  | OtherExpr "expr list"

section \<open>Literals\<close>

definition soql_escape_char :: "char \<Rightarrow> string" where
  "soql_escape_char c = (if c = BSL \<or> c = SQ then [BSL, c] else [c])"

definition SoqlString :: "string \<Rightarrow> string" where
  "SoqlString s = [SQ] @ concat (map soql_escape_char s) @ [SQ]"

definition SoqlLiteral :: "Value \<Rightarrow> string result" where
  "SoqlLiteral v =
     (if v_IsNull v then Inr ''null''
      else (case v_type v of
              VARCHAR \<Rightarrow> Inr (SoqlString (v_StringGet v))
            | BOOLEAN \<Rightarrow> Inr (if v_BoolGet v then ''true'' else ''false'')
            | TINYINT \<Rightarrow> Inr (v_ToString v) | SMALLINT \<Rightarrow> Inr (v_ToString v)
            | INTEGER \<Rightarrow> Inr (v_ToString v) | BIGINT \<Rightarrow> Inr (v_ToString v)
            | UTINYINT \<Rightarrow> Inr (v_ToString v) | USMALLINT \<Rightarrow> Inr (v_ToString v)
            | UINTEGER \<Rightarrow> Inr (v_ToString v) | UBIGINT \<Rightarrow> Inr (v_ToString v)
            | FLOAT \<Rightarrow> Inr (v_ToString v) | DOUBLE \<Rightarrow> Inr (v_ToString v)
            | DECIMAL _ _ \<Rightarrow> Inr (v_ToString v)
            | DATE \<Rightarrow> Inr (v_ToString v)
            | TIMESTAMP \<Rightarrow>
                Inr ((case str_find (v_ToString v) '' '' of
                        None \<Rightarrow> v_ToString v
                      | Some sp \<Rightarrow> (v_ToString v)[sp := CHR ''T'']) @ ''Z'')
            | TIME \<Rightarrow> Inr (v_ToString v @ ''Z'')
            | _ \<Rightarrow> Inl (NotImplementedException ''unsupported SOQL literal type'')))"

fun ComparisonOp :: "ExpressionType \<Rightarrow> string option" where
  "ComparisonOp COMPARE_EQUAL = Some ''=''"
| "ComparisonOp COMPARE_NOTEQUAL = Some ''!=''"
| "ComparisonOp COMPARE_LESSTHAN = Some ''<''"
| "ComparisonOp COMPARE_GREATERTHAN = Some ''>''"
| "ComparisonOp COMPARE_LESSTHANOREQUALTO = Some ''<=''"
| "ComparisonOp COMPARE_GREATERTHANOREQUALTO = Some ''>=''"
| "ComparisonOp _ = None"

fun FlipComparison :: "ExpressionType \<Rightarrow> ExpressionType option" where
  "FlipComparison COMPARE_EQUAL = Some COMPARE_EQUAL"
| "FlipComparison COMPARE_NOTEQUAL = Some COMPARE_NOTEQUAL"
| "FlipComparison COMPARE_LESSTHAN = Some COMPARE_GREATERTHAN"
| "FlipComparison COMPARE_GREATERTHAN = Some COMPARE_LESSTHAN"
| "FlipComparison COMPARE_LESSTHANOREQUALTO = Some COMPARE_GREATERTHANOREQUALTO"
| "FlipComparison COMPARE_GREATERTHANOREQUALTO = Some COMPARE_LESSTHANOREQUALTO"
| "FlipComparison _ = None"

section \<open>Fields and Ids\<close>

fun FieldFor :: "SalesforceField list \<Rightarrow> nat list \<Rightarrow> expr \<Rightarrow> string option" where
  "FieldFor flds p2f (BoundColumnRef proj) =
     (if proj \<ge> length p2f then None
      else let idx = p2f ! proj
           in if idx \<ge> length flds \<or> \<not> f_filterable (flds ! idx) then None
              else Some (f_name (flds ! idx)))"
| "FieldFor flds p2f _ = None"

definition kMaxInItems :: nat where "kMaxInItems = 200"

definition kMaxWhereChars :: nat where "kMaxWhereChars = 4000"

definition IsValidSalesforceIdText :: "string \<Rightarrow> bool" where
  "IsValidSalesforceIdText s \<longleftrightarrow> (length s = 15 \<or> length s = 18) \<and> list_all isalnum s"

definition FieldStructFor :: "string_util \<Rightarrow> SalesforceField list \<Rightarrow> string \<Rightarrow> SalesforceField option" where
  "FieldStructFor D flds name = List.find (\<lambda>f. su_CIEquals D (f_name f) name) flds"

definition invalid_id_message :: "string \<Rightarrow> string \<Rightarrow> string" where
  "invalid_id_message val field =
     ''salesforce: invalid Salesforce Id '' @ [SQ] @ val @ [SQ] @ '' for field '' @ [SQ] @ field @ [SQ] @
     '' - expected 15 or 18 alphanumeric characters (Salesforce rejects this predicate '' @
     ''with INVALID_QUERY_FILTER_OPERATOR).''"

fun check_id_loop :: "string \<Rightarrow> Value list \<Rightarrow> unit result" where
  "check_id_loop field [] = Inr ()"
| "check_id_loop field (v # vs) =
     (if v_IsNull v \<or> IsValidSalesforceIdText (v_ToString v) then check_id_loop field vs
      else Inl (BinderException (invalid_id_message (v_ToString v) field)))"

definition CheckIdLiterals :: "string_util \<Rightarrow> SalesforceField list \<Rightarrow> string \<Rightarrow> Value list \<Rightarrow> unit result" where
  "CheckIdLiterals D flds field literals =
     (case FieldStructFor D flds field of
        None \<Rightarrow> Inr ()
      | Some fld \<Rightarrow> if su_Lower D (f_sf_type fld) \<noteq> ''id'' then Inr () else check_id_loop field literals)"

section \<open>The translator\<close>

fun const_value :: "expr \<Rightarrow> Value option" where
  "const_value (BoundConstant v) = Some v"
| "const_value _ = None"

text \<open>A translated conjunct: the SOQL text and whether it is exact.\<close>

type_synonym translation = "(string \<times> bool) option"

definition cmp_clause :: "string \<Rightarrow> string \<Rightarrow> string \<Rightarrow> string" where
  "cmp_clause field op lit = field @ '' '' @ op @ '' '' @ lit"

text \<open>
  The tail of the comparison case, once the column, the operator and the constant are known.
  A literal of an unsupported type throws inside the \<^verbatim>\<open>try\<close> and is caught: residual.
\<close>

definition translate_cmp ::
  "string_util \<Rightarrow> SalesforceField list \<Rightarrow> string \<Rightarrow> ExpressionType \<Rightarrow> Value \<Rightarrow> translation result" where
  "translate_cmp D flds field cmp v =
     (case ComparisonOp cmp of
        None \<Rightarrow> Inr None
      | Some op \<Rightarrow>
          rbind (if cmp = COMPARE_EQUAL \<or> cmp = COMPARE_NOTEQUAL
                 then CheckIdLiterals D flds field [v] else Inr ())
            (\<lambda>_. case SoqlLiteral v of
                   Inl _ \<Rightarrow> Inr None
                 | Inr lit \<Rightarrow> Inr (Some (cmp_clause field op lit, True))))"

definition translate_comparison ::
  "string_util \<Rightarrow> SalesforceField list \<Rightarrow> nat list \<Rightarrow> ExpressionType \<Rightarrow> expr \<Rightarrow> expr \<Rightarrow> translation result" where
  "translate_comparison D flds p2f etype l r =
     (case (FieldFor flds p2f l, const_value r) of
        (Some field, Some v) \<Rightarrow> translate_cmp D flds field etype v
      | _ \<Rightarrow>
          (case (FieldFor flds p2f r, const_value l) of
             (Some field, Some v) \<Rightarrow>
               (case FlipComparison etype of
                  None \<Rightarrow> Inr None
                | Some cmp \<Rightarrow> translate_cmp D flds field cmp v)
           | _ \<Rightarrow> Inr None))"

definition translate_between ::
  "SalesforceField list \<Rightarrow> nat list \<Rightarrow> expr \<Rightarrow> expr \<Rightarrow> expr \<Rightarrow> bool \<Rightarrow> bool \<Rightarrow> translation result" where
  "translate_between flds p2f input lower upper lo_inc hi_inc =
     (case FieldFor flds p2f input of
        None \<Rightarrow> Inr None
      | Some field \<Rightarrow>
          (case (const_value lower, const_value upper) of
             (Some lo, Some hi) \<Rightarrow>
               if v_IsNull lo \<or> v_IsNull hi then Inr None
               else (case (ComparisonOp (if lo_inc then COMPARE_GREATERTHANOREQUALTO else COMPARE_GREATERTHAN),
                           ComparisonOp (if hi_inc then COMPARE_LESSTHANOREQUALTO else COMPARE_LESSTHAN),
                           SoqlLiteral lo, SoqlLiteral hi) of
                       (Some lo_op, Some hi_op, Inr lo_lit, Inr hi_lit) \<Rightarrow>
                         Inr (Some (''('' @ cmp_clause field lo_op lo_lit @ '' AND '' @
                                     cmp_clause field hi_op hi_lit @ '')'', True))
                     | _ \<Rightarrow> Inr None)
           | _ \<Rightarrow> Inr None))"

fun literals_of :: "Value list \<Rightarrow> string list result" where
  "literals_of [] = Inr []"
| "literals_of (v # vs) = rbind (SoqlLiteral v) (\<lambda>l. rbind (literals_of vs) (\<lambda>ls. Inr (l # ls)))"

fun const_values :: "expr list \<Rightarrow> Value list option" where
  "const_values [] = Some []"
| "const_values (e # es) =
     (case const_value e of None \<Rightarrow> None | Some v \<Rightarrow> map_option ((#) v) (const_values es))"

definition translate_in ::
  "string_util \<Rightarrow> SalesforceField list \<Rightarrow> nat list \<Rightarrow> expr list \<Rightarrow> translation result" where
  "translate_in D flds p2f children =
     (case children of
        c0 # c1 # cs \<Rightarrow>
          (case FieldFor flds p2f c0 of
             None \<Rightarrow> Inr None
           | Some field \<Rightarrow>
               if length (c1 # cs) > kMaxInItems then Inr None
               else (case const_values (c1 # cs) of
                       None \<Rightarrow> Inr None
                     | Some vs \<Rightarrow>
                         (case literals_of vs of
                            Inl _ \<Rightarrow> Inr None
                          | Inr lits \<Rightarrow>
                              rbind (CheckIdLiterals D flds field vs)
                                (\<lambda>_. Inr (Some (field @ '' IN ('' @ sep_by '', '' lits @ '')'', False))))))
      | _ \<Rightarrow> Inr None)"

definition like_pattern :: "string \<Rightarrow> string \<Rightarrow> string" where
  "like_pattern fn sub =
     (if fn = ''~~'' then sub else if fn = ''prefix'' then sub @ ''%''
      else if fn = ''suffix'' then ''%'' @ sub else ''%'' @ sub @ ''%'')"

definition translate_like ::
  "SalesforceField list \<Rightarrow> nat list \<Rightarrow> string \<Rightarrow> expr list \<Rightarrow> translation result" where
  "translate_like flds p2f fn children =
     (if fn \<notin> {''~~'', ''prefix'', ''suffix'', ''contains''} then Inr None
      else (case children of
              [c0, c1] \<Rightarrow>
                (case (FieldFor flds p2f c0, const_value c1) of
                   (Some field, Some v) \<Rightarrow>
                     if v_IsNull v \<or> v_type v \<noteq> VARCHAR then Inr None
                     else Inr (Some (field @ '' LIKE '' @ SoqlString (like_pattern fn (v_StringGet v)), False))
                 | _ \<Rightarrow> Inr None)
            | _ \<Rightarrow> Inr None))"

definition conj_word :: "ExpressionType \<Rightarrow> string" where
  "conj_word etype = (if etype = CONJUNCTION_OR then '' OR '' else '' AND '')"

fun TranslateExpr ::
    "string_util \<Rightarrow> SalesforceField list \<Rightarrow> nat list \<Rightarrow> expr \<Rightarrow> translation result"
and TranslateChildren ::
    "string_util \<Rightarrow> SalesforceField list \<Rightarrow> nat list \<Rightarrow> expr list \<Rightarrow> (string \<times> bool) list option result"
where
  "TranslateExpr D flds p2f (BoundComparison etype l r) = translate_comparison D flds p2f etype l r"
| "TranslateExpr D flds p2f (BoundBetween input lower upper lo_inc hi_inc) =
     translate_between flds p2f input lower upper lo_inc hi_inc"
| "TranslateExpr D flds p2f (BoundOperator etype children) =
     (if etype = OPERATOR_IS_NULL \<or> etype = OPERATOR_IS_NOT_NULL then
        (case children of
           [c] \<Rightarrow> (case FieldFor flds p2f c of
                     None \<Rightarrow> Inr None
                   | Some field \<Rightarrow>
                       Inr (Some (field @ (if etype = OPERATOR_IS_NULL then '' = null'' else '' != null''), True)))
         | _ \<Rightarrow> Inr None)
      else if etype = COMPARE_IN then translate_in D flds p2f children
      else Inr None)"
| "TranslateExpr D flds p2f (BoundFunction fn children) = translate_like flds p2f fn children"
| "TranslateExpr D flds p2f (BoundConjunction etype children) =
     (if etype = CONJUNCTION_OR \<or> etype = CONJUNCTION_AND then
        rbind (TranslateChildren D flds p2f children)
          (\<lambda>t. case t of
                 None \<Rightarrow> Inr None
               | Some cs \<Rightarrow>
                   Inr (Some (''('' @ sep_by (conj_word etype) (map fst cs) @ '')'',
                              etype = CONJUNCTION_AND \<and> list_all snd cs)))
      else Inr None)"
| "TranslateExpr D flds p2f (BoundColumnRef n) = Inr None"
| "TranslateExpr D flds p2f (BoundConstant v) = Inr None"
| "TranslateExpr D flds p2f (OtherExpr es) = Inr None"
| "TranslateChildren D flds p2f [] = Inr (Some [])"
| "TranslateChildren D flds p2f (e # es) =
     rbind (TranslateExpr D flds p2f e)
       (\<lambda>t. case t of
              None \<Rightarrow> Inr None
            | Some c \<Rightarrow> rbind (TranslateChildren D flds p2f es) (\<lambda>ts. Inr (map_option ((#) c) ts)))"

section \<open>The pushdown of a filter list\<close>

record PushdownConjunctInfo =
  pi_translated :: bool
  pi_exact :: bool

record pushdown =
  pd_where :: string
  pd_remaining :: "expr list"
  pd_info :: "PushdownConjunctInfo list"

fun translate_all ::
  "string_util \<Rightarrow> SalesforceField list \<Rightarrow> nat list \<Rightarrow> expr list \<Rightarrow> translation list result" where
  "translate_all D flds p2f [] = Inr []"
| "translate_all D flds p2f (e # es) =
     rbind (TranslateExpr D flds p2f e)
       (\<lambda>t. rbind (translate_all D flds p2f es) (\<lambda>ts. Inr (t # ts)))"

definition info_of :: "translation \<Rightarrow> PushdownConjunctInfo" where
  "info_of t = (case t of None \<Rightarrow> \<lparr>pi_translated = False, pi_exact = False\<rparr>
                | Some (_, ex) \<Rightarrow> \<lparr>pi_translated = True, pi_exact = ex\<rparr>)"

definition clauses_of :: "translation list \<Rightarrow> string list" where
  "clauses_of ts = map fst (map the (filter (\<lambda>t. t \<noteq> None) ts))"

definition PushdownToSoql ::
  "string_util \<Rightarrow> SalesforceField list \<Rightarrow> nat list \<Rightarrow> expr list \<Rightarrow> pushdown result" where
  "PushdownToSoql D flds p2f filters =
     rbind (translate_all D flds p2f filters)
       (\<lambda>ts.
          let wh = sep_by '' AND '' (clauses_of ts)
          in if length wh > kMaxWhereChars then
               Inr \<lparr>pd_where = [], pd_remaining = filters, pd_info = map (\<lambda>_. info_of None) filters\<rparr>
             else
               Inr \<lparr>pd_where = wh,
                    pd_remaining = map fst (filter (\<lambda>(f, t). \<not> (pi_translated (info_of t) \<and> pi_exact (info_of t)))
                                              (zip filters ts)),
                    pd_info = map info_of ts\<rparr>)"

definition BuildSelectSoql :: "string \<Rightarrow> string list \<Rightarrow> string \<Rightarrow> nat option \<Rightarrow> string" where
  "BuildSelectSoql object select_fields where_clause limit =
     ''SELECT '' @ sep_by '', '' select_fields @ '' FROM '' @ object @
     (if where_clause \<noteq> [] then '' WHERE '' @ where_clause else []) @
     (case limit of None \<Rightarrow> [] | Some n \<Rightarrow> '' LIMIT '' @ show_nat n)"

section \<open>String literals cannot be broken out of\<close>

text \<open>
  How SOQL reads a string literal, after its opening quote: a backslash takes the next
  character literally, an unescaped quote ends the literal.
\<close>

fun soql_read_string :: "string \<Rightarrow> (string \<times> string) option" where
  "soql_read_string [] = None"
| "soql_read_string (c # s) =
     (if c = BSL then
        (case s of [] \<Rightarrow> None | e # t \<Rightarrow> map_option (apfst ((#) e)) (soql_read_string t))
      else if c = SQ then Some ([], s)
      else map_option (apfst ((#) c)) (soql_read_string s))"

lemma SoqlString_read: "soql_read_string (drop 1 (SoqlString s) @ rest) = Some (s, rest)"
proof -
  have "soql_read_string (concat (map soql_escape_char s) @ SQ # rest) = Some (s, rest)"
    by (induction s) (simp_all add: soql_escape_char_def)
  then show ?thesis by (simp add: SoqlString_def)
qed

text \<open>
  C7: no string constant can end its SOQL literal early. Read the way SOQL reads literals, the
  generated literal gives back exactly the string and stops exactly at its own closing quote,
  whatever quotes and backslashes the string holds and whatever follows it in the query.
\<close>

theorem SoqlString_unbreakable:
  "SoqlString s @ rest = SQ # drop 1 (SoqlString s) @ rest
   \<and> soql_read_string (drop 1 (SoqlString s) @ rest) = Some (s, rest)"
  using SoqlString_read [of s rest] by (simp add: SoqlString_def)

end
