(* ===== verification/SF_Chunk.thy ===== *)
theory SF_Chunk
  imports SF_Soql
begin

text \<open>
  Primary-key chunking (the helpers of \<^verbatim>\<open>salesforce_scan.cpp\<close>): the Id range of a Bulk scan is
  cut into at most eight WHERE clauses by interpolating the first ten characters of the
  smallest and the largest Id as base-62 numbers. The numbers are 64-bit words, as in the code.

  Shown: the arithmetic never wraps, and the ranges are a partition: every Id between the
  smallest and the largest lies in exactly one of them.
\<close>

section \<open>Ids as numbers\<close>

definition Base62Val :: "char \<Rightarrow> nat" where
  "Base62Val c =
     (if isdigit c then code_of c - 48
      else if isupper c then code_of c - 65 + 10
      else if islower c then code_of c - 97 + 36
      else 0)"

definition Base62Char :: "nat \<Rightarrow> char" where
  "Base62Char v =
     (if v < 10 then char_of (48 + v) else if v < 36 then char_of (65 + v - 10) else char_of (97 + v - 36))"

definition kIdPrec :: nat where "kIdPrec = 10"

definition IdToNum :: "string \<Rightarrow> 64 word" where
  "IdToNum s =
     foldl (\<lambda>v i. v * 62 + of_nat (if i < length s then Base62Val (s ! i) else 0)) 0 [0..<kIdPrec]"

fun id_digits :: "nat \<Rightarrow> 64 word \<Rightarrow> string" where
  "id_digits 0 v = []"
| "id_digits (Suc k) v = id_digits k (v div 62) @ [Base62Char (unat (v mod 62))]"

definition NumToId :: "64 word \<Rightarrow> nat \<Rightarrow> string" where
  "NumToId v len =
     (let pre = id_digits kIdPrec v
      in if len \<le> kIdPrec then take len pre else pre @ replicate (len - kIdPrec) (CHR ''0''))"

section \<open>Ranges\<close>

definition id_boundary :: "string \<Rightarrow> string \<Rightarrow> nat \<Rightarrow> nat \<Rightarrow> string" where
  "id_boundary min_id max_id n i =
     (let lo = IdToNum min_id; hi = IdToNum max_id;
          id_len = (if length min_id \<ge> length max_id then length min_id else length max_id)
      in NumToId (lo + (hi - lo) * of_nat i div of_nat n) id_len)"

definition id_boundaries :: "string \<Rightarrow> string \<Rightarrow> nat \<Rightarrow> string list" where
  "id_boundaries min_id max_id n = min_id # map (id_boundary min_id max_id n) [1..<n] @ [max_id]"

text \<open>
  The loop over the boundaries: a range is its lower bound, its upper bound and whether the
  upper bound belongs to it; a collapsed range is skipped, except the first.
\<close>

fun id_ranges :: "bool \<Rightarrow> string list \<Rightarrow> (string \<times> string \<times> bool) list" where
  "id_ranges first (lo # hi # rest) =
     (if \<not> first \<and> hi \<le> lo then [] else [(lo, hi, rest = [])]) @ id_ranges False (hi # rest)"
| "id_ranges first _ = []"

definition range_where :: "string \<Rightarrow> string \<times> string \<times> bool \<Rightarrow> string" where
  "range_where pushed r =
     (case r of (lo, hi, incl) \<Rightarrow>
        let range = ''Id >= '' @ [SQ] @ lo @ [SQ] @ '' AND Id '' @ (if incl then ''<='' else ''<'') @ '' '' @ [SQ] @ hi @ [SQ]
        in if pushed = [] then range else ''('' @ pushed @ '') AND ('' @ range @ '')'')"

definition BuildIdRangeWheres :: "string \<Rightarrow> string \<Rightarrow> string \<Rightarrow> nat \<Rightarrow> string list" where
  "BuildIdRangeWheres pushed min_id max_id n =
     map (range_where pushed) (id_ranges True (id_boundaries min_id max_id n))"

section \<open>Base 62\<close>

lemma Base62Val_less: "Base62Val c < 62"
  by (auto simp: Base62Val_def isdigit_def isupper_def islower_def)

lemma Base62_inverse: "isalnum c \<Longrightarrow> Base62Char (Base62Val c) = c"
  by (auto simp: Base62Char_def Base62Val_def isalnum_def isdigit_def isupper_def islower_def)

lemma Base62Char_mono: "v < w \<Longrightarrow> w < 62 \<Longrightarrow> Base62Char v < Base62Char w"
  by (auto simp: Base62Char_def less_char_def)

text \<open>The same computations on unbounded numbers.\<close>

definition id_num :: "string \<Rightarrow> nat" where
  "id_num s = foldl (\<lambda>v i. v * 62 + (if i < length s then Base62Val (s ! i) else 0)) 0 [0..<kIdPrec]"

fun num_digits :: "nat \<Rightarrow> nat \<Rightarrow> string" where
  "num_digits 0 v = []"
| "num_digits (Suc k) v = num_digits k (v div 62) @ [Base62Char (v mod 62)]"

lemma length_num_digits [simp]: "length (num_digits k v) = k"
  by (induction k arbitrary: v) simp_all

lemma id_digits_num: "id_digits k v = num_digits k (unat v)"
  by (induction k arbitrary: v) (simp_all add: unat_div unat_mod)

lemma foldl_base62_bound:
  assumes "\<And>i. d i < (62 :: nat)"
  shows "foldl (\<lambda>v i. v * 62 + d i) 0 [0..<k] < 62 ^ k"
proof (induction k)
  case 0
  then show ?case by simp
next
  case (Suc k)
  then have "foldl (\<lambda>v i. v * 62 + d i) 0 [0..<k] + 1 \<le> 62 ^ k" by simp
  then have "(foldl (\<lambda>v i. v * 62 + d i) 0 [0..<k] + 1) * 62 \<le> 62 ^ k * 62" by (rule mult_le_mono1)
  moreover have "d k < 62" by (rule assms)
  ultimately show ?case by simp
qed

lemma foldl_base62_word:
  assumes "\<And>i. d i < (62 :: nat)" and "k \<le> 10"
  shows "unat (foldl (\<lambda>v i. v * 62 + of_nat (d i)) (0 :: 64 word) [0..<k]) = foldl (\<lambda>v i. v * 62 + d i) 0 [0..<k]"
  using assms(2)
proof (induction k)
  case 0
  then show ?case by simp
next
  case (Suc k)
  let ?w = "foldl (\<lambda>v i. v * 62 + of_nat (d i)) (0 :: 64 word) [0..<k]"
  have b: "foldl (\<lambda>v i. v * 62 + d i) 0 [0..<Suc k] < 62 ^ Suc k" by (rule foldl_base62_bound [OF assms(1)])
  also have "(62 :: nat) ^ Suc k \<le> 62 ^ 10" using Suc.prems by (intro power_increasing) auto
  also have "\<dots> < 2 ^ 64" by simp
  finally have lt: "unat ?w * 62 + d k < 2 ^ 64" using Suc by simp
  have e: "?w * 62 + of_nat (d k) = of_nat (unat ?w * 62 + d k)" by simp
  have "unat (?w * 62 + of_nat (d k)) = unat ?w * 62 + d k"
    unfolding e unat_of_nat using lt by simp
  with Suc show ?case by simp
qed

lemma id_num_bound: "id_num s < 62 ^ 10"
  unfolding id_num_def kIdPrec_def by (rule foldl_base62_bound) (simp add: Base62Val_less)

lemma IdToNum_num: "unat (IdToNum s) = id_num s"
  unfolding IdToNum_def id_num_def kIdPrec_def by (rule foldl_base62_word) (simp_all add: Base62Val_less)

section \<open>Digits and order\<close>

lemma num_digits_id_num:
  assumes "list_all isalnum s" and "k \<le> length s"
  shows "num_digits k (foldl (\<lambda>v i. v * 62 + (if i < length s then Base62Val (s ! i) else 0)) 0 [0..<k]) = take k s"
  using assms(2)
proof (induction k)
  case 0
  then show ?case by simp
next
  case (Suc k)
  let ?v = "foldl (\<lambda>v i. v * 62 + (if i < length s then Base62Val (s ! i) else 0)) 0 [0..<k]"
  have k: "k < length s" using Suc.prems by simp
  have "(?v * 62 + Base62Val (s ! k)) div 62 = ?v" "(?v * 62 + Base62Val (s ! k)) mod 62 = Base62Val (s ! k)"
    using Base62Val_less [of "s ! k"] by simp_all
  moreover have "isalnum (s ! k)" using assms(1) k by (simp add: list_all_length)
  ultimately show ?case
    using Suc.IH k by (simp add: take_Suc_conv_app_nth Base62_inverse)
qed

lemma id_digits_take: "list_all isalnum s \<Longrightarrow> 10 \<le> length s \<Longrightarrow> num_digits 10 (id_num s) = take 10 s"
  unfolding id_num_def kIdPrec_def by (rule num_digits_id_num)

lemma less_append_eqlen:
  "length xs = length ys \<Longrightarrow> xs < ys \<Longrightarrow> xs @ us < ys @ (vs :: string)"
proof (induction xs ys rule: list_induct2)
  case Nil
  then show ?case by simp
next
  case (Cons x xs y ys)
  then show ?case by auto
qed

lemma less_append_same: "xs @ us < xs @ vs \<longleftrightarrow> us < (vs :: string)"
  by (induction xs) auto

lemma less_by_prefix:
  assumes "length us = length vs" and "take n us < take n vs"
  shows "us < (vs :: string)"
  using less_append_eqlen [of "take n us" "take n vs" "drop n us" "drop n vs"] assms by simp

lemma num_digits_less: "v < w \<Longrightarrow> w < 62 ^ k \<Longrightarrow> num_digits k v < num_digits k w"
proof (induction k arbitrary: v w)
  case 0
  then show ?case by simp
next
  case (Suc k)
  have w: "w div 62 < 62 ^ k" using Suc.prems(2) by (simp add: less_mult_imp_div_less mult.commute)
  show ?case
  proof (cases "v div 62 < w div 62")
    case True
    from Suc.IH [OF True w] show ?thesis by (simp add: less_append_eqlen)
  next
    case False
    then have e: "v div 62 = w div 62" using Suc.prems(1) by (meson div_le_mono le_antisym less_imp_le not_less)
    have "v mod 62 < w mod 62"
      using Suc.prems(1) e by (metis div_mult_mod_eq nat_add_left_cancel_less)
    then have "Base62Char (v mod 62) < Base62Char (w mod 62)" by (rule Base62Char_mono) simp
    then show ?thesis by (simp add: e less_append_same)
  qed
qed

lemma num_digits_mono: "v \<le> w \<Longrightarrow> w < 62 ^ k \<Longrightarrow> num_digits k v \<le> num_digits k w"
  using num_digits_less [of v w k] by (cases "v = w") auto

definition pad_id :: "nat \<Rightarrow> nat \<Rightarrow> string" where
  "pad_id v len = num_digits 10 v @ replicate (len - 10) (CHR ''0'')"

lemma NumToId_pad: "10 \<le> len \<Longrightarrow> NumToId v len = pad_id (unat v) len"
  by (auto simp: NumToId_def pad_id_def Let_def kIdPrec_def id_digits_num)

lemma pad_id_mono: "v \<le> w \<Longrightarrow> w < 62 ^ 10 \<Longrightarrow> pad_id v len \<le> pad_id w len"
  using num_digits_less [of v w 10] less_append_eqlen [of "num_digits 10 v" "num_digits 10 w"]
  by (cases "v = w") (auto simp: pad_id_def intro!: less_imp_le)

text \<open>A pair of Ids as the MIN/MAX probe returns them.\<close>

definition id_range :: "string \<Rightarrow> string \<Rightarrow> bool" where
  "id_range mn mx \<longleftrightarrow> list_all isalnum mn \<and> list_all isalnum mx \<and> length mn = length mx \<and> 10 \<le> length mx \<and> mn < mx"

lemma id_num_le:
  assumes "id_range mn mx"
  shows "id_num mn \<le> id_num mx"
proof (rule ccontr)
  assume "\<not> id_num mn \<le> id_num mx"
  then have "num_digits 10 (id_num mx) < num_digits 10 (id_num mn)"
    by (intro num_digits_less id_num_bound) simp
  then have "take 10 mx < take 10 mn" using assms by (simp add: id_range_def id_digits_take)
  then have "mx < mn" using assms by (intro less_by_prefix [of mx mn 10]) (simp_all add: id_range_def)
  with assms show False by (auto simp: id_range_def)
qed

lemma zeros_least: "list_all isalnum s \<Longrightarrow> replicate (length s) (CHR ''0'') \<le> s"
proof (induction s)
  case Nil
  then show ?case by simp
next
  case (Cons c s)
  have "CHR ''0'' < c \<or> CHR ''0'' = c"
  proof -
    from Cons.prems have "48 \<le> code_of c" by (auto simp: isalnum_def isdigit_def isupper_def islower_def)
    then have "code_of (CHR ''0'') \<le> code_of c" by simp
    then show ?thesis unfolding less_char_def by (metis le_neq_implies_less of_char_eq_iff)
  qed
  with Cons show ?case by auto
qed

lemma pad_id_below_max:
  assumes "id_range mn mx" and "v \<le> id_num mx" and "v < id_num mx \<or> id_num mn = id_num mx"
  shows "pad_id v (length mx) < mx"
proof (cases "v < id_num mx")
  case True
  then have "num_digits 10 v < take 10 mx"
    using num_digits_less [OF True id_num_bound] assms(1) by (simp add: id_range_def id_digits_take)
  moreover have "take 10 (pad_id v (length mx)) = num_digits 10 v" by (simp add: pad_id_def)
  moreover have "length (pad_id v (length mx)) = length mx" using assms(1) by (simp add: pad_id_def id_range_def)
  ultimately show ?thesis by (metis less_by_prefix)
next
  case False
  with assms(2,3) have v: "v = id_num mx" "id_num mn = id_num mx" by auto
  have t: "take 10 mn = take 10 mx"
    using v(2) assms(1) by (metis id_digits_take id_range_def)
  have mn: "mn = take 10 mx @ drop 10 mn" and mx: "mx = take 10 mx @ drop 10 mx"
    using t by (metis append_take_drop_id)+
  have "take 10 mx @ drop 10 mn < take 10 mx @ drop 10 mx"
    using assms(1) mn mx by (simp add: id_range_def)
  then have d: "drop 10 mn < drop 10 mx" by (simp only: less_append_same)
  have "list_all isalnum (drop 10 mn)" using assms(1) by (auto simp: id_range_def list_all_iff dest: in_set_dropD)
  then have "replicate (length mx - 10) (CHR ''0'') \<le> drop 10 mn"
    using zeros_least [of "drop 10 mn"] assms(1) by (simp add: id_range_def)
  with d have "replicate (length mx - 10) (CHR ''0'') < drop 10 mx" by simp
  then have "pad_id v (length mx) < take 10 mx @ drop 10 mx"
    using assms(1) by (simp add: pad_id_def v id_range_def id_digits_take less_append_same del: append_take_drop_id)
  then show ?thesis by simp
qed

section \<open>The interpolation does not wrap\<close>

lemma interpolation_num:
  assumes "id_range mn mx" and "i \<le> n" and "0 < n" and "n \<le> 8"
  shows "unat (IdToNum mn + (IdToNum mx - IdToNum mn) * of_nat i div of_nat n)
    = id_num mn + (id_num mx - id_num mn) * i div n"
proof -
  let ?lo = "IdToNum mn" and ?hi = "IdToNum mx"
  have le: "id_num mn \<le> id_num mx" by (rule id_num_le [OF assms(1)])
  have sub: "unat (?hi - ?lo) = id_num mx - id_num mn"
    using le by (simp add: unat_sub word_le_nat_alt IdToNum_num)
  have i: "unat (of_nat i :: 64 word) = i" "unat (of_nat n :: 64 word) = n"
    using assms(2,4) by (simp_all add: unat_of_nat)
  have m: "(id_num mx - id_num mn) * i < 62 ^ 10 * 8 + 1"
  proof -
    have "(id_num mx - id_num mn) * i \<le> 62 ^ 10 * 8"
      using id_num_bound [of mx] assms(2,4) by (intro mult_le_mono) auto
    then show ?thesis by simp
  qed
  then have mul: "unat ((?hi - ?lo) * of_nat i) = (id_num mx - id_num mn) * i"
    by (subst unat_mult_lem [THEN iffD1]) (simp_all add: sub i)
  have q: "(id_num mx - id_num mn) * i div n \<le> id_num mx - id_num mn"
  proof -
    have "(id_num mx - id_num mn) * i div n \<le> (id_num mx - id_num mn) * n div n"
      using assms(2) by (intro div_le_mono) simp
    then show ?thesis using assms(3) by simp
  qed
  have s: "id_num mn + (id_num mx - id_num mn) * i div n < 2 ^ 64"
    using q le id_num_bound [of mx] by simp
  show ?thesis
    by (subst unat_add_lem [THEN iffD1]) (use s in \<open>simp_all add: unat_div mul i IdToNum_num\<close>)
qed

section \<open>The partition\<close>

definition in_range :: "string \<Rightarrow> string \<times> string \<times> bool \<Rightarrow> bool" where
  "in_range s r = (case r of (lo, hi, incl) \<Rightarrow> lo \<le> s \<and> (if incl then s \<le> hi else s < hi))"

lemma in_range_simp: "in_range s (lo, hi, incl) \<longleftrightarrow> lo \<le> s \<and> (if incl then s \<le> hi else s < hi)"
  by (simp add: in_range_def)

lemma ranges_above:
  assumes "sorted (lo # bs)" and "s < lo"
  shows "filter (in_range s) (id_ranges first (lo # bs @ [mx])) = []"
  using assms
proof (induction bs arbitrary: lo first)
  case Nil
  then show ?case by (auto simp: in_range_simp)
next
  case (Cons b bs)
  have "sorted (b # bs)" using Cons.prems(1) by simp
  moreover have "s < b" using Cons.prems by auto
  ultimately have "filter (in_range s) (id_ranges False (b # bs @ [mx])) = []" by (rule Cons.IH)
  with Cons.prems(2) show ?case by (auto simp: in_range_simp)
qed

lemma ranges_cover:
  assumes "sorted (lo # bs)" and "last (lo # bs) < mx" and "lo \<le> s" and "s \<le> mx"
  shows "length (filter (in_range s) (id_ranges first (lo # bs @ [mx]))) = 1"
  using assms
proof (induction bs arbitrary: lo first)
  case Nil
  then show ?case by (auto simp: in_range_simp)
next
  case (Cons b bs)
  have so: "sorted (b # bs)" using Cons.prems(1) by simp
  have la: "last (b # bs) < mx" using Cons.prems(2) by simp
  show ?case
  proof (cases "s < b")
    case True
    then have "filter (in_range s) (id_ranges False (b # bs @ [mx])) = []" by (rule ranges_above [OF so])
    with True Cons.prems(3) show ?thesis by (auto simp: in_range_simp)
  next
    case False
    then have "length (filter (in_range s) (id_ranges False (b # bs @ [mx]))) = 1"
      by (intro Cons.IH [OF so la _ Cons.prems(4)]) simp
    with False show ?thesis by (auto simp: in_range_simp)
  qed
qed

lemma ranges_partition:
  assumes "sorted bs" and "bs \<noteq> [] \<Longrightarrow> last bs < mx" and "mn \<le> s" and "s \<le> mx"
  shows "length (filter (in_range s) (id_ranges True (mn # bs @ [mx]))) = 1"
proof (cases bs)
  case Nil
  with assms(3,4) show ?thesis by (auto simp: in_range_simp)
next
  case (Cons b bs')
  have so: "sorted (b # bs')" and la: "last (b # bs') < mx" using assms(1,2) Cons by simp_all
  show ?thesis
  proof (cases "s < b")
    case True
    then have "filter (in_range s) (id_ranges False (b # bs' @ [mx])) = []" by (rule ranges_above [OF so])
    with True assms(3) show ?thesis by (auto simp: Cons in_range_simp)
  next
    case False
    then have "length (filter (in_range s) (id_ranges False (b # bs' @ [mx]))) = 1"
      by (intro ranges_cover [OF so la _ assms(4)]) simp
    with False show ?thesis by (auto simp: Cons in_range_simp)
  qed
qed

lemma boundary_pad:
  assumes "id_range mn mx" and "i \<le> n" and "0 < n" and "n \<le> 8"
  shows "id_boundary mn mx n i = pad_id (id_num mn + (id_num mx - id_num mn) * i div n) (length mx)"
  using assms(1) interpolation_num [OF assms]
  by (simp add: id_boundary_def Let_def NumToId_pad id_range_def)

lemma interpolated_le:
  assumes "id_range mn mx" and "i \<le> j" and "j < n"
  shows "id_num mn + (id_num mx - id_num mn) * i div n \<le> id_num mn + (id_num mx - id_num mn) * j div n"
    and "id_num mn + (id_num mx - id_num mn) * j div n \<le> id_num mx"
    and "id_num mn + (id_num mx - id_num mn) * j div n < id_num mx \<or> id_num mn = id_num mx"
proof -
  let ?d = "id_num mx - id_num mn"
  have le: "id_num mn \<le> id_num mx" by (rule id_num_le [OF assms(1)])
  show "id_num mn + ?d * i div n \<le> id_num mn + ?d * j div n"
    using assms(2) by (simp add: div_le_mono)
  have lt: "?d * j div n < ?d \<or> ?d = 0"
    using assms(3) by (cases "?d = 0") (auto intro!: less_mult_imp_div_less)
  then show "id_num mn + ?d * j div n \<le> id_num mx" using le by auto
  show "id_num mn + ?d * j div n < id_num mx \<or> id_num mn = id_num mx" using lt le by auto
qed

lemma boundaries_sorted:
  assumes "id_range mn mx" and "n \<le> 8"
  shows "sorted (map (id_boundary mn mx n) [1..<n])"
proof -
  have "id_boundary mn mx n i \<le> id_boundary mn mx n j" if "i \<le> j" "j < n" for i j
  proof -
    have "0 < n" "i \<le> n" "j \<le> n" using that by auto
    then show ?thesis
      unfolding boundary_pad [OF assms(1) \<open>i \<le> n\<close> \<open>0 < n\<close> assms(2)] boundary_pad [OF assms(1) \<open>j \<le> n\<close> \<open>0 < n\<close> assms(2)]
      using interpolated_le [OF assms(1) that] id_num_bound [of mx] by (intro pad_id_mono) auto
  qed
  then show ?thesis by (auto simp: sorted_map intro!: sorted_wrt_mono_rel [OF _ sorted_wrt_upt] )
qed

lemma boundaries_below:
  assumes "id_range mn mx" and "1 < n" and "n \<le> 8"
  shows "id_boundary mn mx n (n - 1) < mx"
proof -
  have "n - 1 \<le> n" "0 < n" "n - 1 < n" using assms(2) by auto
  then show ?thesis
    unfolding boundary_pad [OF assms(1) \<open>n - 1 \<le> n\<close> \<open>0 < n\<close> assms(3)]
    using interpolated_le [OF assms(1) le_refl \<open>n - 1 < n\<close>] by (intro pad_id_below_max [OF assms(1)]) auto
qed

text \<open>
  C5: the chunks are a partition. For alphanumeric Ids of the same length, the smallest below the
  largest, and up to eight chunks, every Id between them satisfies exactly one of the generated
  ranges: no record is read twice and none is left out, however the interpolated boundaries fall.
\<close>

theorem chunks_partition:
  assumes "id_range mn mx" and "1 \<le> n" and "n \<le> 8"
  shows "\<exists>rs. BuildIdRangeWheres pushed mn mx n = map (range_where pushed) rs \<and>
    (\<forall>s. mn \<le> s \<and> s \<le> mx \<longrightarrow> length (filter (in_range s) rs) = 1)"
proof (intro exI conjI allI impI)
  show "BuildIdRangeWheres pushed mn mx n = map (range_where pushed) (id_ranges True (id_boundaries mn mx n))"
    by (simp add: BuildIdRangeWheres_def)
next
  fix s
  assume s: "mn \<le> s \<and> s \<le> mx"
  have "last (map (id_boundary mn mx n) [1..<n]) < mx" if "map (id_boundary mn mx n) [1..<n] \<noteq> []"
  proof -
    from that have "1 < n" by auto
    then have "last (map (id_boundary mn mx n) [1..<n]) = id_boundary mn mx n (n - 1)"
      by (simp add: last_map)
    then show ?thesis using boundaries_below [OF assms(1) \<open>1 < n\<close> assms(3)] by simp
  qed
  then show "length (filter (in_range s) (id_ranges True (id_boundaries mn mx n))) = 1"
    unfolding id_boundaries_def using s ranges_partition [OF boundaries_sorted [OF assms(1,3)]] by blast
qed

theorem chunks_partition_witness:
  "\<exists>rs. BuildIdRangeWheres [] ''0015e000000000AAAA'' ''0015e00000zzzzzzzz'' 4 = map (range_where []) rs \<and>
    length (filter (in_range ''0015e00000AbCdEFGH'') rs) = 1"
proof -
  have r: "id_range ''0015e000000000AAAA'' ''0015e00000zzzzzzzz''" by code_simp
  have "''0015e000000000AAAA'' \<le> ''0015e00000AbCdEFGH'' \<and> ''0015e00000AbCdEFGH'' \<le> ''0015e00000zzzzzzzz''" by code_simp
  with chunks_partition [OF r, of 4 "[]"] show ?thesis by auto
qed

end
