(* ===== verification/SF_Pushdown.thy ===== *)
theory SF_Pushdown
  imports SF_Soql
begin

text \<open>
  What filter pushdown promises. A filter means what DuckDB's three-valued logic says; the
  generated WHERE means what its clauses say on the server. The comparisons of the two engines
  are parameters (neither engine is part of the repository), and \<open>documented\<close> states what is
  documented of them: both agree on numbers, dates, times and booleans; the server finds every text
  that equals or is like a constant, and, its text comparison ignoring case, may find more; and the
  \<^verbatim>\<open>null\<close> tests are exact. Nothing is assumed of \<^verbatim>\<open>!=\<close> or the order on text, nor of \<^verbatim>\<open>!=\<close> on a
  missing value, because the engines differ there. So two predicates on filters say which of them
  may be pushed without losing rows (\<open>covered_expr\<close>) and without adding any (\<open>exact_expr\<close>), and the
  last section shows a case-insensitive server on which the filters outside them go wrong.
\<close>

section \<open>The meaning of filters and of clauses\<close>

type_synonym 'v rec = "string \<Rightarrow> 'v option"

record 'v filter_sem =
  s_const :: "Value \<Rightarrow> 'v option"
  s_operand :: "'v rec \<Rightarrow> expr \<Rightarrow> 'v option"
  s_cmp :: "ExpressionType \<Rightarrow> 'v \<Rightarrow> 'v \<Rightarrow> bool"
  s_like :: "string \<Rightarrow> 'v \<Rightarrow> 'v \<Rightarrow> bool"
  s_other :: "'v rec \<Rightarrow> expr \<Rightarrow> bool option"
  srv_cmp :: "string \<Rightarrow> 'v option \<Rightarrow> string \<Rightarrow> bool"
  srv_like :: "'v option \<Rightarrow> string \<Rightarrow> bool"

fun operand :: "'v filter_sem \<Rightarrow> SalesforceField list \<Rightarrow> nat list \<Rightarrow> 'v rec \<Rightarrow> expr \<Rightarrow> 'v option" where
  "operand S flds p2f r (BoundColumnRef i) =
     (if i < length p2f \<and> p2f ! i < length flds then r (f_name (flds ! (p2f ! i)))
      else s_operand S r (BoundColumnRef i))"
| "operand S flds p2f r (BoundConstant v) = s_const S v"
| "operand S flds p2f r e = s_operand S r e"

definition cmp3 :: "'v filter_sem \<Rightarrow> ExpressionType \<Rightarrow> 'v option \<Rightarrow> 'v option \<Rightarrow> bool option" where
  "cmp3 S t x y = (case (x, y) of (Some a, Some b) \<Rightarrow> Some (s_cmp S t a b) | _ \<Rightarrow> None)"

definition and3 :: "bool option list \<Rightarrow> bool option" where
  "and3 xs = (if Some False \<in> set xs then Some False else if None \<in> set xs then None else Some True)"

definition or3 :: "bool option list \<Rightarrow> bool option" where
  "or3 xs = (if Some True \<in> set xs then Some True else if None \<in> set xs then None else Some False)"

lemma and3_True: "and3 xs = Some True \<longleftrightarrow> (\<forall>x \<in> set xs. x = Some True)"
proof -
  have "and3 xs = Some True \<longleftrightarrow> Some False \<notin> set xs \<and> None \<notin> set xs"
    by (simp add: and3_def)
  also have "\<dots> \<longleftrightarrow> (\<forall>x \<in> set xs. x = Some True)"
    by (metis (full_types) not_None_eq option.inject)
  finally show ?thesis .
qed

lemma or3_True: "or3 xs = Some True \<longleftrightarrow> (\<exists>x \<in> set xs. x = Some True)"
  by (simp add: or3_def)

definition like_functions :: "string set" where
  "like_functions = {''~~'', ''prefix'', ''suffix'', ''contains''}"

definition like3 :: "'v filter_sem \<Rightarrow> string \<Rightarrow> 'v option \<Rightarrow> 'v option \<Rightarrow> bool option" where
  "like3 S fn x y = (case (x, y) of (Some a, Some b) \<Rightarrow> Some (s_like S fn a b) | _ \<Rightarrow> None)"

fun holds3 :: "'v filter_sem \<Rightarrow> SalesforceField list \<Rightarrow> nat list \<Rightarrow> 'v rec \<Rightarrow> expr \<Rightarrow> bool option" where
  "holds3 S flds p2f r (BoundComparison t a b) =
     cmp3 S t (operand S flds p2f r a) (operand S flds p2f r b)"
| "holds3 S flds p2f r (BoundBetween x lo hi li hii) =
     and3 [cmp3 S (if li then COMPARE_GREATERTHANOREQUALTO else COMPARE_GREATERTHAN)
             (operand S flds p2f r x) (operand S flds p2f r lo),
           cmp3 S (if hii then COMPARE_LESSTHANOREQUALTO else COMPARE_LESSTHAN)
             (operand S flds p2f r x) (operand S flds p2f r hi)]"
| "holds3 S flds p2f r (BoundOperator t cs) =
     (case cs of
        c # ds \<Rightarrow>
          if t = OPERATOR_IS_NULL \<and> ds = [] then Some (operand S flds p2f r c = None)
          else if t = OPERATOR_IS_NOT_NULL \<and> ds = [] then Some (operand S flds p2f r c \<noteq> None)
          else if t = COMPARE_IN then
            or3 (map (\<lambda>d. cmp3 S COMPARE_EQUAL (operand S flds p2f r c) (operand S flds p2f r d)) ds)
          else s_other S r (BoundOperator t cs)
      | [] \<Rightarrow> s_other S r (BoundOperator t cs))"
| "holds3 S flds p2f r (BoundFunction fn cs) =
     (case cs of
        [c, d] \<Rightarrow> if fn \<in> like_functions
                  then like3 S fn (operand S flds p2f r c) (operand S flds p2f r d)
                  else s_other S r (BoundFunction fn cs)
      | _ \<Rightarrow> s_other S r (BoundFunction fn cs))"
| "holds3 S flds p2f r (BoundConjunction t cs) =
     (if t = CONJUNCTION_AND then and3 (map (holds3 S flds p2f r) cs)
      else if t = CONJUNCTION_OR then or3 (map (holds3 S flds p2f r) cs)
      else s_other S r (BoundConjunction t cs))"
| "holds3 S flds p2f r e = s_other S r e"

text \<open>DuckDB keeps a row when every filter is true of it, neither false nor NULL.\<close>

abbreviation keeps :: "'v filter_sem \<Rightarrow> SalesforceField list \<Rightarrow> nat list \<Rightarrow> 'v rec \<Rightarrow> expr \<Rightarrow> bool" where
  "keeps S flds p2f r e \<equiv> holds3 S flds p2f r e = Some True"

datatype clause =
    CCmp string string string
  | CIn string "string list"
  | CLike string string
  | CConj bool "clause list"

fun render :: "clause \<Rightarrow> string" where
  "render (CCmp f op lit) = cmp_clause f op lit"
| "render (CIn f lits) = f @ '' IN ('' @ sep_by '', '' lits @ '')''"
| "render (CLike f pat) = f @ '' LIKE '' @ pat"
| "render (CConj is_or cs) = ''('' @ sep_by (if is_or then '' OR '' else '' AND '') (map render cs) @ '')''"

fun matches :: "'v filter_sem \<Rightarrow> 'v rec \<Rightarrow> clause \<Rightarrow> bool" where
  "matches S r (CCmp f op lit) = srv_cmp S op (r f) lit"
| "matches S r (CIn f lits) = list_ex (\<lambda>l. srv_cmp S ''='' (r f) l) lits"
| "matches S r (CLike f pat) = srv_like S (r f) pat"
| "matches S r (CConj is_or cs) = (if is_or then list_ex (matches S r) cs else list_all (matches S r) cs)"

section \<open>What the translation relies on\<close>

text \<open>
  A constant is proper when its literal is not the SOQL keyword \<^verbatim>\<open>null\<close>, and scalar when moreover it is
  no text: a number, date, time or boolean, whose literal is never quoted.
\<close>

definition proper :: "Value \<Rightarrow> bool" where
  "proper v \<longleftrightarrow> SoqlLiteral v \<noteq> Inr ''null''"

definition scalar :: "Value \<Rightarrow> bool" where
  "scalar v \<longleftrightarrow> proper v \<and> v_type v \<noteq> VARCHAR \<and> (case SoqlLiteral v of Inr (c # _) \<Rightarrow> c \<noteq> SQ | _ \<Rightarrow> True)"

fun constant_is :: "(Value \<Rightarrow> bool) \<Rightarrow> expr \<Rightarrow> bool" where
  "constant_is P (BoundConstant v) \<longleftrightarrow> P v"
| "constant_is P _ \<longleftrightarrow> True"

text \<open>The filters whose clause finds every row: text is only compared by equality, \<^verbatim>\<open>IN\<close> and \<^verbatim>\<open>LIKE\<close>.\<close>

fun covered_expr :: "expr \<Rightarrow> bool" where
  "covered_expr (BoundComparison t a b) \<longleftrightarrow>
     (\<forall>e \<in> {a, b}. constant_is (\<lambda>v. scalar v \<or> proper v \<and> v_type v = VARCHAR \<and> t = COMPARE_EQUAL) e)"
| "covered_expr (BoundBetween x lo hi li hii) \<longleftrightarrow>
     (\<forall>e \<in> {lo, hi}. constant_is (\<lambda>v. v_IsNull v \<or> scalar v) e)"
| "covered_expr (BoundOperator t cs) \<longleftrightarrow>
     list_all (constant_is (\<lambda>v. v_IsNull v \<or> scalar v \<or> proper v \<and> v_type v = VARCHAR)) cs"
| "covered_expr (BoundFunction fn cs) \<longleftrightarrow> list_all (constant_is (\<lambda>v. BSL \<notin> set (v_StringGet v))) cs"
| "covered_expr (BoundConjunction t cs) \<longleftrightarrow> list_all covered_expr cs"
| "covered_expr e \<longleftrightarrow> True"

text \<open>A column whose field is never missing.\<close>

fun required_column :: "SalesforceField list \<Rightarrow> nat list \<Rightarrow> expr \<Rightarrow> bool" where
  "required_column flds p2f (BoundColumnRef i) \<longleftrightarrow>
     i < length p2f \<and> p2f ! i < length flds \<and> \<not> f_nillable (flds ! (p2f ! i))"
| "required_column flds p2f _ \<longleftrightarrow> True"

text \<open>
  The filters whose clause, when it is pushed as exact, finds no other row: text is not compared,
  and \<^verbatim>\<open>!=\<close> is applied to fields that are never missing. What is pushed as a prefilter only need be covered.
\<close>

fun exact_expr :: "SalesforceField list \<Rightarrow> nat list \<Rightarrow> expr \<Rightarrow> bool" where
  "exact_expr flds p2f (BoundComparison t a b) \<longleftrightarrow>
     (\<forall>e \<in> {a, b}. constant_is scalar e \<and> (t = COMPARE_NOTEQUAL \<longrightarrow> required_column flds p2f e))"
| "exact_expr flds p2f (BoundConjunction t cs) \<longleftrightarrow>
     (if t = CONJUNCTION_AND then list_all (exact_expr flds p2f) cs else list_all covered_expr cs)"
| "exact_expr flds p2f e \<longleftrightarrow> covered_expr e"

definition complete_record :: "SalesforceField list \<Rightarrow> 'v rec \<Rightarrow> bool" where
  "complete_record flds r \<longleftrightarrow> (\<forall>f \<in> set flds. \<not> f_nillable f \<longrightarrow> r (f_name f) \<noteq> None)"

lemma constant_is_mono: "constant_is P e \<Longrightarrow> (\<And>v. P v \<Longrightarrow> Q v) \<Longrightarrow> constant_is Q e"
  by (cases e) auto

lemma exact_covered: "exact_expr flds p2f e \<Longrightarrow> covered_expr e"
proof (induction flds p2f e rule: exact_expr.induct)
  case (1 flds p2f t a b)
  then show ?case by (auto elim: constant_is_mono)
next
  case (2 flds p2f t cs)
  then show ?case by (auto simp: list_all_iff split: if_splits)
qed auto

text \<open>What is documented of the two engines.\<close>

definition scalars_agree :: "'v filter_sem \<Rightarrow> bool" where
  "scalars_agree S \<longleftrightarrow>
     (\<forall>t op v lit x. ComparisonOp t = Some op \<longrightarrow> scalar v \<longrightarrow> SoqlLiteral v = Inr lit \<longrightarrow>
        (if t = COMPARE_NOTEQUAL \<and> x = None then True
         else srv_cmp S op x lit \<longleftrightarrow> cmp3 S t x (s_const S v) = Some True))"

definition text_covered :: "'v filter_sem \<Rightarrow> bool" where
  "text_covered S \<longleftrightarrow>
     (\<forall>v lit x. proper v \<longrightarrow> v_type v = VARCHAR \<longrightarrow> SoqlLiteral v = Inr lit \<longrightarrow>
        cmp3 S COMPARE_EQUAL x (s_const S v) = Some True \<longrightarrow> srv_cmp S ''='' x lit)"

definition cmp_flips :: "'v filter_sem \<Rightarrow> bool" where
  "cmp_flips S \<longleftrightarrow> (\<forall>t t' a b. FlipComparison t = Some t' \<longrightarrow> s_cmp S t a b = s_cmp S t' b a)"

definition null_tests :: "'v filter_sem \<Rightarrow> bool" where
  "null_tests S \<longleftrightarrow> (\<forall>v. v_IsNull v \<longrightarrow> s_const S v = None) \<and>
     (\<forall>x. srv_cmp S ''='' x ''null'' \<longleftrightarrow> x = None) \<and> (\<forall>x. srv_cmp S ''!='' x ''null'' \<longleftrightarrow> x \<noteq> None)"

definition like_covered :: "'v filter_sem \<Rightarrow> bool" where
  "like_covered S \<longleftrightarrow>
     (\<forall>fn v a b. fn \<in> like_functions \<longrightarrow> v_type v = VARCHAR \<longrightarrow> BSL \<notin> set (v_StringGet v) \<longrightarrow>
        s_const S v = Some b \<longrightarrow> s_like S fn a b \<longrightarrow>
        srv_like S (Some a) (SoqlString (like_pattern fn (v_StringGet v))))"

definition documented :: "'v filter_sem \<Rightarrow> bool" where
  "documented S \<longleftrightarrow> scalars_agree S \<and> text_covered S \<and> cmp_flips S \<and> null_tests S \<and> like_covered S"

lemma documented_scalar:
  assumes "documented S" "ComparisonOp t = Some op" "scalar v" "SoqlLiteral v = Inr lit"
  shows "cmp3 S t x (s_const S v) = Some True \<Longrightarrow> srv_cmp S op x lit"
    and "t \<noteq> COMPARE_NOTEQUAL \<or> x \<noteq> None \<Longrightarrow> srv_cmp S op x lit \<Longrightarrow> cmp3 S t x (s_const S v) = Some True"
proof -
  have a: "if t = COMPARE_NOTEQUAL \<and> x = None then True
      else srv_cmp S op x lit \<longleftrightarrow> cmp3 S t x (s_const S v) = Some True"
    using assms unfolding documented_def scalars_agree_def by blast
  have "cmp3 S t None y \<noteq> Some True" for y by (simp add: cmp3_def)
  with a show "cmp3 S t x (s_const S v) = Some True \<Longrightarrow> srv_cmp S op x lit"
    and "t \<noteq> COMPARE_NOTEQUAL \<or> x \<noteq> None \<Longrightarrow> srv_cmp S op x lit \<Longrightarrow> cmp3 S t x (s_const S v) = Some True"
    by (auto split: if_splits)
qed

lemma documented_text:
  "documented S \<Longrightarrow> proper v \<Longrightarrow> v_type v = VARCHAR \<Longrightarrow> SoqlLiteral v = Inr lit \<Longrightarrow>
     cmp3 S COMPARE_EQUAL x (s_const S v) = Some True \<Longrightarrow> srv_cmp S ''='' x lit"
  by (simp only: documented_def text_covered_def)

lemma documented_covers:
  assumes "documented S" "ComparisonOp t = Some op" "SoqlLiteral v = Inr lit"
    and "scalar v \<or> proper v \<and> v_type v = VARCHAR \<and> t = COMPARE_EQUAL"
  shows "cmp3 S t x (s_const S v) = Some True \<Longrightarrow> srv_cmp S op x lit"
  using assms documented_scalar(1) [OF assms(1,2) _ assms(3)] documented_text [OF assms(1) _ _ assms(3)] by auto

lemma documented_flip:
  "documented S \<Longrightarrow> FlipComparison t = Some t' \<Longrightarrow> s_cmp S t a b = s_cmp S t' b a"
  by (simp only: documented_def cmp_flips_def)

lemma documented_null:
  assumes "documented S"
  shows "v_IsNull v \<Longrightarrow> s_const S v = None"
    and "srv_cmp S ''='' x ''null'' \<longleftrightarrow> x = None"
    and "srv_cmp S ''!='' x ''null'' \<longleftrightarrow> x \<noteq> None"
  using assms by (simp_all only: documented_def null_tests_def)

lemma documented_like:
  "documented S \<Longrightarrow> fn \<in> like_functions \<Longrightarrow> v_type v = VARCHAR \<Longrightarrow> BSL \<notin> set (v_StringGet v) \<Longrightarrow>
     s_const S v = Some b \<Longrightarrow> s_like S fn a b \<Longrightarrow> srv_like S (Some a) (SoqlString (like_pattern fn (v_StringGet v)))"
  unfolding documented_def like_covered_def by blast

section \<open>Translated clauses cover the filter, exact ones equal it\<close>

definition sound_clause ::
  "'v filter_sem \<Rightarrow> SalesforceField list \<Rightarrow> nat list \<Rightarrow> expr \<Rightarrow> clause \<Rightarrow> bool \<Rightarrow> bool" where
  "sound_clause S flds p2f e c ex \<longleftrightarrow>
     (\<forall>r. keeps S flds p2f r e \<longrightarrow> matches S r c) \<and>
     (ex \<longrightarrow> exact_expr flds p2f e \<longrightarrow> (\<forall>r. complete_record flds r \<longrightarrow> matches S r c \<longrightarrow> keeps S flds p2f r e))"

lemma FieldFor_operand:
  "FieldFor flds p2f e = Some f \<Longrightarrow> operand S flds p2f r e = r f"
  by (cases e) (auto simp: Let_def split: if_splits)

lemma const_value_operand:
  "const_value e = Some v \<Longrightarrow> operand S flds p2f r e = s_const S v \<and> e = BoundConstant v"
  by (cases e) auto

lemma required_operand:
  assumes "FieldFor flds p2f e = Some f" "required_column flds p2f e" "complete_record flds r"
  shows "r f \<noteq> None"
  using assms by (cases e) (auto simp: complete_record_def Let_def split: if_splits)

lemma const_value_eq: "const_value e = Some v \<Longrightarrow> e = BoundConstant v"
  by (cases e) auto

lemma translate_cmp_sound:
  fixes S :: "'v filter_sem"
  assumes S: "documented S" and tr: "translate_cmp D flds f t v = Inr (Some (s, ex))"
    and v: "scalar v \<or> proper v \<and> v_type v = VARCHAR \<and> t = COMPARE_EQUAL"
    and k: "\<And>r. keeps S flds p2f r e \<longleftrightarrow> cmp3 S t (r f) (s_const S v) = Some True"
    and x: "exact_expr flds p2f e \<Longrightarrow> scalar v"
    and r: "\<And>r :: 'v rec. exact_expr flds p2f e \<Longrightarrow> complete_record flds r \<Longrightarrow> t \<noteq> COMPARE_NOTEQUAL \<or> r f \<noteq> None"
  shows "\<exists>c. render c = s \<and> sound_clause S flds p2f e c ex"
proof -
  from tr obtain op lit where o: "ComparisonOp t = Some op" and l: "SoqlLiteral v = Inr lit"
    and s: "s = cmp_clause f op lit" "ex"
    by (auto simp: translate_cmp_def rbind_eq_Inr split: option.splits sum.splits)
  have "cmp3 S t (r f) (s_const S v) = Some True"
    if "exact_expr flds p2f e" "complete_record flds r" "srv_cmp S op (r f) lit" for r
    by (rule documented_scalar(2) [OF S o x [OF that(1)] l r [OF that(1,2)] that(3)])
  then have "sound_clause S flds p2f e (CCmp f op lit) ex"
    using documented_covers [OF S o l v] by (simp add: sound_clause_def k)
  with s show ?thesis by (intro exI [of _ "CCmp f op lit"]) simp
qed

lemma cmp3_flip:
  "documented S \<Longrightarrow> FlipComparison t = Some t' \<Longrightarrow> cmp3 S t x y = cmp3 S t' y x"
  by (auto simp: cmp3_def dest: documented_flip split: option.splits)

lemma flip_keeps: "FlipComparison t = Some t' \<Longrightarrow> t' = c \<longleftrightarrow> t = c" if "c \<in> {COMPARE_EQUAL, COMPARE_NOTEQUAL}"
  using that by (cases t) auto

lemma translate_comparison_sound:
  assumes S: "documented S" and p: "covered_expr (BoundComparison t a b)"
    and tr: "translate_comparison D flds p2f t a b = Inr (Some (s, ex))"
  shows "\<exists>c. render c = s \<and> sound_clause S flds p2f (BoundComparison t a b) c ex"
proof -
  consider (left) f v where "FieldFor flds p2f a = Some f" "b = BoundConstant v"
      "translate_cmp D flds f t v = Inr (Some (s, ex))"
    | (right) f v t' where "FieldFor flds p2f b = Some f" "a = BoundConstant v"
      "FlipComparison t = Some t'" "translate_cmp D flds f t' v = Inr (Some (s, ex))"
    using tr by (auto simp: translate_comparison_def split: option.splits dest: const_value_eq)
  then show ?thesis
  proof cases
    case left
    show ?thesis
      by (rule translate_cmp_sound [OF S left(3)])
        (use left p required_operand [OF left(1)] in \<open>auto simp: FieldFor_operand\<close>)
  next
    case right
    show ?thesis
      by (rule translate_cmp_sound [OF S right(4)])
        (use right p cmp3_flip [OF S right(3)] flip_keeps [OF _ right(3)] required_operand [OF right(1)]
          in \<open>auto simp: FieldFor_operand\<close>)
  qed
qed

lemma translate_between_sound:
  assumes S: "documented S" and p: "covered_expr (BoundBetween x lo hi li hii)"
    and tr: "translate_between flds p2f x lo hi li hii = Inr (Some (s, ex))"
  shows "\<exists>c. render c = s \<and> sound_clause S flds p2f (BoundBetween x lo hi li hii) c ex"
proof -
  define t1 where "t1 = (if li then COMPARE_GREATERTHANOREQUALTO else COMPARE_GREATERTHAN)"
  define t2 where "t2 = (if hii then COMPARE_LESSTHANOREQUALTO else COMPARE_LESSTHAN)"
  from tr obtain f v w o1 o2 l1 l2 where f: "FieldFor flds p2f x = Some f"
    and v: "const_value lo = Some v" "const_value hi = Some w"
    and nn: "\<not> v_IsNull v" "\<not> v_IsNull w"
    and o: "ComparisonOp t1 = Some o1" "ComparisonOp t2 = Some o2"
    and l: "SoqlLiteral v = Inr l1" "SoqlLiteral w = Inr l2"
    and s: "s = ''('' @ cmp_clause f o1 l1 @ '' AND '' @ cmp_clause f o2 l2 @ '')''" "ex"
    unfolding translate_between_def t1_def [symmetric] t2_def [symmetric]
    by (auto split: option.splits sum.splits if_splits)
  have pr: "scalar v" "scalar w" using p v nn by (auto dest!: const_value_eq)
  have ne: "t1 \<noteq> COMPARE_NOTEQUAL" "t2 \<noteq> COMPARE_NOTEQUAL" by (simp_all add: t1_def t2_def)
  have k: "keeps S flds p2f r (BoundBetween x lo hi li hii) \<longleftrightarrow>
      cmp3 S t1 (r f) (s_const S v) = Some True \<and> cmp3 S t2 (r f) (s_const S w) = Some True" for r
    using FieldFor_operand [OF f, of S r] const_value_operand [OF v(1), of S flds p2f r]
      const_value_operand [OF v(2), of S flds p2f r]
    by (simp add: and3_True t1_def t2_def)
  let ?c = "CConj False [CCmp f o1 l1, CCmp f o2 l2]"
  have m: "matches S r ?c \<longleftrightarrow> srv_cmp S o1 (r f) l1 \<and> srv_cmp S o2 (r f) l2" for r by simp
  have "sound_clause S flds p2f (BoundBetween x lo hi li hii) ?c ex"
    unfolding sound_clause_def k m
    using documented_scalar [OF S o(1) pr(1) l(1)] documented_scalar [OF S o(2) pr(2) l(2)] ne by blast
  with s show ?thesis by (intro exI [of _ ?c]) simp
qed

lemma translate_null_sound:
  assumes S: "documented S" and f: "FieldFor flds p2f c = Some f"
    and t: "t = OPERATOR_IS_NULL \<or> t = OPERATOR_IS_NOT_NULL"
  shows "\<exists>cl. render cl = f @ (if t = OPERATOR_IS_NULL then '' = null'' else '' != null'') \<and>
           sound_clause S flds p2f (BoundOperator t [c]) cl True"
proof -
  let ?cl = "CCmp f (if t = OPERATOR_IS_NULL then ''='' else ''!='') ''null''"
  have "sound_clause S flds p2f (BoundOperator t [c]) ?cl True"
    using t FieldFor_operand [OF f, of S] documented_null(2,3) [OF S]
    by (auto simp: sound_clause_def)
  then show ?thesis by (intro exI [of _ ?cl]) (simp add: cmp_clause_def)
qed

lemma literals_of_cover:
  "literals_of vs = Inr lits \<Longrightarrow> v \<in> set vs \<Longrightarrow> \<exists>l \<in> set lits. SoqlLiteral v = Inr l"
  by (induction vs arbitrary: lits) (auto simp: rbind_eq_Inr)

lemma const_values_map: "const_values es = Some vs \<Longrightarrow> es = map BoundConstant vs"
proof (induction es arbitrary: vs)
  case Nil
  then show ?case by simp
next
  case (Cons e es)
  then show ?case by (cases e) (auto split: option.splits)
qed

lemma translate_in_sound:
  assumes S: "documented S" and p: "covered_expr (BoundOperator COMPARE_IN cs)"
    and tr: "translate_in D flds p2f cs = Inr (Some (s, ex))"
  shows "\<exists>c. render c = s \<and> sound_clause S flds p2f (BoundOperator COMPARE_IN cs) c ex"
proof -
  from tr obtain c0 ds f vs lits where cs: "cs = c0 # ds" and f: "FieldFor flds p2f c0 = Some f"
    and vs: "const_values ds = Some vs" and l: "literals_of vs = Inr lits"
    and s: "s = f @ '' IN ('' @ sep_by '', '' lits @ '')''" "\<not> ex"
    by (auto simp: translate_in_def rbind_eq_Inr simp del: const_values.simps
        split: list.splits option.splits sum.splits if_splits)
  have "matches S r (CIn f lits)" if k: "keeps S flds p2f r (BoundOperator COMPARE_IN cs)" for r
  proof -
    from k obtain v where v: "v \<in> set vs" and t: "cmp3 S COMPARE_EQUAL (r f) (s_const S v) = Some True"
      using FieldFor_operand [OF f, of S r] const_values_map [OF vs] by (auto simp: cs or3_True)
    obtain lit where lit: "lit \<in> set lits" "SoqlLiteral v = Inr lit"
      using literals_of_cover [OF l v] by blast
    have "\<not> v_IsNull v" using t documented_null(1) [OF S, of v] by (auto simp: cmp3_def split: option.splits)
    then have "scalar v \<or> proper v \<and> v_type v = VARCHAR"
      using p v const_values_map [OF vs] by (auto simp: cs list_all_iff)
    then have "srv_cmp S ''='' (r f) lit"
      using documented_covers [OF S, of COMPARE_EQUAL] t lit(2) by simp
    with lit(1) show ?thesis by (auto simp: list_ex_iff)
  qed
  then have "sound_clause S flds p2f (BoundOperator COMPARE_IN cs) (CIn f lits) ex"
    using s(2) by (simp add: sound_clause_def del: holds3.simps matches.simps)
  with s show ?thesis by (intro exI [of _ "CIn f lits"]) simp
qed

lemma translate_like_sound:
  assumes S: "documented S" and p: "covered_expr (BoundFunction fn cs)"
    and tr: "translate_like flds p2f fn cs = Inr (Some (s, ex))"
  shows "\<exists>c. render c = s \<and> sound_clause S flds p2f (BoundFunction fn cs) c ex"
proof -
  from tr obtain c0 c1 f v where cs: "cs = [c0, c1]" and fn: "fn \<in> like_functions"
    and f: "FieldFor flds p2f c0 = Some f" and v: "const_value c1 = Some v" "v_type v = VARCHAR"
    and s: "s = f @ '' LIKE '' @ SoqlString (like_pattern fn (v_StringGet v))" "\<not> ex"
    unfolding translate_like_def like_functions_def
    by (auto split: list.splits option.splits if_splits)
  let ?c = "CLike f (SoqlString (like_pattern fn (v_StringGet v)))"
  have nb: "BSL \<notin> set (v_StringGet v)" using p v(1) by (auto simp: cs dest!: const_value_eq)
  have "keeps S flds p2f r (BoundFunction fn cs) \<longrightarrow> matches S r ?c" for r
    using FieldFor_operand [OF f, of S r] const_value_operand [OF v(1), of S flds p2f r]
      documented_like [OF S fn v(2) nb]
    by (auto simp: cs fn like3_def split: option.splits)
  then have "sound_clause S flds p2f (BoundFunction fn cs) ?c ex"
    using s(2) by (simp add: sound_clause_def del: holds3.simps matches.simps)
  with s show ?thesis by (intro exI [of _ ?c]) simp
qed

text \<open>The clauses of a list of conjuncts, one per translated conjunct.\<close>

fun sound_list ::
  "'v filter_sem \<Rightarrow> SalesforceField list \<Rightarrow> nat list \<Rightarrow> expr list \<Rightarrow> clause list \<Rightarrow> (string \<times> bool) list \<Rightarrow> bool" where
  "sound_list S flds p2f [] [] [] \<longleftrightarrow> True"
| "sound_list S flds p2f (e # es) (c # cs) (t # ts) \<longleftrightarrow>
     render c = fst t \<and> sound_clause S flds p2f e c (snd t) \<and> sound_list S flds p2f es cs ts"
| "sound_list S flds p2f _ _ _ \<longleftrightarrow> False"

lemma sound_list_render: "sound_list S flds p2f es cs ts \<Longrightarrow> map render cs = map fst ts"
  by (induction S flds p2f es cs ts rule: sound_list.induct) auto

lemma sound_list_and:
  "sound_list S flds p2f es cs ts \<Longrightarrow> \<forall>e \<in> set es. keeps S flds p2f r e \<Longrightarrow> list_all (matches S r) cs"
  by (induction S flds p2f es cs ts rule: sound_list.induct) (auto simp: sound_clause_def)

lemma sound_list_or:
  "sound_list S flds p2f es cs ts \<Longrightarrow> \<exists>e \<in> set es. keeps S flds p2f r e \<Longrightarrow> list_ex (matches S r) cs"
  by (induction S flds p2f es cs ts rule: sound_list.induct) (auto simp: sound_clause_def)

lemma sound_list_exact:
  "sound_list S flds p2f es cs ts \<Longrightarrow> list_all (exact_expr flds p2f) es \<Longrightarrow> complete_record flds r \<Longrightarrow> list_all snd ts \<Longrightarrow>
     list_all (matches S r) cs \<Longrightarrow> e \<in> set es \<Longrightarrow> keeps S flds p2f r e"
  by (induction S flds p2f es cs ts rule: sound_list.induct) (auto simp: sound_clause_def)

lemma conjunction_sound:
  assumes "sound_list S flds p2f es cs ts" and "t = CONJUNCTION_OR \<or> t = CONJUNCTION_AND"
  shows "sound_clause S flds p2f (BoundConjunction t es) (CConj (t = CONJUNCTION_OR) cs)
           (t = CONJUNCTION_AND \<and> list_all snd ts)"
proof (cases "t = CONJUNCTION_OR")
  case True
  have "matches S r (CConj True cs)" if k: "keeps S flds p2f r (BoundConjunction CONJUNCTION_OR es)" for r
  proof -
    from k obtain e where "e \<in> set es" "keeps S flds p2f r e" by (auto simp: or3_True)
    then show ?thesis using sound_list_or [OF assms(1)] by auto
  qed
  with True show ?thesis by (simp add: sound_clause_def del: holds3.simps matches.simps)
next
  case False
  with assms(2) have t: "t = CONJUNCTION_AND" by simp
  show ?thesis
    using sound_list_and [OF assms(1)] sound_list_exact [OF assms(1)]
    by (simp add: sound_clause_def t and3_True)
qed

lemma translate_sound:
  assumes S: "documented S"
  shows "TranslateExpr D flds p2f e = Inr (Some (s, ex)) \<Longrightarrow> covered_expr e \<Longrightarrow>
           \<exists>c. render c = s \<and> sound_clause S flds p2f e c ex"
    and "TranslateChildren D flds p2f es = Inr (Some ts) \<Longrightarrow> list_all covered_expr es \<Longrightarrow>
           \<exists>cs. sound_list S flds p2f es cs ts"
proof (induction D flds p2f e and D flds p2f es arbitrary: s ex and ts
    rule: TranslateExpr_TranslateChildren.induct)
  case (1 D flds p2f etype l r)
  then show ?case using translate_comparison_sound [OF S] by simp
next
  case (2 D flds p2f input lower upper lo_inc hi_inc)
  then show ?case using translate_between_sound [OF S] by simp
next
  case (3 D flds p2f etype children)
  show ?case
  proof (cases "etype = COMPARE_IN")
    case True
    with 3 show ?thesis using translate_in_sound [OF S] by simp
  next
    case False
    with "3.prems"(1) obtain c f where c: "children = [c]" "FieldFor flds p2f c = Some f"
      and t: "etype = OPERATOR_IS_NULL \<or> etype = OPERATOR_IS_NOT_NULL"
      and s: "s = f @ (if etype = OPERATOR_IS_NULL then '' = null'' else '' != null'')" "ex"
      by (auto split: if_splits list.splits option.splits)
    from translate_null_sound [OF S c(2) t] s show ?thesis by (simp only: c(1))
  qed
next
  case (4 D flds p2f fn children)
  then show ?case using translate_like_sound [OF S] by simp
next
  case (5 D flds p2f etype children)
  from "5.prems"(1) obtain ts where t: "etype = CONJUNCTION_OR \<or> etype = CONJUNCTION_AND"
    and ts: "TranslateChildren D flds p2f children = Inr (Some ts)"
    and s: "s = ''('' @ sep_by (conj_word etype) (map fst ts) @ '')''"
      "ex = (etype = CONJUNCTION_AND \<and> list_all snd ts)"
    by (auto simp: rbind_eq_Inr split: if_splits option.splits)
  obtain cs where cs: "sound_list S flds p2f children cs ts"
    using "5.IH" [OF t ts] "5.prems"(2) by auto
  have "render (CConj (etype = CONJUNCTION_OR) cs) = s"
    using sound_list_render [OF cs] by (simp add: s conj_word_def)
  with conjunction_sound [OF cs t] s(2) show ?case by blast
next
  case (10 D flds p2f e es)
  from "10.prems"(1) obtain s ex ts' where t: "TranslateExpr D flds p2f e = Inr (Some (s, ex))"
    and ts': "TranslateChildren D flds p2f es = Inr (Some ts')" and ts: "ts = (s, ex) # ts'"
    by (fastforce simp: rbind_eq_Inr split: option.splits)
  obtain c where "render c = s \<and> sound_clause S flds p2f e c ex"
    using "10.IH"(1) [OF t] "10.prems"(2) by auto
  moreover obtain cs where "sound_list S flds p2f es cs ts'"
    using "10.IH"(2) [OF t _ ts'] "10.prems"(2) by auto
  ultimately show ?case by (intro exI [of _ "c # cs"]) (simp add: ts)
qed (auto intro: exI [of _ "[]"])

section \<open>The filter list as a whole\<close>

text \<open>The clauses and the residual filters of a translated filter list.\<close>

lemma translate_all_sound:
  assumes S: "documented S"
  shows "translate_all D flds p2f es = Inr ts \<Longrightarrow> list_all covered_expr es \<Longrightarrow>
     \<exists>cs. map render cs = clauses_of ts \<and>
       (\<forall>r. (\<forall>e \<in> set es. keeps S flds p2f r e) \<longrightarrow> list_all (matches S r) cs) \<and>
       (\<forall>r. complete_record flds r \<longrightarrow> list_all (matches S r) cs \<longrightarrow>
          (\<forall>(e, t) \<in> set (zip es ts). pi_translated (info_of t) \<and> pi_exact (info_of t) \<longrightarrow> exact_expr flds p2f e \<longrightarrow>
             keeps S flds p2f r e))"
proof (induction es arbitrary: ts)
  case Nil
  then show ?case by (intro exI [of _ "[]"]) (simp add: clauses_of_def)
next
  case (Cons e es)
  from Cons.prems(1) obtain t ts' where t: "TranslateExpr D flds p2f e = Inr t"
    and ts': "translate_all D flds p2f es = Inr ts'" and ts: "ts = t # ts'"
    by (auto simp: rbind_eq_Inr)
  from Cons.prems(2) have pe: "covered_expr e" and pes: "list_all covered_expr es" by simp_all
  from Cons.IH [OF ts' pes] obtain cs where cs: "map render cs = clauses_of ts'"
    "\<And>r. \<forall>e \<in> set es. keeps S flds p2f r e \<Longrightarrow> list_all (matches S r) cs"
    "\<And>r e t. complete_record flds r \<Longrightarrow> list_all (matches S r) cs \<Longrightarrow> (e, t) \<in> set (zip es ts') \<Longrightarrow>
       pi_translated (info_of t) \<Longrightarrow> pi_exact (info_of t) \<Longrightarrow> exact_expr flds p2f e \<Longrightarrow> keeps S flds p2f r e"
    by blast
  show ?case
  proof (cases t)
    case None
    then show ?thesis using cs
      by (intro exI [of _ cs]) (auto simp: ts clauses_of_def info_of_def)
  next
    case (Some p)
    obtain s ex where p: "p = (s, ex)" by (cases p)
    with t Some obtain c where c: "render c = s" "sound_clause S flds p2f e c ex"
      using translate_sound(1) [OF S _ pe] by blast
    show ?thesis using cs c
      by (intro exI [of _ "c # cs"]) (auto simp: ts Some p clauses_of_def info_of_def sound_clause_def)
  qed
qed

lemma translate_all_length: "translate_all D flds p2f es = Inr ts \<Longrightarrow> length ts = length es"
  by (induction es arbitrary: ts) (auto simp: rbind_eq_Inr)

lemma PushdownToSoql_cases:
  assumes "PushdownToSoql D flds p2f filters = Inr pd"
  obtains (pushed) ts where "translate_all D flds p2f filters = Inr ts"
      "length (pd_where pd) \<le> kMaxWhereChars"
      "pd_where pd = sep_by '' AND '' (clauses_of ts)" "pd_info pd = map info_of ts"
      "pd_remaining pd = map fst (filter (\<lambda>(f, t). \<not> (pi_translated (info_of t) \<and> pi_exact (info_of t)))
                                    (zip filters ts))"
    | (guarded) "pd_where pd = []" "pd_remaining pd = filters" "pd_info pd = map (\<lambda>_. info_of None) filters"
  using assms by (auto simp: PushdownToSoql_def rbind_eq_Inr Let_def split: if_splits)

lemma remaining_subset:
  assumes "PushdownToSoql D flds p2f filters = Inr pd"
  shows "set (pd_remaining pd) \<subseteq> set filters"
  using assms by (cases rule: PushdownToSoql_cases) (auto dest: set_zip_leftD)

section \<open>A case-insensitive server\<close>

text \<open>
  Cells that are SOQL literal texts: DuckDB compares them as texts, the server too, but without
  regard to case when they are quoted. This instance of the parameters does what is documented, and is
  the one the theorems below are applied with and on which unsuitable filters go wrong.
\<close>

fun text_less :: "string \<Rightarrow> string \<Rightarrow> bool" where
  "text_less [] b \<longleftrightarrow> b \<noteq> []"
| "text_less (c # a) [] \<longleftrightarrow> False"
| "text_less (c # a) (d # b) \<longleftrightarrow> code_of c < code_of d \<or> (c = d \<and> text_less a b)"

fun text_cmp :: "ExpressionType \<Rightarrow> string \<Rightarrow> string \<Rightarrow> bool" where
  "text_cmp COMPARE_EQUAL a b \<longleftrightarrow> a = b"
| "text_cmp COMPARE_NOTEQUAL a b \<longleftrightarrow> a \<noteq> b"
| "text_cmp COMPARE_LESSTHAN a b \<longleftrightarrow> text_less a b"
| "text_cmp COMPARE_GREATERTHAN a b \<longleftrightarrow> text_less b a"
| "text_cmp COMPARE_LESSTHANOREQUALTO a b \<longleftrightarrow> \<not> text_less b a"
| "text_cmp COMPARE_GREATERTHANOREQUALTO a b \<longleftrightarrow> \<not> text_less a b"
| "text_cmp _ a b \<longleftrightarrow> False"

definition op_type :: "string \<Rightarrow> ExpressionType" where
  "op_type op = (if op = ''='' then COMPARE_EQUAL else if op = ''!='' then COMPARE_NOTEQUAL
     else if op = ''<'' then COMPARE_LESSTHAN else if op = ''>'' then COMPARE_GREATERTHAN
     else if op = ''<='' then COMPARE_LESSTHANOREQUALTO else COMPARE_GREATERTHANOREQUALTO)"

fun like_match :: "string \<Rightarrow> string \<Rightarrow> bool" where
  "like_match [] s \<longleftrightarrow> s = []"
| "like_match (p # ps) s \<longleftrightarrow>
     (if p = CHR ''%'' then like_match ps s \<or> (case s of [] \<Rightarrow> False | _ # t \<Rightarrow> like_match (p # ps) t)
      else (case s of [] \<Rightarrow> False | c # t \<Rightarrow> (p = CHR ''_'' \<or> p = c) \<and> like_match ps t))"

definition literal_like :: "string \<Rightarrow> string \<Rightarrow> bool" where
  "literal_like a pat =
     (case (soql_read_string (drop 1 a), soql_read_string (drop 1 pat)) of
        (Some (s, _), Some (p, _)) \<Rightarrow> like_match p s | _ \<Rightarrow> False)"

definition folded :: "string \<Rightarrow> string" where
  "folded lit = (case lit of c # s \<Rightarrow> if c = SQ then map tolower lit else lit | [] \<Rightarrow> [])"

definition text_sem :: "string filter_sem" where
  "text_sem = \<lparr>
     s_const = (\<lambda>v. case SoqlLiteral v of Inr l \<Rightarrow> if l = ''null'' then None else Some l | Inl _ \<Rightarrow> None),
     s_operand = (\<lambda>_ _. None),
     s_cmp = text_cmp,
     s_like = (\<lambda>fn a b. case soql_read_string (drop 1 b) of
                 Some (s, _) \<Rightarrow> literal_like a (SoqlString (like_pattern fn s)) | None \<Rightarrow> False),
     s_other = (\<lambda>_ _. None),
     srv_cmp = (\<lambda>op x lit.
        if lit = ''null'' then (if op = ''='' then x = None else x \<noteq> None)
        else (case x of None \<Rightarrow> False | Some a \<Rightarrow>
          if hd (lit @ ''.'') = SQ then text_cmp (op_type op) (folded a) (folded lit) else text_cmp (op_type op) a lit)),
     srv_like = (\<lambda>x pat. case x of None \<Rightarrow> False | Some a \<Rightarrow> literal_like a pat) \<rparr>"

lemma op_type_inverse: "ComparisonOp t = Some op \<Longrightarrow> op_type op = t"
  by (cases t) (auto simp: op_type_def)

lemma read_SoqlString: "soql_read_string (drop 1 (SoqlString s)) = Some (s, [])"
  using SoqlString_read [of s "[]"] by simp

lemma SoqlString_not_null: "SoqlString s \<noteq> ''null''"
  by (simp add: SoqlString_def)

lemma text_sem_documented: "documented text_sem"
proof -
  have "scalars_agree text_sem"
    by (auto simp: scalars_agree_def text_sem_def cmp3_def proper_def scalar_def
        dest: op_type_inverse split: option.splits list.splits if_splits)
  moreover have "text_covered text_sem"
    by (auto simp: text_covered_def text_sem_def cmp3_def proper_def op_type_def split: option.splits if_splits)
  moreover have "cmp_flips text_sem"
    unfolding cmp_flips_def
  proof (intro allI impI)
    fix t t' a b
    show "FlipComparison t = Some t' \<Longrightarrow> s_cmp text_sem t a b = s_cmp text_sem t' b a"
      by (cases t) (auto simp: text_sem_def)
  qed
  moreover have "null_tests text_sem"
    by (auto simp: null_tests_def text_sem_def SoqlLiteral_def)
  moreover have "like_covered text_sem"
    by (auto simp: like_covered_def text_sem_def SoqlLiteral_def read_SoqlString [unfolded One_nat_def]
        split: option.splits if_splits)
  ultimately show ?thesis by (simp add: documented_def)
qed

definition sample_fields :: "SalesforceField list" where
  "sample_fields =
     [SalesforceField ''Id'' ''id'' VARCHAR False 18 0 0 True True False [] [] [] False [],
      SalesforceField ''Name'' ''string'' VARCHAR True 80 0 0 True True False [] [] [] False [],
      SalesforceField ''Size'' ''int'' INTEGER False 0 9 0 True True False [] [] [] False []]"

definition varchar_value :: "string \<Rightarrow> Value" where
  "varchar_value s = \<lparr> v_IsNull = False, v_type = VARCHAR, v_ToString = s, v_StringGet = s,
                       v_BoolGet = False, v_IntGet = 0 \<rparr>"

definition integer_value :: "string \<Rightarrow> Value" where
  "integer_value s = (varchar_value s) \<lparr> v_type := INTEGER \<rparr>"

definition sample_filters :: "expr list" where
  "sample_filters =
     [BoundComparison COMPARE_NOTEQUAL (BoundColumnRef 2) (BoundConstant (integer_value ''7'')),
      BoundFunction ''prefix'' [BoundColumnRef 1, BoundConstant (varchar_value ''b'')]]"

definition sample_pushdown :: pushdown where
  "sample_pushdown =
     \<lparr> pd_where = ''Size != 7 AND Name LIKE '' @ [SQ] @ ''b%'' @ [SQ],
       pd_remaining = [sample_filters ! 1],
       pd_info = [\<lparr> pi_translated = True, pi_exact = True \<rparr>, \<lparr> pi_translated = True, pi_exact = False \<rparr>] \<rparr>"

definition text_filters :: "expr list" where
  "text_filters =
     [BoundComparison COMPARE_EQUAL (BoundColumnRef 1) (BoundConstant (varchar_value ''a'')),
      BoundFunction ''prefix'' [BoundColumnRef 1, BoundConstant (varchar_value ''b'')]]"

definition text_pushdown :: pushdown where
  "text_pushdown =
     \<lparr> pd_where = ''Name = '' @ [SQ] @ ''a'' @ [SQ] @ '' AND Name LIKE '' @ [SQ] @ ''b%'' @ [SQ],
       pd_remaining = [text_filters ! 1],
       pd_info = [\<lparr> pi_translated = True, pi_exact = True \<rparr>, \<lparr> pi_translated = True, pi_exact = False \<rparr>] \<rparr>"

lemma sample_pushdown_run:
  "PushdownToSoql ascii_su sample_fields [0, 1, 2] sample_filters = Inr sample_pushdown"
  "PushdownToSoql ascii_su sample_fields [0, 1, 2] text_filters = Inr text_pushdown"
  by code_simp+

lemma sample_suitable:
  "list_all (exact_expr sample_fields [0, 1, 2]) sample_filters" "list_all covered_expr text_filters"
  by (simp_all add: sample_filters_def text_filters_def proper_def scalar_def SoqlLiteral_def varchar_value_def
      integer_value_def sample_fields_def SoqlString_not_null)

section \<open>The theorems\<close>



text \<open>
  C2: Pushdown of covered filters never loses a row. For filters that compare text with constants only
  by equality, \<^verbatim>\<open>IN\<close> and \<^verbatim>\<open>LIKE\<close>, and nothing with a NULL constant, a server that is as documented, case-insensitive or
  not, returns every record that all the filters keep, and the residual filters keep it too.
  (A text constant under \<^verbatim>\<open>!=\<close> or \<^verbatim>\<open><\<close> is pushed as well, and there rows can be lost:
  \<open>text_inequality_loses_rows\<close>.)
\<close>

theorem pushdown_loses_no_row:
  assumes "documented S" and "list_all covered_expr filters"
    and "PushdownToSoql D flds p2f filters = Inr pd"
  shows "\<exists>cs. pd_where pd = sep_by '' AND '' (map render cs) \<and>
    (\<forall>r. list_all (keeps S flds p2f r) filters \<longrightarrow>
         list_all (matches S r) cs \<and> list_all (keeps S flds p2f r) (pd_remaining pd))"
  using assms(3)
proof (cases rule: PushdownToSoql_cases)
  case (pushed ts)
  from translate_all_sound [OF assms(1) pushed(1) assms(2)]
  obtain cs where cs: "map render cs = clauses_of ts"
    "\<And>r. \<forall>e \<in> set filters. keeps S flds p2f r e \<Longrightarrow> list_all (matches S r) cs"
    by blast
  then show ?thesis
    using pushed(3) remaining_subset [OF assms(3)]
    by (intro exI [of _ cs]) (auto simp: list_all_iff)
next
  case guarded
  then show ?thesis by (intro exI [of _ "[]"]) simp
qed

theorem pushdown_loses_no_row_witness:
  "\<exists>cs. pd_where text_pushdown = sep_by '' AND '' (map render cs) \<and>
    (\<forall>r. list_all (keeps text_sem sample_fields [0, 1, 2] r) text_filters \<longrightarrow>
         list_all (matches text_sem r) cs \<and>
         list_all (keeps text_sem sample_fields [0, 1, 2] r) (pd_remaining text_pushdown))"
  by (rule pushdown_loses_no_row [OF text_sem_documented sample_suitable(2) sample_pushdown_run(2)])

text \<open>
  Outside these filters the code does go wrong. On a case-insensitive server, \<^verbatim>\<open>Name = 'a'\<close> is answered with
  a record named \<^verbatim>\<open>A\<close> and no residual filter removes it; \<^verbatim>\<open>Name != 'a'\<close> is not answered with it, although
  DuckDB would keep it.
\<close>

definition named_A :: "string rec" where
  "named_A = (\<lambda>f. if f = ''Name'' then Some (SoqlString ''A'') else Some (SoqlString ''x''))"

definition name_filter :: "ExpressionType \<Rightarrow> expr" where
  "name_filter t = BoundComparison t (BoundColumnRef 1) (BoundConstant (varchar_value ''a''))"

lemma text_equality_adds_rows:
  "PushdownToSoql ascii_su sample_fields [0, 1, 2] [name_filter COMPARE_EQUAL] =
     Inr \<lparr> pd_where = render (CCmp ''Name'' ''='' (SoqlString ''a'')), pd_remaining = [],
           pd_info = [\<lparr> pi_translated = True, pi_exact = True \<rparr>] \<rparr>"
  "matches text_sem named_A (CCmp ''Name'' ''='' (SoqlString ''a''))"
  "\<not> keeps text_sem sample_fields [0, 1, 2] named_A (name_filter COMPARE_EQUAL)"
  by code_simp+

lemma text_inequality_loses_rows:
  "PushdownToSoql ascii_su sample_fields [0, 1, 2] [name_filter COMPARE_NOTEQUAL] =
     Inr \<lparr> pd_where = render (CCmp ''Name'' ''!='' (SoqlString ''a'')), pd_remaining = [],
           pd_info = [\<lparr> pi_translated = True, pi_exact = True \<rparr>] \<rparr>"
  "keeps text_sem sample_fields [0, 1, 2] named_A (name_filter COMPARE_NOTEQUAL)"
  "\<not> matches text_sem named_A (CCmp ''Name'' ''!='' (SoqlString ''a''))"
  by code_simp+

text \<open>The clause a filter would be pushed as.\<close>

definition clause_text :: "string_util \<Rightarrow> SalesforceField list \<Rightarrow> nat list \<Rightarrow> expr \<Rightarrow> string" where
  "clause_text D flds p2f e = (case TranslateExpr D flds p2f e of Inr (Some (s, _)) \<Rightarrow> s | _ \<Rightarrow> [])"

definition info_true :: "string_util \<Rightarrow> SalesforceField list \<Rightarrow> nat list \<Rightarrow> expr \<Rightarrow> PushdownConjunctInfo \<Rightarrow> bool" where
  "info_true D flds p2f e i \<longleftrightarrow>
     (if pi_translated i then TranslateExpr D flds p2f e = Inr (Some (clause_text D flds p2f e, pi_exact i)) else \<not> pi_exact i)"

lemma translate_all_info:
  "translate_all D flds p2f es = Inr ts \<Longrightarrow>
     list_all2 (info_true D flds p2f) es (map info_of ts) \<and>
     list_all2 (\<lambda>e i. pi_translated i \<longleftrightarrow> TranslateExpr D flds p2f e \<noteq> Inr None) es (map info_of ts) \<and>
     clauses_of ts = map (clause_text D flds p2f \<circ> fst) (filter (\<lambda>(e, i). pi_translated i) (zip es (map info_of ts))) \<and>
     clauses_of ts = map (clause_text D flds p2f) (filter (\<lambda>e. TranslateExpr D flds p2f e \<noteq> Inr None) es)"
  by (induction es arbitrary: ts)
     (auto simp: rbind_eq_Inr clauses_of_def info_of_def info_true_def clause_text_def split: option.splits)

text \<open>
  C35: The length guard holds and the diagnostic tells the truth. The pushed WHERE never exceeds
  4000 characters and is the conjunction of the clauses of exactly the conjuncts reported as translated, each reported
  exact just when its translation is; the filters left for DuckDB are exactly those not reported both
  translated and exact. Every conjunct that translates is reported and pushed, unless the clauses
  together are too long: then none is reported and nothing is pushed.
\<close>

theorem pushdown_bounds_and_info:
  assumes "PushdownToSoql D flds p2f filters = Inr pd"
  shows "length (pd_where pd) \<le> 4000 \<and> list_all2 (info_true D flds p2f) filters (pd_info pd)
    \<and> pd_where pd = sep_by '' AND ''
        (map (clause_text D flds p2f \<circ> fst) (filter (\<lambda>(f, i). pi_translated i) (zip filters (pd_info pd))))
    \<and> pd_remaining pd =
        map fst (filter (\<lambda>(f, i). \<not> (pi_translated i \<and> pi_exact i)) (zip filters (pd_info pd)))
    \<and> (if length (sep_by '' AND '' (map (clause_text D flds p2f) (filter (\<lambda>f. TranslateExpr D flds p2f f \<noteq> Inr None) filters))) \<le> 4000
       then list_all2 (\<lambda>f i. pi_translated i \<longleftrightarrow> TranslateExpr D flds p2f f \<noteq> Inr None) filters (pd_info pd)
       else list_all (\<lambda>i. \<not> pi_translated i) (pd_info pd))"
proof -
  from assms obtain ts where ts: "translate_all D flds p2f filters = Inr ts"
    by (auto simp: PushdownToSoql_def rbind_eq_Inr)
  from translate_all_info [OF ts] have info:
    "list_all2 (info_true D flds p2f) filters (map info_of ts)"
    "list_all2 (\<lambda>e i. pi_translated i \<longleftrightarrow> TranslateExpr D flds p2f e \<noteq> Inr None) filters (map info_of ts)"
    "clauses_of ts = map (clause_text D flds p2f \<circ> fst) (filter (\<lambda>(e, i). pi_translated i) (zip filters (map info_of ts)))"
    "clauses_of ts = map (clause_text D flds p2f) (filter (\<lambda>e. TranslateExpr D flds p2f e \<noteq> Inr None) filters)"
    by blast+
  have len: "length ts = length filters" by (rule translate_all_length [OF ts])
  show ?thesis
  proof (cases "length (sep_by '' AND '' (clauses_of ts)) \<le> 4000")
    case True
    with assms ts have pd: "pd = \<lparr> pd_where = sep_by '' AND '' (clauses_of ts),
        pd_remaining = map fst (filter (\<lambda>(f, t). \<not> (pi_translated (info_of t) \<and> pi_exact (info_of t))) (zip filters ts)),
        pd_info = map info_of ts \<rparr>"
      by (simp add: PushdownToSoql_def kMaxWhereChars_def Let_def)
    have "map fst (filter (\<lambda>(f, i). \<not> (pi_translated i \<and> pi_exact i)) (zip filters (map info_of ts)))
        = map fst (filter (\<lambda>(f, t). \<not> (pi_translated (info_of t) \<and> pi_exact (info_of t))) (zip filters ts))"
      using len by (induction ts filters rule: list_induct2) auto
    moreover have "length (sep_by '' AND '' (map (clause_text D flds p2f) (filter (\<lambda>f. TranslateExpr D flds p2f f \<noteq> Inr None) filters))) \<le> 4000"
      using True info by metis
    ultimately show ?thesis unfolding pd using True info(1,2,3) by simp
  next
    case False
    with assms ts have pd: "pd = \<lparr> pd_where = [], pd_remaining = filters, pd_info = map (\<lambda>_. info_of None) filters \<rparr>"
      by (simp add: PushdownToSoql_def kMaxWhereChars_def Let_def)
    have "list_all2 (info_true D flds p2f) filters (map (\<lambda>_. info_of None) filters)"
      by (simp add: list_all2_conv_all_nth info_true_def info_of_def)
    moreover have "filter (\<lambda>(f, i). pi_translated i) (zip filters (map (\<lambda>_. info_of None) filters)) = []"
      "filter (\<lambda>(f, i). \<not> (pi_translated i \<and> pi_exact i)) (zip filters (map (\<lambda>_. info_of None) filters))
        = zip filters (map (\<lambda>_. info_of None) filters)"
      by (auto simp: filter_id_conv filter_empty_conv info_of_def in_set_zip)
    ultimately show ?thesis using False info unfolding pd by (simp add: list_all_iff info_of_def)
  qed
qed

theorem pushdown_bounds_and_info_witness:
  "length (pd_where sample_pushdown) \<le> 4000 \<and>
   list_all2 (info_true ascii_su sample_fields [0, 1, 2]) sample_filters (pd_info sample_pushdown) \<and>
   pd_where sample_pushdown = sep_by '' AND '' (map (clause_text ascii_su sample_fields [0, 1, 2] \<circ> fst)
     (filter (\<lambda>(f, i). pi_translated i) (zip sample_filters (pd_info sample_pushdown))))"
  using pushdown_bounds_and_info [OF sample_pushdown_run(1)] by blast

section \<open>Ids are checked when the query is planned\<close>

lemma check_id_loop_iff:
  "check_id_loop f vs = Inr () \<longleftrightarrow> (\<forall>v \<in> set vs. v_IsNull v \<or> IsValidSalesforceIdText (v_ToString v))"
  by (induction vs) auto

text \<open>
  An equality between a filterable Id field and a constant is refused at plan time, with the
  message that names the field and the value, exactly when the constant is not NULL and is not
  15 or 18 alphanumeric characters; it is never silently left to a full scan.
\<close>

theorem malformed_id_refused:
  assumes "FieldFor flds p2f col = Some field" and "FieldStructFor D flds field = Some fld"
    and "su_Lower D (f_sf_type fld) = ''id''"
  shows "TranslateExpr D flds p2f (BoundComparison COMPARE_EQUAL col (BoundConstant v))
           = Inl (BinderException (invalid_id_message (v_ToString v) field))
         \<longleftrightarrow> \<not> v_IsNull v \<and> \<not> IsValidSalesforceIdText (v_ToString v)"
  using assms
  by (auto simp: translate_comparison_def translate_cmp_def CheckIdLiterals_def split: sum.splits)

theorem malformed_id_refused_witness:
  "TranslateExpr ascii_su sample_fields [0, 1, 2]
      (BoundComparison COMPARE_EQUAL (BoundColumnRef 0) (BoundConstant (varchar_value ''xyz'')))
   = Inl (BinderException (invalid_id_message ''xyz'' ''Id''))"
proof -
  have "FieldFor sample_fields [0, 1, 2] (BoundColumnRef 0) = Some ''Id''"
    and "FieldStructFor ascii_su sample_fields ''Id'' = Some (sample_fields ! 0)"
    and "su_Lower ascii_su (f_sf_type (sample_fields ! 0)) = ''id''"
    by code_simp+
  from malformed_id_refused [OF this, of "varchar_value ''xyz''"] show ?thesis
    by (simp add: varchar_value_def IsValidSalesforceIdText_def)
qed

end
