(* ===== verification/SF_Scan.thy ===== *)
theory SF_Scan
  imports SF_Quota SF_Value SF_Chunk SF_Pushdown
begin

text \<open>
  The catalog scan (\<^verbatim>\<open>salesforce_scan.cpp\<close>): bind data, the filter-pushdown hook, the
  initialisation that chooses transport, mode and pushdowns, and the table function that streams
  REST pages or Bulk result pages lazily. Every operation is a session computation: the state
  holds the client, the session and the process-wide diagnostics; the global and local scan
  states are passed and returned. After an exception DuckDB abandons the scan, so the scan
  states of a failed call are not observable.
\<close>

section \<open>State\<close>

record SalesforcePushedAggregate =
  pa_func :: string
  pa_field :: string
  pa_out_name :: string
  pa_emit :: SalesforceField

record SalesforceScanBindData =
  b_config :: SalesforceConfig
  b_token :: SalesforceTokenSet
  b_object :: string
  b_fields :: "SalesforceField list"
  b_column_names :: "string list"
  b_column_types :: "LogicalType list"
  b_pushed_where :: string
  b_pushed_filter_count :: int
  b_residual_filter_count :: int
  b_catalog_alias :: string
  b_explain_filters :: "DiagExplainItem list"
  b_explain_captured :: bool
  b_pushed_aggregates :: "SalesforcePushedAggregate list"
  b_raw_where :: string

definition bind_Copy :: "SalesforceScanBindData \<Rightarrow> SalesforceScanBindData" where
  "bind_Copy b = \<lparr> b_config = b_config b, b_token = b_token b, b_object = b_object b, b_fields = b_fields b,
     b_column_names = b_column_names b, b_column_types = b_column_types b, b_pushed_where = b_pushed_where b,
     b_pushed_filter_count = b_pushed_filter_count b, b_residual_filter_count = b_residual_filter_count b,
     b_catalog_alias = b_catalog_alias b, b_explain_filters = b_explain_filters b,
     b_explain_captured = b_explain_captured b, b_pushed_aggregates = b_pushed_aggregates b,
     b_raw_where = b_raw_where b \<rparr>"

record ScanGlobalState =
  gs_next_path :: string
  gs_done :: bool
  gs_page :: "string list"
  gs_cursor :: nat
  gs_pages_fetched :: nat
  gs_seen :: "string list"
  gs_bulk :: bool
  gs_query_all :: bool
  gs_bulk_poll_budget :: int
  gs_bulk_chunk_soqls :: "string list"
  gs_next_chunk :: nat
  gs_total_bulk_pages :: nat
  gs_count_only :: bool
  gs_count_total :: int
  gs_count_cursor :: int
  gs_combined_where :: string
  gs_agg_only :: bool
  gs_agg_record :: string
  gs_agg_emit_fields :: "SalesforceField list"
  gs_agg_sent :: bool
  gs_column_ids :: "nat list"
  gs_max_threads :: nat

definition new_gstate :: "nat list \<Rightarrow> ScanGlobalState" where
  "new_gstate column_ids = \<lparr> gs_next_path = [], gs_done = False, gs_page = [], gs_cursor = 0,
     gs_pages_fetched = 0, gs_seen = [], gs_bulk = False, gs_query_all = False, gs_bulk_poll_budget = 600,
     gs_bulk_chunk_soqls = [], gs_next_chunk = 0, gs_total_bulk_pages = 0, gs_count_only = False,
     gs_count_total = 0, gs_count_cursor = 0, gs_combined_where = [], gs_agg_only = False, gs_agg_record = [],
     gs_agg_emit_fields = [], gs_agg_sent = False, gs_column_ids = column_ids, gs_max_threads = 1 \<rparr>"

record ScanLocalState =
  ls_session :: "SalesforceSession option"
  ls_has_chunk :: bool
  ls_results_base :: string
  ls_started :: bool
  ls_chunk_done :: bool
  ls_next_locator :: string
  ls_columns :: "string list"
  ls_page :: "string list list"
  ls_cursor :: nat
  ls_seen :: "string list"
  ls_field_to_csv :: "nat option list"

definition ScanInitLocal :: ScanLocalState where
  "ScanInitLocal = \<lparr> ls_session = None, ls_has_chunk = False, ls_results_base = [], ls_started = False,
     ls_chunk_done = False, ls_next_locator = [], ls_columns = [], ls_page = [], ls_cursor = 0, ls_seen = [],
     ls_field_to_csv = [] \<rparr>"

section \<open>The filter-pushdown hook\<close>

text \<open>The fields whose columns occur in an expression.\<close>

fun expr_fields :: "SalesforceField list \<Rightarrow> nat list \<Rightarrow> expr \<Rightarrow> nat list" where
  "expr_fields flds p2f (BoundColumnRef proj) =
     (if proj < length p2f \<and> p2f ! proj < length flds then [p2f ! proj] else [])"
| "expr_fields flds p2f (BoundConstant v) = []"
| "expr_fields flds p2f (BoundComparison t a b) = expr_fields flds p2f a @ expr_fields flds p2f b"
| "expr_fields flds p2f (BoundBetween x lo hi li hii) =
     expr_fields flds p2f x @ expr_fields flds p2f lo @ expr_fields flds p2f hi"
| "expr_fields flds p2f (BoundOperator t cs) = concat (map (expr_fields flds p2f) cs)"
| "expr_fields flds p2f (BoundFunction fn cs) = concat (map (expr_fields flds p2f) cs)"
| "expr_fields flds p2f (BoundConjunction t cs) = concat (map (expr_fields flds p2f) cs)"
| "expr_fields flds p2f (OtherExpr cs) = concat (map (expr_fields flds p2f) cs)"

definition ExplainFieldOf :: "SalesforceField list \<Rightarrow> nat list \<Rightarrow> expr \<Rightarrow> string option" where
  "ExplainFieldOf flds p2f e =
     (case e of
        BoundConjunction t cs \<Rightarrow> None
      | _ \<Rightarrow> (case remdups (expr_fields flds p2f e) of [i] \<Rightarrow> Some (f_name (flds ! i)) | _ \<Rightarrow> None))"

definition explain_filter :: "string option \<Rightarrow> PushdownConjunctInfo \<Rightarrow> DiagExplainItem" where
  "explain_filter fn i = empty_item \<lparr> it_role := ''filter'',
     it_field := (case fn of Some n \<Rightarrow> n | None \<Rightarrow> []), it_field_known := (fn \<noteq> None),
     it_pushed := pi_translated i, it_residual := \<not> (pi_translated i \<and> pi_exact i) \<rparr>"

definition ScanPushdownComplexFilter ::
  "string_util \<Rightarrow> nat list \<Rightarrow> SalesforceScanBindData \<Rightarrow> expr list \<Rightarrow> (SalesforceScanBindData \<times> expr list) result" where
  "ScanPushdownComplexFilter D p2f b filters =
     (if filters = [] then Inr (b, filters)
      else let snap = map (ExplainFieldOf (b_fields b) p2f) filters in
        rbind (PushdownToSoql D (b_fields b) p2f filters) (\<lambda>pd.
          Inr (b \<lparr> b_pushed_where :=
                     (if pd_where pd = [] then b_pushed_where b
                      else if b_pushed_where b = [] then pd_where pd
                      else b_pushed_where b @ '' AND '' @ pd_where pd),
                   b_explain_filters :=
                     (if b_explain_captured b then b_explain_filters b
                      else b_explain_filters b @ map (\<lambda>(n, i). explain_filter n i) (zip snap (pd_info pd))),
                   b_explain_captured := True,
                   b_pushed_filter_count :=
                     b_pushed_filter_count b + (int (length filters) - int (length (pd_remaining pd))),
                   b_residual_filter_count := int (length (pd_remaining pd)) \<rparr>,
               pd_remaining pd)))"

section \<open>What the scan selects\<close>

fun EmitRelationshipSoql :: "string \<Rightarrow> SalesforceField list \<Rightarrow> string list" where
  "EmitRelationshipSoql path [] = []"
| "EmitRelationshipSoql path
     (SalesforceField nm st ty nil len prc scl flt srt unk rel refs pick is_rel children # fs) =
     (if is_rel then EmitRelationshipSoql (path @ ''.'' @ nm) children else [path @ ''.'' @ nm])
     @ EmitRelationshipSoql path fs"

definition projected_fields :: "SalesforceField list \<Rightarrow> nat list \<Rightarrow> SalesforceField list" where
  "projected_fields flds column_ids = map (\<lambda>c. flds ! c) (filter (\<lambda>c. c < length flds) column_ids)"

definition select_fields_of :: "SalesforceField list \<Rightarrow> nat list \<Rightarrow> string list" where
  "select_fields_of flds column_ids =
     (let sel = concat (map (\<lambda>f. if f_is_relationship f
                                 then EmitRelationshipSoql (f_relationship_name f) (f_children f)
                                 else [f_name f]) (projected_fields flds column_ids))
      in if sel = [] \<and> flds \<noteq> [] then [f_name (flds ! 0)] else sel)"

fun FindProjectedBase64 :: "string_util \<Rightarrow> SalesforceField list \<Rightarrow> string \<Rightarrow> string" where
  "FindProjectedBase64 D [] pre = []"
| "FindProjectedBase64 D
     (SalesforceField nm st ty nil len prc scl flt srt unk rel refs pick is_rel children # fs) pre =
     (let r = (if is_rel then FindProjectedBase64 D children (pre @ rel @ ''.'')
               else if su_Lower D st = ''base64'' then pre @ nm else [])
      in if r \<noteq> [] then r else FindProjectedBase64 D fs pre)"

definition combined_where :: "SalesforceScanBindData \<Rightarrow> string" where
  "combined_where b =
     (if b_raw_where b = [] then b_pushed_where b
      else if b_pushed_where b = [] then b_raw_where b
      else b_pushed_where b @ '' AND '' @ b_raw_where b)"

definition setting_text :: "string_util \<Rightarrow> client_context \<Rightarrow> string \<Rightarrow> string \<Rightarrow> string" where
  "setting_text D C key dflt =
     (case TryGetCurrentSetting C key of
        Some v \<Rightarrow> if v_IsNull v then dflt else su_Lower D (v_ToString v)
      | None \<Rightarrow> dflt)"

definition scan_transport :: "string_util \<Rightarrow> client_context \<Rightarrow> SalesforceScanBindData \<Rightarrow> string result" where
  "scan_transport D C b =
     (let t = setting_text D C ''sf_force_transport'' ''rest'' in
      if t \<noteq> ''rest'' \<and> t \<noteq> ''bulk'' \<and> t \<noteq> ''auto'' then Inl (BinderException
        (''sf_force_transport must be '' @ [SQ] @ ''rest'' @ [SQ] @ '', '' @ [SQ] @ ''bulk'' @ [SQ] @ '' or ''
         @ [SQ] @ ''auto'' @ [SQ] @ '' (got '' @ [SQ] @ t @ [SQ] @ '').''))
      else Inr (if transport (b_config b) = [] then t else su_Lower D (transport (b_config b))))"

definition scan_query_mode :: "string_util \<Rightarrow> client_context \<Rightarrow> SalesforceScanBindData \<Rightarrow> string result" where
  "scan_query_mode D C b =
     (let m = setting_text D C ''sf_query_mode'' ''query'' in
      if m \<noteq> ''query'' \<and> m \<noteq> ''queryall'' then Inl (BinderException
        (''sf_query_mode must be '' @ [SQ] @ ''query'' @ [SQ] @ '' or '' @ [SQ] @ ''queryAll'' @ [SQ]
         @ '' (got '' @ [SQ] @ m @ [SQ] @ '').''))
      else Inr (if query_mode (b_config b) = [] then m else su_Lower D (query_mode (b_config b))))"

definition poll_budget_setting :: "client_context \<Rightarrow> int" where
  "poll_budget_setting C =
     (case TryGetCurrentSetting C ''sf_bulk_poll_budget'' of
        Some v \<Rightarrow> if v_IsNull v then 600
                  else if v_IntGet v < 1 then 1
                  else if v_IntGet v > int32_max then int32_max else v_IntGet v
      | None \<Rightarrow> 600)"

definition count_soql_of :: "SalesforceScanBindData \<Rightarrow> string" where
  "count_soql_of b =
     ''SELECT COUNT() FROM '' @ b_object b @ (if combined_where b = [] then [] else '' WHERE '' @ combined_where b)"

definition mode_text :: "bool \<Rightarrow> string" where
  "mode_text qall = (if qall then ''queryAll'' else ''query'')"

section \<open>Aggregate pushdown\<close>

definition agg_soql_of :: "SalesforceScanBindData \<Rightarrow> string" where
  "agg_soql_of b =
     ''SELECT '' @ sep_by '', '' (map (\<lambda>pa. pa_func pa @ ''('' @ pa_field pa @ '') '' @ f_name (pa_emit pa)) (b_pushed_aggregates b))
     @ '' FROM '' @ b_object b @ (if b_pushed_where b = [] then [] else '' WHERE '' @ b_pushed_where b)"

definition agg_failed :: "string \<Rightarrow> string \<Rightarrow> sf_error" where
  "agg_failed object soql = IOException
     (''aggregate pushdown query failed for '' @ [SQ] @ object @ [SQ] @ '' (SOQL: '' @ soql @ ''); ''
      @ ''retry with sf_aggregate_pushdown = false to scan rows and aggregate locally instead.'')"

definition agg_null :: "string \<Rightarrow> string \<Rightarrow> string \<Rightarrow> sf_error" where
  "agg_null fn object soql = IOException
     (''aggregate pushdown returned a null '' @ fn @ '' for '' @ [SQ] @ object @ [SQ] @ '' (SOQL: '' @ soql @ ''); ''
      @ ''retry with sf_aggregate_pushdown = false.'')"

fun check_counts :: "string \<Rightarrow> string \<Rightarrow> string \<Rightarrow> SalesforcePushedAggregate list \<Rightarrow> unit result" where
  "check_counts object soql rec [] = Inr ()"
| "check_counts object soql rec (pa # pas) =
     (if pa_func pa \<noteq> ''COUNT'' \<and> pa_func pa \<noteq> ''COUNT_DISTINCT'' then check_counts object soql rec pas
      else (case GetValue rec (f_name (pa_emit pa)) of (raw, found, is_null) \<Rightarrow>
              if \<not> found \<or> is_null then Inl (agg_null (pa_func pa) object soql)
              else check_counts object soql rec pas))"

definition agg_item :: "SalesforcePushedAggregate \<Rightarrow> DiagExplainItem" where
  "agg_item pa = empty_item \<lparr> it_role := ''aggregate'', it_field := pa_field pa, it_field_known := True,
                             it_pushed := True \<rparr>"

definition init_aggregate ::
  "'c external \<Rightarrow> SalesforceScanBindData \<Rightarrow> ScanGlobalState \<Rightarrow> ('c, ScanGlobalState) sess" where
  "init_aggregate X b g =
     (let soql = agg_soql_of b in
      bnd (globals_do (SetLastSoql soql)) (\<lambda>_.
      bnd (globals_do (SetLastTransport ''rest'' 1 ''aggregate pushdown -> rest'')) (\<lambda>_.
      bnd (globals_do (SetLastScanPages 0)) (\<lambda>_.
      bnd (TryAggregateQuery X soql) (\<lambda>rec.
      case rec of
        None \<Rightarrow> throw (agg_failed (b_object b) soql)
      | Some record_json \<Rightarrow>
          bnd (of_result (check_counts (b_object b) soql record_json (b_pushed_aggregates b))) (\<lambda>_.
          bnd (globals_do (DiagRecordScan (b_object b) soql ''rest'' 1 ''aggregate pushdown''
                 (int (length (b_pushed_aggregates b))) (int (length (b_fields b))) (b_pushed_filter_count b)
                 (b_residual_filter_count b) (combined_where b) False 0 True (mode_text (gs_query_all g)))) (\<lambda>_.
          bnd (globals_do (DiagSetExplain (b_catalog_alias b) (map agg_item (b_pushed_aggregates b)))) (\<lambda>_.
          ret (g \<lparr> gs_agg_only := True, gs_agg_record := record_json,
                   gs_agg_emit_fields := map pa_emit (b_pushed_aggregates b) \<rparr>)))))))))"

section \<open>Transport\<close>

record transport_choice =
  tc_effective :: string
  tc_est_rows :: int
  tc_reason :: string

definition probe_enabled :: "client_context \<Rightarrow> bool" where
  "probe_enabled C = SettingBool C ''sf_auto_probe'' True"

definition choose_transport ::
  "client_context \<Rightarrow> 'c external \<Rightarrow> SalesforceScanBindData \<Rightarrow> string \<Rightarrow> bool \<Rightarrow> ('c, transport_choice) sess" where
  "choose_transport C X b tr aggregate_only =
     (if tr \<noteq> ''auto'' then ret \<lparr> tc_effective = tr, tc_est_rows = - 1, tc_reason = ''forced'' \<rparr>
      else if aggregate_only
        then ret \<lparr> tc_effective = ''rest'', tc_est_rows = - 1, tc_reason = ''auto: aggregate-only -> rest'' \<rparr>
      else if \<not> probe_enabled C
        then ret \<lparr> tc_effective = ''rest'', tc_est_rows = - 1, tc_reason = ''auto: probe disabled -> rest'' \<rparr>
      else let threshold = SettingInt C ''sf_auto_bulk_threshold'' 50000 in
        bnd (TryEstimateCount X (count_soql_of b)) (\<lambda>est.
        ret (case est of
               None \<Rightarrow> \<lparr> tc_effective = ''rest'', tc_est_rows = - 1, tc_reason = ''auto: probe failed -> rest'' \<rparr>
             | Some n \<Rightarrow>
                 let eff = (if n > threshold then ''bulk'' else ''rest'')
                 in \<lparr> tc_effective = eff, tc_est_rows = n,
                      tc_reason = ''auto: est '' @ show_int n @ '' rows '' @ (if n > threshold then ''>'' else ''<='')
                        @ '' threshold '' @ show_int threshold @ '' -> '' @ eff \<rparr>)))"

definition base64_guard :: "string \<Rightarrow> string \<Rightarrow> transport_choice \<Rightarrow> transport_choice result" where
  "base64_guard tr base64_field tc =
     (if base64_field = [] then Inr tc
      else if tr = ''bulk'' then Inl (BinderException
        (''projected base64 field '' @ [SQ] @ base64_field @ [SQ] @ '' is not supported by Bulk API 2.0 CSV; use ''
         @ [SQ] @ ''rest'' @ [SQ] @ '' or '' @ [SQ] @ ''auto'' @ [SQ] @ ''.''))
      else if tc_effective tc = ''bulk'' then Inr (tc \<lparr> tc_effective := ''rest'',
        tc_reason := ''auto: bulk-incompatible (projected base64 field '' @ [SQ] @ base64_field @ [SQ] @ '') -> rest'' \<rparr>)
      else Inr tc)"

definition predicate_guard :: "client_context \<Rightarrow> SalesforceScanBindData \<Rightarrow> transport_choice \<Rightarrow> unit result" where
  "predicate_guard C b tc =
     (if tc_effective tc = ''bulk'' \<and> combined_where b = [] \<and> SettingBool C ''sf_bulk_require_predicate'' False
      then Inl (BinderException
        (''Bulk read on '' @ [SQ] @ b_object b @ [SQ] @ '' has no pushed predicate (full-object extraction). ''
         @ ''sf_bulk_require_predicate is on: add a server-filterable WHERE '' @ emdash @ '' e.g. a ''
         @ ''CreatedDate/SystemModstamp range '' @ emdash @ '' or disable the guard to proceed.''))
      else Inr ())"

section \<open>Initialisation\<close>

definition projection_item :: "SalesforceField \<Rightarrow> DiagExplainItem" where
  "projection_item f =
     (if f_is_relationship f
      then empty_item \<lparr> it_role := ''relationship'', it_field := f_relationship_name f, it_field_known := True,
                        it_relationship_name := f_relationship_name f, it_reference_to := f_reference_to f \<rparr>
      else empty_item \<lparr> it_role := ''projection'', it_field := f_name f, it_field_known := True, it_pushed := True \<rparr>)"

definition bulk_chunk_count :: "client_context \<Rightarrow> SalesforceScanBindData \<Rightarrow> int" where
  "bulk_chunk_count C b =
     (let c = (if bulk_chunks (b_config b) > 0 then bulk_chunks (b_config b) else SettingInt C ''sf_bulk_chunks'' 1);
          c1 = (if c < 1 then 1 else c)
      in if c1 > 8 then 8 else c1)"

definition bulk_wheres :: "client_context \<Rightarrow> SalesforceScanBindData \<Rightarrow> (string \<times> string) option \<Rightarrow> string list" where
  "bulk_wheres C b mm =
     (let ws = (case mm of
                  Some (mn, mx) \<Rightarrow> BuildIdRangeWheres (b_pushed_where b) mn mx (nat (bulk_chunk_count C b))
                | None \<Rightarrow> [])
      in if ws = [] then [b_pushed_where b] else ws)"

definition init_bulk ::
  "client_context \<Rightarrow> 'c external \<Rightarrow> SalesforceScanBindData \<Rightarrow> string list \<Rightarrow> ScanGlobalState \<Rightarrow> ('c, ScanGlobalState) sess" where
  "init_bulk C X b sel g =
     bnd (globals_do ResetBulkCreateBodies) (\<lambda>_.
     bnd (if bulk_chunk_count C b > 1 then TryMinMaxId X (b_object b) (b_pushed_where b) else ret None) (\<lambda>mm.
     let soqls = map (\<lambda>w. BuildSelectSoql (b_object b) sel w None) (bulk_wheres C b mm)
     in bnd (globals_do (DiagSetBulkChunks (int (length soqls)))) (\<lambda>_.
        ret (g \<lparr> gs_bulk := True, gs_bulk_chunk_soqls := soqls, gs_max_threads := length soqls \<rparr>))))"

definition count_pushdown ::
  "'c external \<Rightarrow> SalesforceScanBindData \<Rightarrow> bool \<Rightarrow> transport_choice \<Rightarrow> ('c, int option) sess" where
  "count_pushdown X b aggregate_only tc =
     (if aggregate_only \<and> b_residual_filter_count b = 0 \<and> tc_effective tc \<noteq> ''bulk'' then
        bnd (TryEstimateCount X (count_soql_of b)) (\<lambda>est.
        case est of
          None \<Rightarrow> ret None
        | Some n \<Rightarrow> bnd (globals_do (SetLastSoql (count_soql_of b))) (\<lambda>_.
                    bnd (globals_do (SetLastScanPages 0)) (\<lambda>_. ret (Some n))))
      else ret None)"

definition record_scan ::
  "SalesforceScanBindData \<Rightarrow> nat list \<Rightarrow> string list \<Rightarrow> transport_choice \<Rightarrow> string \<Rightarrow> bool \<Rightarrow> bool \<Rightarrow> ('c, unit) sess" where
  "record_scan b column_ids sel tc reported_soql count_only qall =
     bnd (globals_do (DiagRecordScan (b_object b) reported_soql (tc_effective tc) (tc_est_rows tc) (tc_reason tc)
            (int (length sel)) (int (length (b_fields b))) (b_pushed_filter_count b) (b_residual_filter_count b)
            (combined_where b) (tc_effective tc = ''bulk'') 0 count_only (mode_text qall))) (\<lambda>_.
     globals_do (DiagSetExplain (b_catalog_alias b)
       (map projection_item (projected_fields (b_fields b) column_ids) @ b_explain_filters b)))"

definition init_rows ::
  "client_context \<Rightarrow> 'c external \<Rightarrow> SalesforceScanBindData \<Rightarrow> nat list \<Rightarrow> string \<Rightarrow> ScanGlobalState \<Rightarrow>
   ('c, ScanGlobalState) sess" where
  "init_rows C X b column_ids tr g =
     (let sel = select_fields_of (b_fields b) column_ids;
          soql = BuildSelectSoql (b_object b) sel (combined_where b) None;
          aggregate_only = list_all (\<lambda>c. c \<ge> length (b_fields b)) column_ids;
          base64_field = FindProjectedBase64 (x_su X) (projected_fields (b_fields b) column_ids) []
      in bnd (choose_transport C X b tr aggregate_only) (\<lambda>tc0.
         bnd (of_result (base64_guard tr base64_field tc0)) (\<lambda>tc.
         bnd (globals_do (SetLastTransport (tc_effective tc) (tc_est_rows tc) (tc_reason tc))) (\<lambda>_.
         bnd (of_result (predicate_guard C b tc)) (\<lambda>_.
         bnd (count_pushdown X b aggregate_only tc) (\<lambda>cnt.
         bnd (record_scan b column_ids sel tc (if cnt = None then soql else count_soql_of b) (cnt \<noteq> None) (gs_query_all g)) (\<lambda>_.
         case cnt of
           Some n \<Rightarrow> ret (g \<lparr> gs_count_only := True, gs_count_total := n \<rparr>)
         | None \<Rightarrow>
             if tc_effective tc = ''bulk'' then init_bulk C X b sel g
             else bnd (gets (\<lambda>s. QueryPath (w_session s) soql)) (\<lambda>p. ret (g \<lparr> gs_next_path := p \<rparr>)))))))))"

definition scan_session :: "SalesforceScanBindData \<Rightarrow> bool \<Rightarrow> int \<Rightarrow> SalesforceSession" where
  "scan_session b qall budget =
     SetBulkPollBudget budget (SetQueryAll qall (SetToken (b_token b) (new_session (b_config b))))"

definition ScanInitGlobal ::
  "client_context \<Rightarrow> 'c external \<Rightarrow> SalesforceScanBindData \<Rightarrow> nat list \<Rightarrow> ('c, ScanGlobalState) sess" where
  "ScanInitGlobal C X b column_ids =
     (let D = x_su X;
          soql = BuildSelectSoql (b_object b) (select_fields_of (b_fields b) column_ids) (combined_where b) None
      in bnd (globals_do (SetLastSoql soql)) (\<lambda>_.
         bnd (of_result (scan_transport D C b)) (\<lambda>tr.
         bnd (of_result (scan_query_mode D C b)) (\<lambda>qm.
         let qall = (qm = ''queryall''); budget = poll_budget_setting C;
             g = (new_gstate column_ids) \<lparr> gs_combined_where := combined_where b, gs_query_all := qall,
                                           gs_bulk_poll_budget := budget \<rparr>
         in bnd (session_do (\<lambda>_. scan_session b qall budget)) (\<lambda>_.
            bnd (globals_do (SetLastScanPages 0)) (\<lambda>_.
            if b_pushed_aggregates b \<noteq> [] then init_aggregate X b g
            else init_rows C X b column_ids tr g))))))"

section \<open>REST pages\<close>

definition kScanMaxPages :: nat where "kScanMaxPages = 1000000"

definition scan_too_many_pages :: sf_error where
  "scan_too_many_pages = IOException ''salesforce scan: exceeded the maximum page count (1000000).''"

definition scan_page_loop :: sf_error where
  "scan_page_loop = IOException ''salesforce scan: pagination loop detected (nextRecordsUrl repeated).''"

function ScanAdvancePage :: "'c external \<Rightarrow> ScanGlobalState \<Rightarrow> ('c, bool \<times> ScanGlobalState) sess" where
  "ScanAdvancePage X g =
     (if gs_done g then ret (False, g)
      else bnd (FetchPage X (gs_next_path g)) (\<lambda>pg.
        let n = gs_pages_fetched g + 1;
            g1 = g \<lparr> gs_pages_fetched := n, gs_page := pg_records pg, gs_cursor := 0 \<rparr> in
        bnd (globals_do (\<lambda>d. DiagSetPages (int n) (SetLastScanPages (int n) d))) (\<lambda>_.
        if pg_done pg \<or> pg_next_path pg = []
        then ret (gs_page g1 \<noteq> [], g1 \<lparr> gs_done := True \<rparr>)
        else if n \<ge> kScanMaxPages then throw scan_too_many_pages
        else if pg_next_path pg \<in> set (gs_seen g) then throw scan_page_loop
        else let g2 = g1 \<lparr> gs_seen := pg_next_path pg # gs_seen g, gs_next_path := pg_next_path pg \<rparr> in
          if pg_records pg \<noteq> [] then ret (True, g2) else ScanAdvancePage X g2)))"
  by auto
termination
  by (relation "measure (\<lambda>(X, g). kScanMaxPages - gs_pages_fetched g)") auto

declare ScanAdvancePage.simps [simp del]

section \<open>Bulk pages\<close>

definition kBulkMaxPages :: nat where "kBulkMaxPages = 1000000"

definition bulk_too_many_pages :: sf_error where
  "bulk_too_many_pages = IOException ''salesforce bulk: exceeded the maximum result page count.''"

definition bulk_page_loop :: sf_error where
  "bulk_page_loop = IOException ''salesforce bulk: result pagination loop (locator repeated).''"

text \<open>
  The page counter of the global state is passed and returned; the local state holds the chunk.
\<close>

function BulkAdvancePage :: "'c external \<Rightarrow> nat \<Rightarrow> ScanLocalState \<Rightarrow> ('c, bool \<times> nat \<times> ScanLocalState) sess" where
  "BulkAdvancePage X pages l =
     (if ls_chunk_done l then ret (False, pages, l)
      else bnd (BulkFetchResultPage X
                  (if ls_started l then ls_results_base l @ ''?locator='' @ ls_next_locator l else ls_results_base l)) (\<lambda>pg.
        let n = pages + 1;
            l1 = l \<lparr> ls_started := True,
                     ls_columns := (if ls_columns l = [] \<and> bp_columns pg \<noteq> [] then bp_columns pg else ls_columns l),
                     ls_page := bp_rows pg, ls_cursor := 0 \<rparr> in
        bnd (globals_do (\<lambda>d. DiagSetPages (int n) (SetLastScanPages (int n) d))) (\<lambda>_.
        if bp_next_locator pg = []
        then ret (bp_rows pg \<noteq> [], n, l1 \<lparr> ls_chunk_done := True \<rparr>)
        else if n \<ge> kBulkMaxPages then throw bulk_too_many_pages
        else if bp_next_locator pg \<in> set (ls_seen l) then throw bulk_page_loop
        else let l2 = l1 \<lparr> ls_seen := bp_next_locator pg # ls_seen l, ls_next_locator := bp_next_locator pg \<rparr> in
          if bp_rows pg \<noteq> [] then ret (True, n, l2) else BulkAdvancePage X n l2)))"
  by auto
termination
  by (relation "measure (\<lambda>(X, pages, l). kBulkMaxPages - pages)") auto

declare BulkAdvancePage.simps [simp del]

text \<open>Start a job for one chunk; the quota guard is asked before each.\<close>

definition start_chunk :: "client_context \<Rightarrow> 'c external \<Rightarrow> string \<Rightarrow> ('c, string) sess" where
  "start_chunk C X soql =
     bnd (gets (\<lambda>s. instance_url (s_token (w_session s)))) (\<lambda>url.
     bnd (QuotaGuardBulkStart C X url) (\<lambda>_. BulkStartJob X soql))"

function next_bulk_page ::
  "client_context \<Rightarrow> 'c external \<Rightarrow> ScanGlobalState \<Rightarrow> ScanLocalState \<Rightarrow> ('c, bool \<times> ScanGlobalState \<times> ScanLocalState) sess" where
  "next_bulk_page C X g l =
     (if ls_has_chunk l then
        bnd (BulkAdvancePage X (gs_total_bulk_pages g) l) (\<lambda>r.
        case r of (got, n, l') \<Rightarrow>
          if got then ret (True, g \<lparr> gs_total_bulk_pages := n \<rparr>, l')
          else next_bulk_page C X (g \<lparr> gs_total_bulk_pages := n \<rparr>) (l' \<lparr> ls_has_chunk := False \<rparr>))
      else let idx = gs_next_chunk g; g1 = g \<lparr> gs_next_chunk := idx + 1 \<rparr> in
        if idx \<ge> length (gs_bulk_chunk_soqls g) then ret (False, g1, l)
        else bnd (start_chunk C X (gs_bulk_chunk_soqls g ! idx)) (\<lambda>base.
          next_bulk_page C X g1 (l \<lparr> ls_results_base := base, ls_started := False, ls_chunk_done := False,
            ls_next_locator := [], ls_seen := [], ls_has_chunk := True \<rparr>)))"
  by auto
termination
  by (relation "measure (\<lambda>(C, X, g, l). 2 * (length (gs_bulk_chunk_soqls g) - gs_next_chunk g) + (if ls_has_chunk l then 1 else 0))")
    auto

declare next_bulk_page.simps [simp del]

section \<open>Rows\<close>

fun index_where :: "('a \<Rightarrow> bool) \<Rightarrow> 'a list \<Rightarrow> nat option" where
  "index_where p [] = None"
| "index_where p (x # xs) = (if p x then Some 0 else map_option Suc (index_where p xs))"

definition csv_column :: "string_util \<Rightarrow> string list \<Rightarrow> string \<Rightarrow> nat option" where
  "csv_column D columns header = index_where (\<lambda>c. su_CIEquals D c header) columns"

definition cell_at :: "string list \<Rightarrow> nat option \<Rightarrow> string" where
  "cell_at cells ci = (case ci of None \<Rightarrow> [] | Some i \<Rightarrow> if i < length cells then cells ! i else [])"

text \<open>
  A parent struct from the columns \<^verbatim>\<open>path.child\<close>; the flag says whether any descendant has a cell.
\<close>

fun AppendBulkStruct ::
    "string_util \<Rightarrow> duck_types \<Rightarrow> string list \<Rightarrow> string list \<Rightarrow> string \<Rightarrow> SalesforceField list \<Rightarrow> (bool \<times> cell list) result" where
  "AppendBulkStruct D K cells columns path [] = Inr (False, [])"
| "AppendBulkStruct D K cells columns path
     (SalesforceField nm st ty nil len prc scl flt srt unk rel refs pick is_rel children # fs) =
     rbind
       (if is_rel then
          rbind (AppendBulkStruct D K cells columns (path @ ''.'' @ nm) children)
            (\<lambda>(has, cs). Inr (has, if has then CStruct cs else CNull))
        else let raw = cell_at cells (csv_column D columns (path @ ''.'' @ nm)) in
          if raw = [] then Inr (False, CNull)
          else rbind (AppendTypedCell K (SalesforceField nm st ty nil len prc scl flt srt unk rel refs pick is_rel children) raw)
            (\<lambda>c. Inr (True, c)))
       (\<lambda>(has, c). rbind (AppendBulkStruct D K cells columns path fs)
         (\<lambda>(rest, cs). Inr (has \<or> rest, c # cs)))"

definition bulk_cell ::
  "string_util \<Rightarrow> duck_types \<Rightarrow> SalesforceScanBindData \<Rightarrow> ScanLocalState \<Rightarrow> string list \<Rightarrow> nat \<Rightarrow> cell result" where
  "bulk_cell D K b l cells col =
     (if col \<ge> length (b_fields b) then Inr CNull
      else let f = b_fields b ! col in
        if f_is_relationship f then
          rbind (AppendBulkStruct D K cells (ls_columns l) (f_relationship_name f) (f_children f))
            (\<lambda>(has, cs). Inr (if has then CStruct cs else CNull))
        else let raw = cell_at cells (ls_field_to_csv l ! col) in
          if raw = [] then Inr CNull else AppendTypedCell K f raw)"

definition rest_cell :: "duck_types \<Rightarrow> SalesforceScanBindData \<Rightarrow> string \<Rightarrow> nat \<Rightarrow> cell result" where
  "rest_cell K b record_json col =
     (if col \<ge> length (b_fields b) then Inr CNull else AppendJsonValue K (b_fields b ! col) record_json)"

definition header_map :: "string_util \<Rightarrow> SalesforceScanBindData \<Rightarrow> ScanLocalState \<Rightarrow> ScanLocalState" where
  "header_map D b l =
     (if ls_field_to_csv l = [] \<and> ls_columns l \<noteq> []
      then l \<lparr> ls_field_to_csv := map (\<lambda>f. index_where (\<lambda>c. su_CIEquals D (f_name f) c) (ls_columns l)) (b_fields b) \<rparr>
      else l)"

section \<open>The table function\<close>

type_synonym scan_state = "ScanGlobalState \<times> ScanLocalState"

definition rows_emitted :: "nat \<Rightarrow> ('c, unit) sess" where
  "rows_emitted n = globals_do (DiagAddRowsEmitted (int n))"

definition scan_aggregate :: "duck_types \<Rightarrow> nat \<Rightarrow> ScanGlobalState \<Rightarrow> ('c, cell list list \<times> ScanGlobalState) sess" where
  "scan_aggregate K vector_size g =
     (if gs_agg_sent g then ret ([], g)
      else bnd (of_result (row_cells (\<lambda>f. AppendJsonValue K f (gs_agg_record g)) (take vector_size (gs_agg_emit_fields g)))) (\<lambda>row.
           bnd (rows_emitted 1) (\<lambda>_. ret ([row], g \<lparr> gs_agg_sent := True \<rparr>))))"

definition scan_count :: "nat \<Rightarrow> ScanGlobalState \<Rightarrow> ('c, cell list list \<times> ScanGlobalState) sess" where
  "scan_count vector_size g =
     (let row = min vector_size (nat (gs_count_total g - gs_count_cursor g)) in
      bnd (rows_emitted row) (\<lambda>_.
      ret (replicate row (replicate (length (gs_column_ids g)) CNull), g \<lparr> gs_count_cursor := gs_count_cursor g + int row \<rparr>)))"

definition scan_rest ::
  "'c external \<Rightarrow> duck_types \<Rightarrow> nat \<Rightarrow> SalesforceScanBindData \<Rightarrow> ScanGlobalState \<Rightarrow> ('c, cell list list \<times> ScanGlobalState) sess" where
  "scan_rest X K vector_size b g =
     bnd (if gs_cursor g \<ge> length (gs_page g) then ScanAdvancePage X g else ret (True, g)) (\<lambda>r.
     case r of (got, g1) \<Rightarrow>
       if \<not> got then ret ([], g1)
       else let now = take vector_size (drop (gs_cursor g1) (gs_page g1)) in
         bnd (of_result (chunk_rows (\<lambda>rec. row_cells (rest_cell K b rec) (gs_column_ids g1)) now)) (\<lambda>rows.
         bnd (rows_emitted (length now)) (\<lambda>_.
         ret (rows, g1 \<lparr> gs_cursor := gs_cursor g1 + length now \<rparr>))))"

text \<open>The Bulk path runs on the session of the calling thread, built on its first call.\<close>

definition local_session :: "SalesforceScanBindData \<Rightarrow> ScanGlobalState \<Rightarrow> ScanLocalState \<Rightarrow> SalesforceSession" where
  "local_session b g l =
     (case ls_session l of Some ss \<Rightarrow> ss | None \<Rightarrow> scan_session b (gs_query_all g) (gs_bulk_poll_budget g))"

definition on_session :: "SalesforceSession \<Rightarrow> ('c, 'a) sess \<Rightarrow> ('c, 'a \<times> SalesforceSession) sess" where
  "on_session ss m =
     (\<lambda>s. case m (s \<lparr> w_session := ss \<rparr>) of
            (Inl e, s') \<Rightarrow> (Inl e, s' \<lparr> w_session := w_session s \<rparr>)
          | (Inr a, s') \<Rightarrow> (Inr (a, w_session s'), s' \<lparr> w_session := w_session s \<rparr>))"

definition bulk_rows ::
  "client_context \<Rightarrow> 'c external \<Rightarrow> duck_types \<Rightarrow> nat \<Rightarrow> SalesforceScanBindData \<Rightarrow> scan_state \<Rightarrow>
   ('c, cell list list \<times> scan_state) sess" where
  "bulk_rows C X K vector_size b gl =
     (case gl of (g, l) \<Rightarrow>
      bnd (if ls_cursor l \<ge> length (ls_page l)
           then bnd (next_bulk_page C X g l) (\<lambda>r. case r of (got, g1, l1) \<Rightarrow>
                  ret (got, g1, if got then header_map (x_su X) b l1 else l1))
           else ret (True, g, l)) (\<lambda>r.
      case r of (got, g1, l1) \<Rightarrow>
        if \<not> got then ret ([], g1, l1)
        else let now = take vector_size (drop (ls_cursor l1) (ls_page l1)) in
          bnd (of_result (chunk_rows (\<lambda>cells. row_cells (bulk_cell (x_su X) K b l1 cells) (gs_column_ids g1)) now)) (\<lambda>rows.
          bnd (rows_emitted (length now)) (\<lambda>_.
          ret (rows, g1, l1 \<lparr> ls_cursor := ls_cursor l1 + length now \<rparr>)))))"

definition scan_bulk ::
  "client_context \<Rightarrow> 'c external \<Rightarrow> duck_types \<Rightarrow> nat \<Rightarrow> SalesforceScanBindData \<Rightarrow> scan_state \<Rightarrow>
   ('c, cell list list \<times> scan_state) sess" where
  "scan_bulk C X K vector_size b gl =
     bnd (on_session (local_session b (fst gl) (snd gl)) (bulk_rows C X K vector_size b gl)) (\<lambda>r.
     case r of ((rows, g1, l1), ss) \<Rightarrow> ret (rows, g1, l1 \<lparr> ls_session := Some ss \<rparr>))"

definition ScanFunction ::
  "client_context \<Rightarrow> 'c external \<Rightarrow> duck_types \<Rightarrow> nat \<Rightarrow> SalesforceScanBindData \<Rightarrow> scan_state \<Rightarrow>
   ('c, cell list list \<times> scan_state) sess" where
  "ScanFunction C X K vector_size b gl =
     (case gl of (g, l) \<Rightarrow>
      if gs_bulk g \<and> \<not> gs_agg_only g \<and> \<not> gs_count_only g then scan_bulk C X K vector_size b (g, l)
      else bnd (if gs_agg_only g then scan_aggregate K vector_size g
                else if gs_count_only g then scan_count vector_size g
                else scan_rest X K vector_size b g) (\<lambda>r.
        case r of (rows, g1) \<Rightarrow> ret (rows, g1, l)))"

end
