(* ===== verification/SF_Run.thy ===== *)
theory SF_Run
  imports SF_Scan
begin

text \<open>
  Runs of the catalog scan: the table function of \<^verbatim>\<open>salesforce_scan.cpp\<close> pulled until it
  returns no row, from the states its initialisation returns.

  Shown: the lazy REST scan delivers what the eager query returns; a pushed-down count emits the
  counted rows; no request is sent while rows are buffered; when the Bulk path is taken; and that
  the raw user filter does not reach the Bulk and aggregate paths.
\<close>

section \<open>A complete run of the table function\<close>

text \<open>DuckDB calls the table function until it returns no row.\<close>

inductive scan_run ::
  "client_context \<Rightarrow> 'c external \<Rightarrow> duck_types \<Rightarrow> nat \<Rightarrow> SalesforceScanBindData \<Rightarrow>
   scan_state \<Rightarrow> 'c sworld \<Rightarrow> cell list list \<Rightarrow> scan_state \<Rightarrow> 'c sworld \<Rightarrow> bool"
  for C X K vector_size b where
  run_end: "ScanFunction C X K vector_size b gl s = (Inr ([], gl'), s') \<Longrightarrow>
    scan_run C X K vector_size b gl s [] gl' s'"
| run_chunk: "ScanFunction C X K vector_size b gl s = (Inr (rows, gl'), s') \<Longrightarrow> rows \<noteq> [] \<Longrightarrow>
    scan_run C X K vector_size b gl' s' rest gl'' s'' \<Longrightarrow>
    scan_run C X K vector_size b gl s (rows @ rest) gl'' s''"

text \<open>A run is determined by where it starts.\<close>

lemma scan_run_deterministic:
  assumes "scan_run C X K n b gl s rows gl1 s1" and "scan_run C X K n b gl s rows' gl2 s2"
  shows "rows = rows' \<and> gl1 = gl2 \<and> s1 = s2"
  using assms
proof (induction arbitrary: rows' gl2 s2 rule: scan_run.induct)
  case (run_end gl s gl' s')
  from run_end(2) run_end(1) show ?case by (cases rule: scan_run.cases) simp_all
next
  case (run_chunk gl s rows gl' s' rest gl'' s'')
  from run_chunk.prems run_chunk.hyps(1,2) show ?case
    by (cases rule: scan_run.cases) (auto dest: run_chunk.IH)
qed

section \<open>The lazy scan and the chain of pages\<close>

text \<open>A state of a REST scan: none of the other paths applies.\<close>

definition rest_path :: "ScanGlobalState \<Rightarrow> bool" where
  "rest_path g \<longleftrightarrow> \<not> gs_agg_only g \<and> \<not> gs_count_only g \<and> \<not> gs_bulk g"

text \<open>What a REST scan in state \<open>g\<close> has still to deliver, and the pages it will have fetched.\<close>

definition records_left :: "(string \<Rightarrow> SalesforceQueryPage) \<Rightarrow> ScanGlobalState \<Rightarrow> string list \<Rightarrow> nat \<Rightarrow> bool" where
  "records_left P g recs n \<longleftrightarrow>
     (if gs_done g then recs = drop (gs_cursor g) (gs_page g) \<and> n = gs_pages_fetched g
      else \<exists>cs pages. chain P (gs_next_path g) cs pages \<and> distinct cs \<and> set cs \<inter> set (gs_seen g) = {} \<and>
        gs_pages_fetched g + length pages \<le> kScanMaxPages \<and>
        recs = drop (gs_cursor g) (gs_page g) @ concat pages \<and> n = gs_pages_fetched g + length pages)"

lemma records_left_advance:
  assumes "records_left P g recs n" and "drop (gs_cursor g) (gs_page g) = now @ rest"
  shows "\<exists>later. recs = now @ later \<and> records_left P (g \<lparr> gs_cursor := gs_cursor g + length now \<rparr>) later n"
proof -
  have r: "drop (gs_cursor g + length now) (gs_page g) = rest"
    using assms(2) by (metis add.commute append_eq_conv_conj drop_drop)
  show ?thesis
  proof (cases "gs_done g")
    case True
    with assms r show ?thesis by (auto simp: records_left_def)
  next
    case False
    with assms(1) obtain cs pages where "chain P (gs_next_path g) cs pages" "distinct cs" "set cs \<inter> set (gs_seen g) = {}"
      "gs_pages_fetched g + length pages \<le> kScanMaxPages" "recs = drop (gs_cursor g) (gs_page g) @ concat pages"
      "n = gs_pages_fetched g + length pages" by (auto simp: records_left_def)
    with False assms(2) r show ?thesis by (intro exI [of _ "rest @ concat pages"]) (auto simp: records_left_def)
  qed
qed

context page_source
begin

lemma ScanAdvancePage_chain:
  assumes "chain P p cs pages" and "gs_next_path g = p" and "I s" and "distinct cs" and "set cs \<inter> set (gs_seen g) = {}"
    and "gs_pages_fetched g + length pages \<le> kScanMaxPages" and "\<not> gs_done g" and "rest_path g"
  shows "\<exists>g' s'. ScanAdvancePage X g s = (Inr (concat pages \<noteq> [], g'), s') \<and> I s' \<and> rest_path g' \<and>
    gs_column_ids g' = gs_column_ids g \<and> records_left P g' (concat pages) (gs_pages_fetched g + length pages) \<and>
    gs_cursor g' = 0 \<and> (gs_page g' = [] \<longleftrightarrow> concat pages = []) \<and> (concat pages = [] \<longrightarrow> gs_done g')"
  using assms
proof (induction arbitrary: s g rule: chain.induct)
  case (last_page p)
  obtain s' where s': "FetchPage X p s = (Inr (P p), s')" "I s'" using serves [OF last_page(3)] by blast
  show ?case
    using last_page s'(1) diagnostics [OF s'(2)]
    by (subst ScanAdvancePage.simps)
      (auto simp: sfm_simps Let_def is_last_def records_left_def rest_path_def)
next
  case (next_page p cs pages)
  let ?q = "pg_next_path (P p)" and ?n = "gs_pages_fetched g + 1"
  obtain s1 where s1: "FetchPage X p s = (Inr (P p), s1)" "I s1" using serves [OF next_page.prems(2)] by blast
  let ?s = "s1 \<lparr> w_globals := DiagSetPages (int ?n) (SetLastScanPages (int ?n) (w_globals s1)) \<rparr>"
  let ?g = "g \<lparr> gs_pages_fetched := ?n, gs_page := pg_records (P p), gs_cursor := 0, gs_seen := ?q # gs_seen g,
    gs_next_path := ?q \<rparr>"
  have len: "1 \<le> length pages" using chain_length [OF next_page.hyps(2)] by simp
  have s: "I ?s" by (rule diagnostics [OF s1(2)])
  have step: "ScanAdvancePage X g s =
      (if pg_records (P p) \<noteq> [] then (Inr (True, ?g), ?s) else ScanAdvancePage X ?g ?s)"
    using next_page.hyps(1) next_page.prems len s1(1)
    by (subst ScanAdvancePage.simps) (auto simp: sfm_simps Let_def is_last_def)
  have left: "chain P ?q cs pages" "distinct cs" "set cs \<inter> set (gs_seen ?g) = {}"
    "gs_pages_fetched ?g + length pages \<le> kScanMaxPages" "\<not> gs_done ?g" "rest_path ?g"
    using next_page.hyps(2) next_page.prems by (auto simp: rest_path_def)
  show ?case
  proof (cases "pg_records (P p) = []")
    case False
    have "records_left P ?g (pg_records (P p) @ concat pages) (gs_pages_fetched g + length (pg_records (P p) # pages))"
      using left by (auto simp: records_left_def)
    with False s left(6) show ?thesis unfolding step by auto
  next
    case True
    from next_page.IH [OF _ s left(2-6)] obtain g' s' where
      "ScanAdvancePage X ?g ?s = (Inr (concat pages \<noteq> [], g'), s')" "I s'" "rest_path g'"
      "gs_column_ids g' = gs_column_ids g" "records_left P g' (concat pages) (?n + length pages)"
      "gs_cursor g' = 0" "gs_page g' = [] \<longleftrightarrow> concat pages = []" "concat pages = [] \<longrightarrow> gs_done g'" by auto
    with True show ?thesis unfolding step by auto
  qed
qed

lemma ScanAdvancePage_left:
  assumes "records_left P g recs n" and "length (gs_page g) \<le> gs_cursor g" and "I s" and "rest_path g"
  shows "\<exists>g' s'. ScanAdvancePage X g s = (Inr (recs \<noteq> [], g'), s') \<and> I s' \<and> rest_path g' \<and>
    gs_column_ids g' = gs_column_ids g \<and> records_left P g' recs n \<and> (if recs = [] then gs_done g' else gs_cursor g' < length (gs_page g'))"
proof (cases "gs_done g")
  case True
  with assms show ?thesis by (subst ScanAdvancePage.simps) (auto simp: records_left_def sfm_simps)
next
  case False
  with assms obtain cs pages where c: "chain P (gs_next_path g) cs pages" "distinct cs" "set cs \<inter> set (gs_seen g) = {}"
    "gs_pages_fetched g + length pages \<le> kScanMaxPages" "recs = concat pages" "n = gs_pages_fetched g + length pages"
    by (auto simp: records_left_def)
  from ScanAdvancePage_chain [OF c(1) refl assms(3) c(2-4) False assms(4)] obtain g' s' where
    "ScanAdvancePage X g s = (Inr (recs \<noteq> [], g'), s')" "I s'" "rest_path g'" "gs_column_ids g' = gs_column_ids g"
    "records_left P g' recs n" "gs_cursor g' = 0" "gs_page g' = [] \<longleftrightarrow> recs = []" "recs = [] \<longrightarrow> gs_done g'"
    unfolding c(5,6) by blast
  then show ?thesis by (intro exI [of _ g'] exI [of _ s']) auto
qed

lemma scan_rest_step:
  assumes "records_left P g recs n" and "I s" and "rest_path g" and "0 < vs"
    and "chunk_rows (\<lambda>r. row_cells (rest_cell K b r) (gs_column_ids g)) recs = Inr rows"
  shows "\<exists>now later later_recs g' s'. ScanFunction C X K vs b (g, l) s = (Inr (now, g', l), s') \<and> I s' \<and> rest_path g' \<and>
    gs_column_ids g' = gs_column_ids g \<and> rows = now @ later \<and> (now = [] \<longleftrightarrow> recs = []) \<and> (recs = [] \<longrightarrow> gs_done g') \<and>
    records_left P g' later_recs n \<and> length later_recs + length now = length recs \<and>
    chunk_rows (\<lambda>r. row_cells (rest_cell K b r) (gs_column_ids g)) later_recs = Inr later"
proof -
  let ?row = "\<lambda>r. row_cells (rest_cell K b r) (gs_column_ids g)"
  obtain g1 s1 where adv: "(if gs_cursor g \<ge> length (gs_page g) then ScanAdvancePage X g else ret (True, g)) s =
      (Inr (recs \<noteq> [], g1), s1)" "I s1" "rest_path g1" "gs_column_ids g1 = gs_column_ids g"
      "records_left P g1 recs n" "if recs = [] then gs_done g1 else gs_cursor g1 < length (gs_page g1)"
  proof (cases "gs_cursor g \<ge> length (gs_page g)")
    case True
    with ScanAdvancePage_left [OF assms(1) True assms(2,3)] that show ?thesis by auto
  next
    case False
    then have "recs \<noteq> []" using assms(1) by (auto simp: records_left_def split: if_splits)
    with False assms that [of g s] show ?thesis by (auto simp: sfm_simps)
  qed
  have f: "ScanFunction C X K vs b (g, l) s =
      bnd (scan_rest X K vs b g) (\<lambda>r. case r of (rows, g1) \<Rightarrow> ret (rows, g1, l)) s"
    using assms(3) by (simp add: ScanFunction_def rest_path_def)
  show ?thesis
  proof (cases "recs = []")
    case True
    then have "ScanFunction C X K vs b (g, l) s = (Inr ([], g1, l), s1)"
      unfolding f scan_rest_def bnd_run adv(1) by (simp add: sfm_simps)
    with True adv assms(5) show ?thesis by (intro exI [of _ "[]"] exI [of _ g1] exI [of _ s1]) auto
  next
    case False
    let ?now = "take vs (drop (gs_cursor g1) (gs_page g1))"
    let ?g = "g1 \<lparr> gs_cursor := gs_cursor g1 + length ?now \<rparr>"
    let ?s = "s1 \<lparr> w_globals := DiagAddRowsEmitted (int (length ?now)) (w_globals s1) \<rparr>"
    have lt: "gs_cursor g1 < length (gs_page g1)" using adv(6) False by simp
    have nn: "?now \<noteq> []" using lt assms(4) by simp
    obtain later_recs where lr: "recs = ?now @ later_recs" "records_left P ?g later_recs n"
      using records_left_advance [OF adv(5), of ?now "drop vs (drop (gs_cursor g1) (gs_page g1))"]
      by (metis append_take_drop_id)
    obtain now later where r: "chunk_rows ?row ?now = Inr now" "chunk_rows ?row later_recs = Inr later" "rows = now @ later"
      using assms(5) unfolding lr(1) chunk_rows_append by (auto simp: rbind_def split: sum.splits)
    have ln: "length now = length ?now" by (rule chunk_rows_length [OF r(1)])
    have "ScanFunction C X K vs b (g, l) s = (Inr (now, ?g, l), ?s)"
      unfolding f scan_rest_def bnd_run adv(1) using False adv(4) r(1)
      by (simp add: sfm_simps rows_emitted_def Let_def)
    moreover have "I ?s" by (rule diagnostics [OF adv(2)])
    moreover have "rest_path ?g" using adv(3) by (simp add: rest_path_def)
    moreover have "now \<noteq> []" using nn ln by auto
    moreover have "length later_recs + length now = length recs" using lr(1) ln by (metis length_append add.commute)
    ultimately show ?thesis using lr(2) r(2,3) adv(4) False
      by (intro exI [of _ now] exI [of _ later] exI [of _ later_recs] exI [of _ ?g] exI [of _ ?s]) simp
  qed
qed

lemma scan_run_rest:
  assumes "records_left P g recs n" and "I s" and "rest_path g" and "0 < vs"
    and "chunk_rows (\<lambda>r. row_cells (rest_cell K b r) (gs_column_ids g)) recs = Inr rows"
  shows "\<exists>g' s'. scan_run C X K vs b (g, l) s rows (g', l) s' \<and> gs_pages_fetched g' = n \<and> gs_done g'"
  using assms
proof (induction "length recs" arbitrary: g recs s rows rule: less_induct)
  case less
  from scan_rest_step [OF less.prems, of C l] obtain now later later_recs g' s' where
    step: "ScanFunction C X K vs b (g, l) s = (Inr (now, g', l), s')" and
    inv: "I s'" "rest_path g'" "gs_column_ids g' = gs_column_ids g" "records_left P g' later_recs n" and
    rows: "rows = now @ later" "now = [] \<longleftrightarrow> recs = []" "recs = [] \<longrightarrow> gs_done g'"
      "length later_recs + length now = length recs"
      "chunk_rows (\<lambda>r. row_cells (rest_cell K b r) (gs_column_ids g)) later_recs = Inr later" by blast
  show ?case
  proof (cases "recs = []")
    case True
    then have "rows = []" "now = []" "gs_done g'" "gs_pages_fetched g' = n"
      using less.prems(5) rows inv(4) by (auto simp: records_left_def)
    with step show ?thesis by (intro exI [of _ g'] exI [of _ s']) (auto intro: run_end)
  next
    case False
    then have "length later_recs < length recs" using rows(2,4) by (cases now) auto
    from less.hyps [OF this inv(4,1,2) less.prems(4)] rows(5) inv(3) obtain g'' s'' where
      "scan_run C X K vs b (g', l) s' later (g'', l) s''" "gs_pages_fetched g'' = n" "gs_done g''" by auto
    with step False rows(1,2) show ?thesis by (auto intro: run_chunk)
  qed
qed

end

section \<open>What initialisation returns\<close>

lemma bnd_returns: "bnd m f s = (Inr v, s') \<longleftrightarrow> (\<exists>a s1. m s = (Inr a, s1) \<and> f a s1 = (Inr v, s'))"
  by (auto simp: bnd_run split: prod.splits sum.splits)

lemmas run_returns = bnd_returns sess_run sfm_run

text \<open>The state a scan starts from, for each of the four paths.\<close>

definition start_state :: "SalesforceScanBindData \<Rightarrow> nat list \<Rightarrow> bool \<Rightarrow> int \<Rightarrow> ScanGlobalState" where
  "start_state b column_ids qall budget = (new_gstate column_ids) \<lparr> gs_combined_where := combined_where b,
     gs_query_all := qall, gs_bulk_poll_budget := budget \<rparr>"

definition select_soql :: "SalesforceScanBindData \<Rightarrow> nat list \<Rightarrow> string" where
  "select_soql b column_ids = BuildSelectSoql (b_object b) (select_fields_of (b_fields b) column_ids) (combined_where b) None"

lemma ScanInitGlobal_parts:
  assumes "ScanInitGlobal C X b column_ids s = (Inr g, s')"
  obtains tr qm s1 where "scan_transport (x_su X) C b = Inr tr" "scan_query_mode (x_su X) C b = Inr qm"
    "(if b_pushed_aggregates b \<noteq> []
      then init_aggregate X b (start_state b column_ids (qm = ''queryall'') (poll_budget_setting C))
      else init_rows C X b column_ids tr (start_state b column_ids (qm = ''queryall'') (poll_budget_setting C))) s1 = (Inr g, s')"
    "w_session s1 = scan_session b (qm = ''queryall'') (poll_budget_setting C)" "w_outside s1 = w_outside s"
  using assms unfolding ScanInitGlobal_def Let_def start_state_def
  by (clarsimp simp: run_returns)

lemma init_rows_parts:
  assumes "init_rows C X b column_ids tr g0 s = (Inr g, s')"
  obtains tc0 tc cnt s0 s1 s2 s3 where
    "choose_transport C X b tr (list_all (\<lambda>c. c \<ge> length (b_fields b)) column_ids) s = (Inr tc0, s0)"
    "base64_guard tr (FindProjectedBase64 (x_su X) (projected_fields (b_fields b) column_ids) []) tc0 = Inr tc"
    "predicate_guard C b tc = Inr ()"
    "count_pushdown X b (list_all (\<lambda>c. c \<ge> length (b_fields b)) column_ids) tc s1 = (Inr cnt, s2)"
    "(case cnt of
        Some n \<Rightarrow> ret (g0 \<lparr> gs_count_only := True, gs_count_total := n \<rparr>)
      | None \<Rightarrow>
          if tc_effective tc = ''bulk'' then init_bulk C X b (select_fields_of (b_fields b) column_ids) g0
          else bnd (gets (\<lambda>s. QueryPath (w_session s) (select_soql b column_ids))) (\<lambda>p. ret (g0 \<lparr> gs_next_path := p \<rparr>))) s3
      = (Inr g, s')"
  using assms unfolding init_rows_def Let_def select_soql_def
  by (auto simp only: bnd_returns) (auto simp: sfm_run split: sum.splits)

lemma id_ranges_length: "length (id_ranges first bs) \<le> length bs - 1"
  by (induction first bs rule: id_ranges.induct) auto

lemma BuildIdRangeWheres_length: "1 \<le> n \<Longrightarrow> length (BuildIdRangeWheres pushed mn mx n) \<le> n"
  using id_ranges_length [of True "id_boundaries mn mx n"] by (simp add: BuildIdRangeWheres_def id_boundaries_def)

lemma bulk_chunk_count_range: "1 \<le> bulk_chunk_count C b \<and> bulk_chunk_count C b \<le> 8"
  by (auto simp: bulk_chunk_count_def Let_def)

text \<open>The SOQL of a Bulk job: the pushed predicate, alone or with a range of Ids.\<close>

definition chunk_soql :: "SalesforceScanBindData \<Rightarrow> string list \<Rightarrow> string \<Rightarrow> bool" where
  "chunk_soql b sel q \<longleftrightarrow>
     (\<exists>w. q = BuildSelectSoql (b_object b) sel w None \<and> (w = b_pushed_where b \<or> (\<exists>r. w = range_where (b_pushed_where b) r)))"

lemma bulk_wheres_shape: "w \<in> set (bulk_wheres C b mm) \<Longrightarrow> w = b_pushed_where b \<or> (\<exists>r. w = range_where (b_pushed_where b) r)"
  by (auto simp: bulk_wheres_def BuildIdRangeWheres_def Let_def split: option.splits if_splits)

lemma init_bulk_result:
  assumes "init_bulk C X b sel g0 s = (Inr g, s')"
  obtains soqls where "g = g0 \<lparr> gs_bulk := True, gs_bulk_chunk_soqls := soqls, gs_max_threads := length soqls \<rparr>"
    "1 \<le> length soqls" "length soqls \<le> 8" "list_all (chunk_soql b sel) soqls"
proof -
  from assms obtain mm where g: "g = g0 \<lparr> gs_bulk := True,
      gs_bulk_chunk_soqls := map (\<lambda>w. BuildSelectSoql (b_object b) sel w None) (bulk_wheres C b mm),
      gs_max_threads := length (bulk_wheres C b mm) \<rparr>"
    unfolding init_bulk_def bulk_wheres_def by (auto simp: run_returns Let_def)
  have "length (bulk_wheres C b mm) \<le> 8"
  proof -
    have n: "1 \<le> nat (bulk_chunk_count C b)" "nat (bulk_chunk_count C b) \<le> 8"
      using bulk_chunk_count_range [of C b] by auto
    show ?thesis
      using order_trans [OF BuildIdRangeWheres_length [OF n(1)] n(2)]
      by (auto simp: bulk_wheres_def Let_def split: option.splits)
  qed
  moreover have "bulk_wheres C b mm \<noteq> []" by (simp add: bulk_wheres_def Let_def)
  moreover have "chunk_soql b sel (BuildSelectSoql (b_object b) sel w None)" if "w \<in> set (bulk_wheres C b mm)" for w
    using bulk_wheres_shape [OF that] unfolding chunk_soql_def by blast
  then have "list_all (chunk_soql b sel) (map (\<lambda>w. BuildSelectSoql (b_object b) sel w None) (bulk_wheres C b mm))"
    by (simp add: list_all_iff)
  ultimately show thesis
    using that [of "map (\<lambda>w. BuildSelectSoql (b_object b) sel w None) (bulk_wheres C b mm)"] g
    by (simp add: Suc_le_eq)
qed

lemma init_rest_state:
  assumes "ScanInitGlobal C X b column_ids s = (Inr g, s')" and "rest_path g"
  obtains qall budget where
    "g = start_state b column_ids qall budget \<lparr> gs_next_path := QueryPath (w_session s') (select_soql b column_ids) \<rparr>"
proof -
  from assms(1) obtain tr qm s1 where i: "(if b_pushed_aggregates b \<noteq> []
      then init_aggregate X b (start_state b column_ids (qm = ''queryall'') (poll_budget_setting C))
      else init_rows C X b column_ids tr (start_state b column_ids (qm = ''queryall'') (poll_budget_setting C))) s1 = (Inr g, s')"
    by (rule ScanInitGlobal_parts)
  show thesis
  proof (cases "b_pushed_aggregates b = []")
    case False
    with i assms(2) show thesis
      unfolding init_aggregate_def by (auto simp: run_returns Let_def rest_path_def split: option.splits)
  next
    case True
    then have "init_rows C X b column_ids tr (start_state b column_ids (qm = ''queryall'') (poll_budget_setting C)) s1 = (Inr g, s')"
      using i by simp
    then show thesis
    proof (rule init_rows_parts, goal_cases)
      case (1 tc0 tc cnt s0 s1 s2 s3)
      from 1(5) assms(2) show thesis
        by (auto simp: run_returns rest_path_def that split: option.splits if_splits elim!: init_bulk_result)
    qed
  qed
qed

section \<open>Properties of the scan\<close>

lemma start_left:
  assumes "chain P p cs pages" and "distinct cs" and "length pages \<le> kScanMaxPages"
  shows "records_left P (start_state b column_ids qall budget \<lparr> gs_next_path := p \<rparr>) (concat pages) (length pages)"
  using assms by (auto simp: records_left_def start_state_def new_gstate_def)

text \<open>
  C3: the lazy scan delivers what the eager query returns. When the initialisation chooses the REST
  path and the eager query on the same session returns records, then pulling the table function
  until it returns nothing delivers exactly the decoded rows of those records, once each and in
  order, for every chunk size, fetching the same number of pages.
\<close>

theorem lazy_scan_is_query:
  assumes "ScanInitGlobal C (static_server content X) b column_ids s = (Inr g, s0)" and "rest_path g"
    and "Query (static_server content X) (select_soql b column_ids) s0 = (Inr (recs, n), s1)"
    and "chunk_rows (\<lambda>r. row_cells (rest_cell K b r) column_ids) recs = Inr rows" and "0 < vector_size"
  shows "\<exists>g' s'. scan_run C (static_server content X) K vector_size b (g, ScanInitLocal) s0 rows (g', ScanInitLocal) s' \<and>
    gs_pages_fetched g' = n \<and> gs_done g'"
proof -
  let ?P = "served_page content (s_token (w_session s0))"
  have h: "holds_token (s_token (w_session s0)) s0" by (simp add: holds_token_def)
  from assms(1,2) obtain qall budget where
    g: "g = start_state b column_ids qall budget \<lparr> gs_next_path := QueryPath (w_session s0) (select_soql b column_ids) \<rparr>"
    by (rule init_rest_state)
  from static.Query_iff [OF h, of content X "select_soql b column_ids" recs n] assms(3) obtain cs pages where
    c: "chain ?P (QueryPath (w_session s0) (select_soql b column_ids)) cs pages" "distinct cs"
      "length pages \<le> kMaxPages" "recs = concat pages" "n = length pages" by blast
  have "records_left ?P g recs n"
    unfolding g c(4,5) by (rule start_left [OF c(1,2)]) (use c(3) in \<open>simp add: kMaxPages_def kScanMaxPages_def\<close>)
  moreover have "gs_column_ids g = column_ids" by (simp add: g start_state_def new_gstate_def)
  ultimately show ?thesis using static.scan_run_rest [OF _ h assms(2,5)] assms(4) by simp
qed

lemma scan_run_count:
  assumes "gs_count_only g" and "\<not> gs_agg_only g" and "0 < vs"
  shows "\<exists>g' s'. scan_run C X K vs b (g, l) s
      (replicate (nat (gs_count_total g - gs_count_cursor g)) (replicate (length (gs_column_ids g)) CNull)) (g', l) s' \<and>
    w_outside s' = w_outside s \<and> w_session s' = w_session s"
  using assms
proof (induction "nat (gs_count_total g - gs_count_cursor g)" arbitrary: g s rule: less_induct)
  case less
  let ?left = "nat (gs_count_total g - gs_count_cursor g)"
  let ?row = "min vs ?left" and ?cells = "replicate (length (gs_column_ids g)) CNull"
  let ?g = "g \<lparr> gs_count_cursor := gs_count_cursor g + int ?row \<rparr>"
  let ?s = "s \<lparr> w_globals := DiagAddRowsEmitted (int ?row) (w_globals s) \<rparr>"
  have step: "ScanFunction C X K vs b (g, l) s = (Inr (replicate ?row ?cells, ?g, l), ?s)"
    using less.prems by (simp add: ScanFunction_def scan_count_def Let_def sfm_simps rows_emitted_def)
  show ?case
  proof (cases "?left = 0")
    case True
    with step have "scan_run C X K vs b (g, l) s [] (?g, l) ?s" by (intro run_end) simp
    with True show ?thesis by (intro exI [of _ ?g] exI [of _ ?s]) simp
  next
    case False
    have left: "nat (gs_count_total ?g - gs_count_cursor ?g) = ?left - ?row" by auto
    have lt: "nat (gs_count_total ?g - gs_count_cursor ?g) < ?left" unfolding left using False less.prems(3) by simp
    from less.hyps [OF lt, of ?s] less.prems obtain g' s' where
      r: "scan_run C X K vs b (?g, l) ?s (replicate (?left - ?row) ?cells) (g', l) s'"
        "w_outside s' = w_outside ?s" "w_session s' = w_session ?s"
      unfolding left by auto
    have "scan_run C X K vs b (g, l) s (replicate ?row ?cells @ replicate (?left - ?row) ?cells) (g', l) s'"
      using False less.prems(3) by (intro run_chunk [OF step _ r(1)]) simp
    moreover have "replicate ?row ?cells @ replicate (?left - ?row) ?cells = replicate ?left ?cells"
      by (simp flip: replicate_add)
    ultimately show ?thesis using r(2,3) by auto
  qed
qed

text \<open>
  C32: a pushed-down count emits exactly the counted rows. Whatever the chunk size, the run of a
  count-only scan consists of the counted number of rows, every cell null, and neither sends a
  request nor touches the session.
\<close>

theorem count_pushdown_rows:
  assumes "gs_count_only g" and "\<not> gs_agg_only g" and "gs_count_cursor g = 0" and "0 < vector_size"
  shows "\<exists>g' s'. scan_run C X K vector_size b (g, l) s
      (replicate (nat (gs_count_total g)) (replicate (length (gs_column_ids g)) CNull)) (g', l) s' \<and>
    w_outside s' = w_outside s \<and> w_session s' = w_session s"
  using scan_run_count [OF assms(1,2,4), of C X K b l s] assms(3) by simp


lemma raw_where_bulk:
  "bulk_chunk_count C (b \<lparr> b_raw_where := w \<rparr>) = bulk_chunk_count C b"
  "bulk_wheres C (b \<lparr> b_raw_where := w \<rparr>) = bulk_wheres C b"
proof -
  show "bulk_chunk_count C (b \<lparr> b_raw_where := w \<rparr>) = bulk_chunk_count C b" by (simp add: bulk_chunk_count_def)
  then show "bulk_wheres C (b \<lparr> b_raw_where := w \<rparr>) = bulk_wheres C b"
    by (auto simp: bulk_wheres_def Let_def fun_eq_iff split: option.splits)
qed

text \<open>
  The user filter reaches only the REST and count paths. The SOQL of a Bulk scan and of a
  pushed-down aggregate is the same with and without the raw filter of the bind data, while the
  REST query and the count carry it.
\<close>

theorem raw_filter_ignored_by_bulk:
  "init_bulk C X (b \<lparr> b_raw_where := w \<rparr>) sel g = init_bulk C X (b \<lparr> b_raw_where := [] \<rparr>) sel g \<and>
   agg_soql_of (b \<lparr> b_raw_where := w \<rparr>) = agg_soql_of (b \<lparr> b_raw_where := [] \<rparr>) \<and>
   combined_where (b \<lparr> b_raw_where := w \<rparr>) =
     sep_by '' AND '' (filter (\<lambda>x. x \<noteq> []) [b_pushed_where b, w])"
  by (simp add: init_bulk_def raw_where_bulk agg_soql_of_def combined_where_def)

text \<open>
  No request while rows are buffered. As long as the current page is not drained, a call of
  the table function sends nothing: a small LIMIT never fetches the next page.
\<close>

theorem buffered_rows_need_no_request:
  assumes "rest_path g" and "gs_cursor g < length (gs_page g)"
  shows "case ScanFunction C X K vector_size b (g, l) s of (r, s') \<Rightarrow>
    w_outside s' = w_outside s \<and> w_session s' = w_session s"
  using assms
  by (auto simp: ScanFunction_def rest_path_def scan_rest_def sfm_simps rows_emitted_def Let_def split: sum.splits prod.splits)

section \<open>Witnesses\<close>

lemma returned_value: "(case p of (Inr g, s) \<Rightarrow> Q g s | _ \<Rightarrow> False) \<Longrightarrow> \<exists>g s. p = (Inr g, s) \<and> Q g s"
  by (auto split: prod.splits sum.splits)

lemma returned_pair: "(case p of (Inr (a, b), s) \<Rightarrow> Q a b s | _ \<Rightarrow> False) \<Longrightarrow> \<exists>a b s. p = (Inr (a, b), s) \<and> Q a b s"
  by (auto split: prod.splits sum.splits)

definition sample_bind :: SalesforceScanBindData where
  "sample_bind = \<lparr> b_config = empty_config \<lparr> api_version := ''v60.0'' \<rparr>,
     b_token = \<lparr> access_token = ''t'', instance_url = ''https://x'' \<rparr>, b_object = ''A'',
     b_fields = [text_field ''Id'' VARCHAR], b_column_names = [''Id''], b_column_types = [VARCHAR], b_pushed_where = [],
     b_pushed_filter_count = 0, b_residual_filter_count = 0, b_catalog_alias = [], b_explain_filters = [],
     b_explain_captured = False, b_pushed_aggregates = [], b_raw_where = [] \<rparr>"

definition sample_content :: string where
  "sample_content = print_json (JObj [(''done'', JBool True),
     (''records'', JArr [JObj [(''Id'', JStr ''x'')], JObj [(''Id'', JStr ''y'')]])])"

abbreviation sample_server :: "history external" where
  "sample_server \<equiv> static_server (\<lambda>_. sample_content) history_external"

theorem lazy_scan_is_query_witness:
  "case ScanInitGlobal bare_context sample_server sample_bind [0] sample_state of
     (Inr g, s0) \<Rightarrow> (\<exists>g' s'. scan_run bare_context sample_server text_casts 1 sample_bind (g, ScanInitLocal) s0
        [[CVarchar ''x''], [CVarchar ''y'']] (g', ScanInitLocal) s' \<and> gs_pages_fetched g' = 1 \<and> gs_done g')
   | _ \<Rightarrow> False"
proof -
  have "case ScanInitGlobal bare_context sample_server sample_bind [0] sample_state of
     (Inr g, s0) \<Rightarrow> rest_path g \<and>
       (case Query sample_server (select_soql sample_bind [0]) s0 of
          (Inr (recs, n), _) \<Rightarrow> n = 1 \<and> chunk_rows (\<lambda>r. row_cells (rest_cell text_casts sample_bind r) [0]) recs =
             Inr [[CVarchar ''x''], [CVarchar ''y'']]
        | _ \<Rightarrow> False)
   | _ \<Rightarrow> False" by code_simp
  from returned_value [OF this] obtain g s0 where
    i: "ScanInitGlobal bare_context sample_server sample_bind [0] sample_state = (Inr g, s0)" "rest_path g" and
    q: "case Query sample_server (select_soql sample_bind [0]) s0 of
          (Inr (recs, n), _) \<Rightarrow> n = 1 \<and> chunk_rows (\<lambda>r. row_cells (rest_cell text_casts sample_bind r) [0]) recs =
             Inr [[CVarchar ''x''], [CVarchar ''y'']]
        | _ \<Rightarrow> False" by (elim exE conjE) (rule that)
  from returned_pair [OF q] obtain recs s1 where
    r: "Query sample_server (select_soql sample_bind [0]) s0 = (Inr (recs, 1), s1)"
      "chunk_rows (\<lambda>r. row_cells (rest_cell text_casts sample_bind r) [0]) recs = Inr [[CVarchar ''x''], [CVarchar ''y'']]"
    by blast
  show ?thesis unfolding i(1) using lazy_scan_is_query [OF i r, of 1] by simp
qed

definition count_state :: ScanGlobalState where
  "count_state = (new_gstate [1]) \<lparr> gs_count_only := True, gs_count_total := 3 \<rparr>"

theorem count_pushdown_rows_witness:
  "\<exists>g' s'. scan_run bare_context history_external text_casts 2 sample_bind (count_state, ScanInitLocal) sample_state
      (replicate (nat (gs_count_total count_state)) (replicate (length (gs_column_ids count_state)) CNull)) (g', ScanInitLocal) s' \<and>
    w_outside s' = w_outside sample_state \<and> w_session s' = w_session sample_state"
  by (rule count_pushdown_rows) (simp_all add: count_state_def new_gstate_def)

definition bulk_context :: client_context where
  "bulk_context = bare_context \<lparr> TryGetCurrentSetting :=
     (\<lambda>k. if k = ''sf_force_transport'' then Some (varchar_option ''bulk'') else None) \<rparr>"


text \<open>
  A raw filter passes the guard although no job carries it: the scan of the whole object starts.
\<close>

definition guarded_context :: client_context where
  "guarded_context = bulk_context \<lparr> TryGetCurrentSetting :=
     (TryGetCurrentSetting bulk_context)(''sf_bulk_require_predicate'' \<mapsto> (varchar_option ''true'') \<lparr> v_BoolGet := True \<rparr>) \<rparr>"

lemma raw_filter_defeats_guard:
  "case ScanInitGlobal guarded_context history_external (sample_bind \<lparr> b_raw_where := ''Name = null'' \<rparr>) [0] sample_state of
     (Inr g, s') \<Rightarrow> gs_bulk_chunk_soqls g = [''SELECT Id FROM A'']
   | _ \<Rightarrow> False"
  "case ScanInitGlobal guarded_context history_external sample_bind [0] sample_state of
     (Inl e, s') \<Rightarrow> True
   | _ \<Rightarrow> False"
  by code_simp+

definition buffered_state :: ScanGlobalState where
  "buffered_state = (new_gstate [0]) \<lparr> gs_page := [''{}''], gs_next_path := ''/more'' \<rparr>"

theorem buffered_rows_need_no_request_witness:
  "case ScanFunction bare_context history_external text_casts 2 sample_bind (buffered_state, ScanInitLocal) sample_state of
     (r, s') \<Rightarrow> w_outside s' = w_outside sample_state \<and> w_session s' = w_session sample_state"
  by (rule buffered_rows_need_no_request) (simp_all add: buffered_state_def rest_path_def new_gstate_def)

end
