(* ===== verification/SF_Cursor.thy ===== *)
theory SF_Cursor
  imports SF_Value
begin

text \<open>
  Row cursors. Most table functions of the extension hold a list of rows and a cursor into it, and
  write at most one vector of rows per call; DuckDB calls them until they write none. The locale
  states that contract once: what is left before a call is what the call wrote followed by what is
  left after it. Its lemmas say that a complete run delivers exactly the rows, once and in order,
  whatever the vector size, and the components interpret it on their own functions.
\<close>

section \<open>Runs\<close>

inductive drains :: "(nat \<Rightarrow> 'g \<Rightarrow> 'r list \<times> 'g) \<Rightarrow> nat \<Rightarrow> 'g \<Rightarrow> 'r list \<Rightarrow> bool"
  for emit vector_size where
  drained: "emit vector_size g = ([], g') \<Longrightarrow> drains emit vector_size g []"
| emitted: "emit vector_size g = (rows, g') \<Longrightarrow> rows \<noteq> [] \<Longrightarrow> drains emit vector_size g' rest \<Longrightarrow>
    drains emit vector_size g (rows @ rest)"

inductive_cases drainsE: "drains emit n g rows"

section \<open>The contract\<close>

locale row_cursor =
  fixes emit :: "nat \<Rightarrow> 'g \<Rightarrow> 'r list \<times> 'g" and left :: "'g \<Rightarrow> 'r list"
  assumes emits: "emit n g = (rows, g') \<Longrightarrow> rows = take n (left g) \<and> left g' = drop n (left g)"
begin

lemma drains_left:
  assumes "0 < n"
  shows "drains emit n g (left g)"
proof (induction "length (left g)" arbitrary: g rule: less_induct)
  case less
  obtain rows g' where e: "emit n g = (rows, g')" by fastforce
  from emits [OF e] have r: "rows = take n (left g)" "left g' = drop n (left g)" by simp_all
  show ?case
  proof (cases "left g = []")
    case True
    with e r show ?thesis by (auto intro: drained)
  next
    case False
    with assms r have "length (left g') < length (left g)" "rows \<noteq> []" by simp_all
    with e less have "drains emit n g (rows @ left g')" by (intro emitted) simp_all
    with r show ?thesis by simp
  qed
qed

lemma drains_iff:
  assumes "0 < n"
  shows "drains emit n g rows \<longleftrightarrow> rows = left g"
proof
  assume "drains emit n g rows"
  then show "rows = left g"
  proof (induction rule: drains.induct)
    case (drained g g')
    with emits [OF drained] assms show ?case by auto
  next
    case (emitted g rows g' rest)
    with emits [OF emitted(1)] show ?case by simp
  qed
qed (use drains_left [OF assms] in simp)

end

section \<open>The cursor over a list\<close>

text \<open>The loop itself, shared by the table functions: copy rows until the vector is full.\<close>

definition emit_rows :: "('a \<Rightarrow> 'r) \<Rightarrow> 'a list \<Rightarrow> nat \<Rightarrow> nat \<Rightarrow> 'r list \<times> nat" where
  "emit_rows f xs vector_size cursor =
     (let now = take vector_size (drop cursor xs) in (map f now, cursor + length now))"

interpretation list_cursor: row_cursor "emit_rows f xs" "\<lambda>cursor. map f (drop cursor xs)" for f xs
proof
  fix n g rows g'
  assume "emit_rows f xs n g = (rows, g')"
  then have e: "rows = map f (take n (drop g xs))" "g' = g + length (take n (drop g xs))"
    by (auto simp: emit_rows_def Let_def)
  have "drop g' xs = drop n (drop g xs)"
    unfolding e(2) by (simp add: min_def add.commute)
  with e(1) show "rows = take n (map f (drop g xs)) \<and> map f (drop g' xs) = drop n (map f (drop g xs))"
    by (simp add: take_map drop_map)
qed

lemma drains_emit_rows: "0 < n \<Longrightarrow> drains (emit_rows f xs) n 0 rows \<longleftrightarrow> rows = map f xs"
  using list_cursor.drains_iff [of n f xs 0 rows] by simp

end
