(* ===== verification/SF_RelDiag.thy ===== *)
theory SF_RelDiag
  imports SF_Cursor SF_Diag
begin

text \<open>
  Relationship diagnostics (\<^verbatim>\<open>salesforce_reldiag.cpp\<close>): the snapshot of the last schema resolution
  and the table function \<^verbatim>\<open>salesforce_relationships()\<close> that lists it, one configuration row
  followed by one row per decision.
\<close>

section \<open>The snapshot\<close>

record RelDecision =
  rd_relationship_name :: string
  rd_parent_object :: string
  rd_depth_level :: int
  rd_status :: string
  rd_reason :: string
  rd_field_count :: int

record RelSnapshot =
  rs_object :: string
  rs_mode :: string
  rs_depth :: int
  rs_decisions :: "RelDecision list"

definition empty_rel_snapshot :: RelSnapshot where
  "empty_rel_snapshot = \<lparr> rs_object = [], rs_mode = ''off'', rs_depth = 1, rs_decisions = [] \<rparr>"

definition RelDiagBegin :: "string \<Rightarrow> string \<Rightarrow> int \<Rightarrow> RelSnapshot \<Rightarrow> RelSnapshot" where
  "RelDiagBegin object mode depth s =
     empty_rel_snapshot \<lparr> rs_object := object, rs_mode := mode, rs_depth := depth \<rparr>"

definition RelDiagRecord :: "string \<Rightarrow> string \<Rightarrow> int \<Rightarrow> string \<Rightarrow> string \<Rightarrow> int \<Rightarrow> RelSnapshot \<Rightarrow> RelSnapshot" where
  "RelDiagRecord relationship_name parent_object depth_level st reason field_count s =
     s \<lparr> rs_decisions := rs_decisions s @ [\<lparr> rd_relationship_name = relationship_name,
          rd_parent_object = parent_object, rd_depth_level = depth_level, rd_status = st, rd_reason = reason,
          rd_field_count = field_count \<rparr>] \<rparr>"

section \<open>The table function\<close>

definition kOverfetchNote :: string where
  "kOverfetchNote = ''parent fetched as a full STRUCT (all queryable parent fields); nested ''
     @ ''projection is not pushed into SOQL '' @ emdash @ '' selecting one subfield still fetches ''
     @ ''the whole parent''"

definition BuildConfigNote :: "RelSnapshot \<Rightarrow> int \<Rightarrow> int \<Rightarrow> string" where
  "BuildConfigNote s expanded skipped =
     (if rs_mode s \<noteq> ''parent'' then
        ''relationship expansion disabled (SET sf_relationships='' @ [SQ] @ ''parent'' @ [SQ] @ '' to enable)''
      else if expanded = 0 \<and> skipped = 0 then
        ''relationship expansion on, but this object has no usable parent references''
      else ''expanded '' @ show_int expanded @ '', skipped '' @ show_int skipped
           @ '' parent relationship(s) up to depth '' @ show_int (rs_depth s))"

record RelationshipsGlobalState =
  rg_snap :: RelSnapshot
  rg_expanded :: int
  rg_skipped :: int
  rg_row_idx :: nat

definition RelationshipsBind :: "(string \<times> LogicalType) list" where
  "RelationshipsBind = [(''row_type'', VARCHAR), (''object'', VARCHAR), (''relationships_mode'', VARCHAR),
     (''relationship_depth'', BIGINT), (''relationship_name'', VARCHAR), (''parent_object'', VARCHAR),
     (''depth_level'', BIGINT), (''status'', VARCHAR), (''reason'', VARCHAR), (''field_count'', BIGINT),
     (''expanded_count'', BIGINT), (''skipped_count'', BIGINT), (''note'', VARCHAR)]"

fun count_decisions :: "RelDecision list \<Rightarrow> int \<times> int" where
  "count_decisions [] = (0, 0)"
| "count_decisions (d # ds) =
     (case count_decisions ds of (e, k) \<Rightarrow> if rd_status d = ''expanded'' then (e + 1, k) else (e, k + 1))"

definition RelationshipsInit :: "RelSnapshot \<Rightarrow> RelationshipsGlobalState" where
  "RelationshipsInit s = (case count_decisions (rs_decisions s) of (e, k) \<Rightarrow>
     \<lparr> rg_snap = s, rg_expanded = e, rg_skipped = k, rg_row_idx = 0 \<rparr>)"

definition StrOrNull :: "string \<Rightarrow> cell" where
  "StrOrNull v = (if v = [] then CNull else CVarchar v)"

definition rel_int_or_null :: "int \<Rightarrow> cell" where
  "rel_int_or_null v = (if v < 0 then CNull else CBigint v)"

definition rel_config_row :: "RelationshipsGlobalState \<Rightarrow> cell list" where
  "rel_config_row g =
     [CVarchar ''config'', CVarchar (rs_object (rg_snap g)), CVarchar (rs_mode (rg_snap g)), CBigint (rs_depth (rg_snap g)),
      CNull, CNull, CNull, CNull, CNull, CNull, CBigint (rg_expanded g), CBigint (rg_skipped g),
      CVarchar (BuildConfigNote (rg_snap g) (rg_expanded g) (rg_skipped g))]"

definition rel_decision_row :: "RelationshipsGlobalState \<Rightarrow> RelDecision \<Rightarrow> cell list" where
  "rel_decision_row g d =
     [CVarchar ''relationship'', CVarchar (rs_object (rg_snap g)), CNull, CNull, CVarchar (rd_relationship_name d),
      StrOrNull (rd_parent_object d), CBigint (rd_depth_level d), CVarchar (rd_status d), StrOrNull (rd_reason d),
      rel_int_or_null (rd_field_count d), CNull, CNull,
      if rd_status d = ''expanded'' then CVarchar kOverfetchNote else CNull]"

definition rel_row :: "RelationshipsGlobalState \<Rightarrow> nat \<Rightarrow> cell list" where
  "rel_row g i =
     (if i = 0 then rel_config_row g else rel_decision_row g (rs_decisions (rg_snap g) ! (i - 1)))"

definition RelationshipsFunction :: "nat \<Rightarrow> RelationshipsGlobalState \<Rightarrow> cell list list \<times> RelationshipsGlobalState" where
  "RelationshipsFunction vector_size g =
     (case emit_rows (rel_row g) [0..<1 + length (rs_decisions (rg_snap g))] vector_size (rg_row_idx g) of
        (rows, i) \<Rightarrow> (rows, g \<lparr> rg_row_idx := i \<rparr>))"

section \<open>Every decision is listed\<close>

definition rel_rows_left :: "RelationshipsGlobalState \<Rightarrow> cell list list" where
  "rel_rows_left g = drop (rg_row_idx g) (rel_config_row g # map (rel_decision_row g) (rs_decisions (rg_snap g)))"

lemma rel_row_list:
  "map (rel_row g) [0..<1 + length (rs_decisions (rg_snap g))] =
     rel_config_row g # map (rel_decision_row g) (rs_decisions (rg_snap g))"
  by (rule nth_equalityI) (auto simp: rel_row_def nth_Cons' simp del: upt_Suc)

lemma rel_row_cursor [simp]:
  "rel_config_row (g \<lparr> rg_row_idx := i \<rparr>) = rel_config_row g"
  "rel_decision_row (g \<lparr> rg_row_idx := i \<rparr>) = rel_decision_row g"
  by (simp_all add: rel_config_row_def rel_decision_row_def fun_eq_iff)

interpretation relationships: row_cursor RelationshipsFunction rel_rows_left
proof
  fix n g rows g'
  assume "RelationshipsFunction n g = (rows, g')"
  then obtain i where e: "emit_rows (rel_row g) [0..<1 + length (rs_decisions (rg_snap g))] n (rg_row_idx g) = (rows, i)"
    and g': "g' = g \<lparr> rg_row_idx := i \<rparr>"
    by (auto simp: RelationshipsFunction_def split: prod.splits)
  from list_cursor.emits [OF e, folded drop_map, unfolded rel_row_list]
  show "rows = take n (rel_rows_left g) \<and> rel_rows_left g' = drop n (rel_rows_left g)"
    by (simp only: g' rel_rows_left_def rel_row_cursor) simp
qed

lemma count_decisions_sum:
  "count_decisions ds = (int (length (filter (\<lambda>d. rd_status d = ''expanded'') ds)),
                         int (length (filter (\<lambda>d. rd_status d \<noteq> ''expanded'') ds)))"
  by (induction ds) auto

end
