(* ===== verification/SF_Hoare.thy ===== *)
theory SF_Hoare
  imports SF_Session
begin

text \<open>
  Partial-correctness rules for the state-and-exception computations: an invariant of the state
  that holds before and after, whether the computation returns or throws, and a property of what
  it returns. One rule per combinator, collected in \<open>hoare_rules\<close>, so that a proof follows the
  text of the operation.
\<close>

named_theorems hoare_rules \<open>introduction rules for \<open>hoare\<close>\<close>

definition hoare :: "('s \<Rightarrow> bool) \<Rightarrow> ('s, 'a) sfm \<Rightarrow> ('a \<Rightarrow> bool) \<Rightarrow> bool" where
  "hoare I m Q \<longleftrightarrow> (\<forall>s. I s \<longrightarrow> (case m s of (r, s') \<Rightarrow> I s' \<and> (case r of Inl e \<Rightarrow> True | Inr v \<Rightarrow> Q v)))"

lemma hoareI: "(\<And>s r s'. I s \<Longrightarrow> m s = (r, s') \<Longrightarrow> I s' \<and> (case r of Inl e \<Rightarrow> True | Inr v \<Rightarrow> Q v)) \<Longrightarrow> hoare I m Q"
  by (auto simp: hoare_def split: prod.splits)

lemma hoare_keeps: "hoare I m Q \<Longrightarrow> I s \<Longrightarrow> m s = (r, s') \<Longrightarrow> I s'"
  by (auto simp: hoare_def split: prod.splits)

lemma hoare_returns: "hoare I m Q \<Longrightarrow> I s \<Longrightarrow> m s = (Inr v, s') \<Longrightarrow> I s' \<and> Q v"
  by (auto simp: hoare_def split: prod.splits sum.splits)

lemma hoare_weaken: "hoare I m Q \<Longrightarrow> (\<And>v. Q v \<Longrightarrow> R v) \<Longrightarrow> hoare I m R"
  by (fastforce simp: hoare_def split: prod.splits sum.splits)

lemma hoare_ret [hoare_rules]: "Q v \<Longrightarrow> hoare I (ret v) Q"
  by (simp add: hoare_def sfm_run)

lemma hoare_throw [hoare_rules]: "hoare I (throw e) Q"
  by (simp add: hoare_def sfm_run)

lemma hoare_bnd [hoare_rules]: "hoare I m R \<Longrightarrow> (\<And>v. R v \<Longrightarrow> hoare I (f v) Q) \<Longrightarrow> hoare I (bnd m f) Q"
proof (rule hoareI)
  fix s r s'
  assume h: "hoare I m R" "\<And>v. R v \<Longrightarrow> hoare I (f v) Q" and i: "I s" and e: "bnd m f s = (r, s')"
  obtain r1 s1 where m: "m s = (r1, s1)" by fastforce
  show "I s' \<and> (case r of Inl e \<Rightarrow> True | Inr v \<Rightarrow> Q v)"
  proof (cases r1)
    case (Inl err)
    with e m hoare_keeps [OF h(1) i m] show ?thesis by (auto simp: bnd_run)
  next
    case (Inr v)
    with hoare_returns [OF h(1) i] m have v: "I s1" "R v" by auto
    from e m Inr have "f v s1 = (r, s')" by (simp add: bnd_run)
    with h(2) [OF v(2)] v(1) show ?thesis by (auto simp: hoare_def split: prod.splits)
  qed
qed

lemma hoare_catch: "hoare I m Q \<Longrightarrow> Q d \<Longrightarrow> hoare I (catch_all m d) Q"
  by (fastforce simp: hoare_def catch_all_run split: prod.splits sum.splits)

lemma hoare_gets: "(\<And>s. I s \<Longrightarrow> Q (f s)) \<Longrightarrow> hoare I (gets f) Q"
  by (simp add: hoare_def sfm_run)

lemma hoare_upd: "(\<And>s. I s \<Longrightarrow> I (f s)) \<Longrightarrow> Q () \<Longrightarrow> hoare I (upd f) Q"
  by (simp add: hoare_def sfm_run)

lemma hoare_of_result: "(\<And>v. r = Inr v \<Longrightarrow> Q v) \<Longrightarrow> hoare I (of_result r) Q"
  by (auto simp: hoare_def sfm_run split: sum.splits)

lemma hoare_if [hoare_rules]: "(b \<Longrightarrow> hoare I m Q) \<Longrightarrow> (\<not> b \<Longrightarrow> hoare I m' Q) \<Longrightarrow> hoare I (if b then m else m') Q"
  by simp

lemma hoare_option [hoare_rules]:
  "(x = None \<Longrightarrow> hoare I m Q) \<Longrightarrow> (\<And>v. x = Some v \<Longrightarrow> hoare I (f v) Q) \<Longrightarrow> hoare I (case x of None \<Rightarrow> m | Some v \<Rightarrow> f v) Q"
  by (cases x) auto

lemma hoare_prod [hoare_rules]:
  "(\<And>a b. x = (a, b) \<Longrightarrow> hoare I (f a b) Q) \<Longrightarrow> hoare I (case x of (a, b) \<Rightarrow> f a b) Q"
  by (cases x) auto

text \<open>Nothing is claimed of a computation whose state the invariant does not mention.\<close>

lemma hoare_any: "(\<And>s r s'. m s = (r, s') \<Longrightarrow> I s \<Longrightarrow> I s') \<Longrightarrow> hoare I m (\<lambda>_. True)"
  by (auto simp: hoare_def split: prod.splits sum.splits)

end
