(* ===== verification/SF_Catalog.thy ===== *)
theory SF_Catalog
  imports SF_Scan SF_RelDiag SF_Hoare
begin

text \<open>
  The attached catalog (\<^verbatim>\<open>salesforce_storage.cpp\<close>): ATTACH, the lazy resolution of objects to
  table entries with its caches, the expansion of parent relationships, the object listing, the
  manual refresh, and the lookup of an attached catalog's credentials. The caches are maps from
  lower-cased object names; the listing keeps the order in which objects were listed, because the
  Tooling batch is built from it. DuckDB's own catalog framework is represented by what it asks:
  whether a lookup has a context and asks for a table.
\<close>

section \<open>State\<close>

record table_entry =
  te_name :: string
  te_fields :: "SalesforceField list"
  te_columns :: "(string \<times> LogicalType) list"
  te_not_null :: "nat list"

record schema_entry =
  se_config :: SalesforceConfig
  se_token :: SalesforceTokenSet
  se_object_list_loaded :: bool
  se_listing :: "(string \<times> string) list"
  se_tables :: "string \<rightharpoonup> table_entry"
  se_parent_describe :: "string \<rightharpoonup> SalesforceDescribe"
  se_describe_json :: "string \<rightharpoonup> string"

definition new_schema :: "SalesforceConfig \<Rightarrow> SalesforceTokenSet \<Rightarrow> schema_entry" where
  "new_schema config tok = \<lparr> se_config = config, se_token = tok, se_object_list_loaded = False, se_listing = [],
     se_tables = (\<lambda>_. None), se_parent_describe = (\<lambda>_. None), se_describe_json = (\<lambda>_. None) \<rparr>"

record 'c catalog_world =
  k_world :: "'c sworld"
  k_schema :: schema_entry
  k_rel :: RelSnapshot

type_synonym ('c, 'a) cat = "('c catalog_world, 'a) sfm"

definition world_do :: "('c, 'a) sess \<Rightarrow> ('c, 'a) cat" where
  "world_do m = (\<lambda>k. case m (k_world k) of (r, w) \<Rightarrow> (r, k \<lparr> k_world := w \<rparr>))"

definition schema_do :: "(schema_entry \<Rightarrow> schema_entry) \<Rightarrow> ('c, unit) cat" where
  "schema_do f = upd (\<lambda>k. k \<lparr> k_schema := f (k_schema k) \<rparr>)"

definition rel_do :: "(RelSnapshot \<Rightarrow> RelSnapshot) \<Rightarrow> ('c, unit) cat" where
  "rel_do f = upd (\<lambda>k. k \<lparr> k_rel := f (k_rel k) \<rparr>)"

lemma cat_run [sfm_simps]:
  "world_do m k = (case m (k_world k) of (r, w) \<Rightarrow> (r, k \<lparr> k_world := w \<rparr>))"
  "schema_do f k = (Inr (), k \<lparr> k_schema := f (k_schema k) \<rparr>)"
  "rel_do h k = (Inr (), k \<lparr> k_rel := h (k_rel k) \<rparr>)"
  by (simp_all add: world_do_def schema_do_def rel_do_def sfm_run)

text \<open>
  The session of one catalog operation: a fresh one, on the catalog's configuration and token. A
  token renewed during the operation is lost with it.
\<close>

definition open_session :: "('c, unit) cat" where
  "open_session =
     bnd (gets (\<lambda>k. SetToken (se_token (k_schema k)) (new_session (se_config (k_schema k))))) (\<lambda>ss.
     world_do (session_do (\<lambda>_. ss)))"

section \<open>Table entries\<close>

definition IsQueryableField :: "string_util \<Rightarrow> SalesforceField \<Rightarrow> bool" where
  "IsQueryableField D f = (let t = su_Lower D (f_sf_type f) in t \<noteq> ''address'' \<and> t \<noteq> ''location'')"

definition table_of :: "string_util \<Rightarrow> SalesforceDescribe \<Rightarrow> table_entry" where
  "table_of D describe =
     (let queryable = filter (IsQueryableField D) (d_fields describe)
      in \<lparr> te_name = d_object_name describe, te_fields = queryable,
           te_columns = map (\<lambda>f. (f_name f, f_duckdb_type f)) queryable,
           te_not_null = filter (\<lambda>i. \<not> f_nillable (queryable ! i)) [0..<length queryable] \<rparr>)"

text \<open>\<^verbatim>\<open>emplace\<close> keeps an entry that is already there.\<close>

definition put_new :: "'k \<Rightarrow> 'v \<Rightarrow> ('k \<rightharpoonup> 'v) \<Rightarrow> ('k \<rightharpoonup> 'v)" where
  "put_new k v m = (if m k = None then m(k \<mapsto> v) else m)"

definition BuildAndCacheEntry :: "string_util \<Rightarrow> SalesforceDescribe \<Rightarrow> ('c, table_entry) cat" where
  "BuildAndCacheEntry D describe =
     bnd (schema_do (\<lambda>se. se \<lparr> se_tables := put_new (su_Lower D (d_object_name describe)) (table_of D describe) (se_tables se) \<rparr>))
       (\<lambda>_. ret (table_of D describe))"

definition GetScanFunction :: "schema_entry \<Rightarrow> string \<Rightarrow> table_entry \<Rightarrow> SalesforceScanBindData" where
  "GetScanFunction se catalog_name e =
     \<lparr> b_config = se_config se, b_token = se_token se, b_object = te_name e, b_fields = te_fields e,
       b_column_names = map fst (te_columns e), b_column_types = map snd (te_columns e), b_pushed_where = [],
       b_pushed_filter_count = 0, b_residual_filter_count = 0, b_catalog_alias = catalog_name, b_explain_filters = [],
       b_explain_captured = False, b_pushed_aggregates = [], b_raw_where = [] \<rparr>"

section \<open>Parent relationships\<close>

definition GetParentDescribe :: "'c external \<Rightarrow> string \<Rightarrow> ('c, SalesforceDescribe option) cat" where
  "GetParentDescribe X object =
     (let key = su_Lower (x_su X) object in
      bnd (gets (\<lambda>k. se_parent_describe (k_schema k) key)) (\<lambda>hit.
      case hit of
        Some d \<Rightarrow> ret (Some d)
      | None \<Rightarrow>
          bnd (world_do (globals_do IncDescribeCalls)) (\<lambda>_.
          bnd (catch_all (bnd (world_do (Describe X object)) (\<lambda>d. ret (Some d))) None) (\<lambda>got.
          case got of
            None \<Rightarrow> ret None
          | Some d \<Rightarrow>
              bnd (schema_do (\<lambda>se. se \<lparr> se_parent_describe := (se_parent_describe se)(key \<mapsto> d) \<rparr>)) (\<lambda>_. ret (Some d))))))"

text \<open>
  Why a reference field is skipped before its parent is described: the name it is recorded under,
  the parent recorded with it, and the reason.
\<close>

definition relationship_skip ::
  "string_util \<Rightarrow> SalesforceDescribe \<Rightarrow> string list \<Rightarrow> SalesforceField \<Rightarrow> (string \<times> string \<times> string) option" where
  "relationship_skip D desc visited f =
     (if f_relationship_name f = [] then Some (f_name f, [], ''no_relationship_name'')
      else if length (f_reference_to f) \<noteq> 1 then Some (f_relationship_name f, [], ''polymorphic'')
      else let parent = f_reference_to f ! 0 in
        if su_CIEquals D parent (d_object_name desc) then Some (f_relationship_name f, parent, ''self_reference'')
        else if su_Lower D parent \<in> set visited then Some (f_relationship_name f, parent, ''cycle'')
        else if list_ex (\<lambda>g. su_CIEquals D (f_name g) (f_relationship_name f)) (d_fields desc)
        then Some (f_relationship_name f, parent, ''name_collision'')
        else None)"

definition scalar_child :: "SalesforceField \<Rightarrow> SalesforceField" where
  "scalar_child pf =
     SalesforceField (f_name pf) (f_sf_type pf) (f_duckdb_type pf) (f_nillable pf) (f_length pf) (f_precision pf)
       (f_scale pf) (f_filterable pf) (f_sortable pf) (f_unknown_type pf) (f_relationship_name pf) (f_reference_to pf)
       (f_picklist_values pf) False []"

text \<open>A nested relationship is left out when a child has its name, an earlier nested one included.\<close>

fun add_nested :: "string_util \<Rightarrow> SalesforceField list \<Rightarrow> SalesforceField list \<Rightarrow> SalesforceField list" where
  "add_nested D children [] = children"
| "add_nested D children (n # ns) =
     (if list_ex (\<lambda>c. su_CIEquals D (f_name c) (f_name n)) children then add_nested D children ns
      else add_nested D (children @ [n]) ns)"

definition relationship_field :: "SalesforceField \<Rightarrow> SalesforceField list \<Rightarrow> SalesforceField" where
  "relationship_field f children =
     SalesforceField (f_relationship_name f) [] (STRUCT (map (\<lambda>c. (f_name c, f_duckdb_type c)) children))
       True 0 0 0 False False False (f_relationship_name f) (f_reference_to f) [] True children"

definition rel_skipped :: "string \<Rightarrow> string \<Rightarrow> int \<Rightarrow> string \<Rightarrow> ('c, SalesforceField list) cat" where
  "rel_skipped nm parent level reason =
     bnd (rel_do (RelDiagRecord nm parent level ''skipped'' reason (- 1))) (\<lambda>_. ret [])"

fun BuildRelationshipFields ::
  "'c external \<Rightarrow> nat \<Rightarrow> SalesforceDescribe \<Rightarrow> string list \<Rightarrow> int \<Rightarrow> SalesforceField list \<Rightarrow> ('c, SalesforceField list) cat" where
  "BuildRelationshipFields X 0 desc visited level fs = ret []"
| "BuildRelationshipFields X (Suc depth) desc visited level [] = ret []"
| "BuildRelationshipFields X (Suc depth) desc visited level (f # fs) =
     bnd (if su_Lower (x_su X) (f_sf_type f) \<noteq> ''reference'' then ret []
          else (case relationship_skip (x_su X) desc visited f of
            Some (nm, parent, reason) \<Rightarrow> rel_skipped nm parent level reason
          | None \<Rightarrow>
              let parent = f_reference_to f ! 0 in
              bnd (GetParentDescribe X parent) (\<lambda>pd.
              case pd of
                None \<Rightarrow> rel_skipped (f_relationship_name f) parent level ''parent_not_describable''
              | Some p \<Rightarrow>
                  bnd (BuildRelationshipFields X depth p (su_Lower (x_su X) parent # visited) (level + 1) (d_fields p)) (\<lambda>nested.
                  let children = add_nested (x_su X) (map scalar_child (filter (IsQueryableField (x_su X)) (d_fields p))) nested in
                  if children = [] then rel_skipped (f_relationship_name f) parent level ''no_fields''
                  else bnd (rel_do (RelDiagRecord (f_relationship_name f) parent level ''expanded'' [] (int (length children))))
                         (\<lambda>_. ret [relationship_field f children])))))
       (\<lambda>rs. bnd (BuildRelationshipFields X (Suc depth) desc visited level fs) (\<lambda>rest. ret (rs @ rest)))"

definition ExpandParentRelationships ::
  "'c external \<Rightarrow> SalesforceDescribe \<Rightarrow> nat \<Rightarrow> ('c, SalesforceDescribe) cat" where
  "ExpandParentRelationships X describe depth =
     bnd (BuildRelationshipFields X depth describe [su_Lower (x_su X) (d_object_name describe)] 1 (d_fields describe)) (\<lambda>rels.
     ret (describe \<lparr> d_fields := d_fields describe @ rels \<rparr>))"

section \<open>Lookup\<close>

definition relationship_depth :: "client_context \<Rightarrow> nat" where
  "relationship_depth C =
     (case TryGetCurrentSetting C ''sf_relationship_depth'' of
        Some v \<Rightarrow> if v_IsNull v then 1 else if v_IntGet v < 1 then 1 else if v_IntGet v > 2 then 2 else nat (v_IntGet v)
      | None \<Rightarrow> 1)"

text \<open>What a Tooling answer adds to the cache: objects not cached yet, with fields, all of known type.\<close>

definition tooling_usable :: "SalesforceDescribe \<Rightarrow> bool" where
  "tooling_usable d \<longleftrightarrow> d_fields d \<noteq> [] \<and> \<not> list_ex f_unknown_type (d_fields d)"

definition add_described :: "string_util \<Rightarrow> describes \<Rightarrow> (string \<rightharpoonup> table_entry) \<Rightarrow> (string \<rightharpoonup> table_entry)" where
  "add_described D got tables =
     (\<lambda>k. case tables k of
            Some e \<Rightarrow> Some e
          | None \<Rightarrow> (case got k of
                       Some d \<Rightarrow> if tooling_usable d then Some (table_of D d) else None
                     | None \<Rightarrow> None))"

definition tooling_batch :: "string \<Rightarrow> string \<Rightarrow> schema_entry \<Rightarrow> string list" where
  "tooling_batch object key se =
     object # map snd (filter (\<lambda>(k, n). se_tables se k = None \<and> k \<noteq> key) (se_listing se))"

definition lookup_tooling :: "'c external \<Rightarrow> string \<Rightarrow> string \<Rightarrow> ('c, table_entry option) cat" where
  "lookup_tooling X object key =
     bnd (gets (\<lambda>k. tooling_batch object key (k_schema k))) (\<lambda>batch.
     bnd (world_do (ToolingDescribe X batch (\<lambda>_. None))) (\<lambda>r.
     if \<not> fst r then ret None
     else bnd (schema_do (\<lambda>se. se \<lparr> se_tables := add_described (x_su X) (snd r) (se_tables se) \<rparr>)) (\<lambda>_.
          gets (\<lambda>k. se_tables (k_schema k) key))))"

definition lookup_describe :: "client_context \<Rightarrow> 'c external \<Rightarrow> string \<Rightarrow> ('c, table_entry) cat" where
  "lookup_describe C X object =
     bnd (world_do (globals_do IncDescribeCalls)) (\<lambda>_.
     bnd (world_do (Describe X object)) (\<lambda>describe.
     let relationships = setting_text (x_su X) C ''sf_relationships'' ''off'';
         depth = relationship_depth C in
     bnd (rel_do (RelDiagBegin (d_object_name describe) relationships (int depth))) (\<lambda>_.
     bnd (if relationships = ''parent'' then ExpandParentRelationships X describe depth else ret describe) (\<lambda>d.
     BuildAndCacheEntry (x_su X) d))))"

definition LookupEntry ::
  "client_context \<Rightarrow> 'c external \<Rightarrow> bool \<Rightarrow> bool \<Rightarrow> string \<Rightarrow> ('c, table_entry option) cat" where
  "LookupEntry C X is_table has_context object =
     (if \<not> is_table \<or> \<not> has_context then ret None
      else let key = su_Lower (x_su X) object in
        bnd (gets (\<lambda>k. se_tables (k_schema k) key)) (\<lambda>hit.
        case hit of
          Some e \<Rightarrow> ret (Some e)
        | None \<Rightarrow>
            bnd open_session (\<lambda>_.
            bnd (if setting_text (x_su X) C ''sf_schema_source'' ''describe'' = ''tooling''
                 then lookup_tooling X object key else ret None) (\<lambda>served.
            case served of
              Some e \<Rightarrow> ret (Some e)
            | None \<Rightarrow> bnd (lookup_describe C X object) (\<lambda>e. ret (Some e))))))"

section \<open>Listing\<close>

fun add_listing :: "string_util \<Rightarrow> (string \<rightharpoonup> table_entry) \<Rightarrow> (string \<times> string) list \<Rightarrow> string list \<Rightarrow> (string \<times> string) list" where
  "add_listing D tables listing [] = listing"
| "add_listing D tables listing (obj # objs) =
     (let key = su_Lower D obj in
      if tables key \<noteq> None \<or> key \<in> fst ` set listing then add_listing D tables listing objs
      else add_listing D tables (listing @ [(key, obj)]) objs)"

definition EnsureObjectListLoaded :: "'c external \<Rightarrow> ('c, unit) cat" where
  "EnsureObjectListLoaded X =
     bnd (gets (\<lambda>k. se_object_list_loaded (k_schema k))) (\<lambda>loaded.
     if loaded then ret ()
     else bnd open_session (\<lambda>_.
          bnd (world_do (globals_do IncGlobalDescribeCalls)) (\<lambda>_.
          bnd (world_do (GlobalDescribe X)) (\<lambda>objs.
          schema_do (\<lambda>se. se \<lparr> se_listing := add_listing (x_su X) (se_tables se) (se_listing se) objs,
                               se_object_list_loaded := True \<rparr>)))))"

text \<open>
  What a scan of the schema shows: the resolved entries (in no particular order, hence a map) and
  after them the names that are only listed.
\<close>

definition EmitResolved :: "schema_entry \<Rightarrow> (string \<rightharpoonup> table_entry) \<times> string list" where
  "EmitResolved se = (se_tables se, map snd (filter (\<lambda>(k, n). se_tables se k = None) (se_listing se)))"

definition schema_Scan :: "'c external \<Rightarrow> bool \<Rightarrow> ('c, (string \<rightharpoonup> table_entry) \<times> string list) cat" where
  "schema_Scan X is_table =
     (if is_table then bnd (EnsureObjectListLoaded X) (\<lambda>_. gets (\<lambda>k. EmitResolved (k_schema k)))
      else ret ((\<lambda>_. None), []))"

section \<open>Refresh and raw describes\<close>

definition schema_RefreshMetadata :: "string_util \<Rightarrow> string \<Rightarrow> schema_entry \<Rightarrow> schema_entry" where
  "schema_RefreshMetadata D object se =
     (if object = [] then se \<lparr> se_tables := (\<lambda>_. None), se_listing := [], se_parent_describe := (\<lambda>_. None),
                              se_describe_json := (\<lambda>_. None), se_object_list_loaded := False \<rparr>
      else let key = su_Lower D object in
        se \<lparr> se_tables := (se_tables se)(key := None), se_parent_describe := (se_parent_describe se)(key := None),
             se_describe_json := (se_describe_json se)(key := None) \<rparr>)"

definition DescribeJsonCached :: "'c external \<Rightarrow> string \<Rightarrow> ('c, string) cat" where
  "DescribeJsonCached X object =
     (let key = su_Lower (x_su X) object in
      bnd (gets (\<lambda>k. se_describe_json (k_schema k) key)) (\<lambda>hit.
      case hit of
        Some bd \<Rightarrow> ret bd
      | None \<Rightarrow>
          bnd open_session (\<lambda>_.
          bnd (world_do (globals_do IncDescribeCalls)) (\<lambda>_.
          bnd (world_do (DescribeJson X object)) (\<lambda>bd.
          bnd (schema_do (\<lambda>se. se \<lparr> se_describe_json := (se_describe_json se)(key \<mapsto> bd) \<rparr>)) (\<lambda>_. ret bd))))))"

section \<open>Everything else is read-only\<close>

datatype mutating_op =
    CREATE_FUNCTION | CREATE_TABLE | CREATE_VIEW | CREATE_SEQUENCE | CREATE_TABLE_FUNCTION | CREATE_COPY_FUNCTION
  | CREATE_PRAGMA_FUNCTION | CREATE_COLLATION | CREATE_TYPE | CREATE_INDEX | DROP | ALTER

fun op_name :: "mutating_op \<Rightarrow> string" where
  "op_name CREATE_FUNCTION = ''CREATE FUNCTION''"
| "op_name CREATE_TABLE = ''CREATE TABLE''"
| "op_name CREATE_VIEW = ''CREATE VIEW''"
| "op_name CREATE_SEQUENCE = ''CREATE SEQUENCE''"
| "op_name CREATE_TABLE_FUNCTION = ''CREATE TABLE FUNCTION''"
| "op_name CREATE_COPY_FUNCTION = ''CREATE COPY FUNCTION''"
| "op_name CREATE_PRAGMA_FUNCTION = ''CREATE PRAGMA FUNCTION''"
| "op_name CREATE_COLLATION = ''CREATE COLLATION''"
| "op_name CREATE_TYPE = ''CREATE TYPE''"
| "op_name CREATE_INDEX = ''CREATE INDEX''"
| "op_name DROP = ''DROP''"
| "op_name ALTER = ''ALTER''"

definition Unsupported :: "mutating_op \<Rightarrow> ('c, 'a) cat" where
  "Unsupported op = throw (NotImplementedException
     (''Salesforce ATTACH catalog is read-only '' @ emdash @ '' '' @ op_name op @ '' is not supported.''))"

section \<open>Attached catalogs\<close>

definition Initialize :: "SalesforceConfig \<Rightarrow> SalesforceTokenSet \<Rightarrow> ('c, unit) cat" where
  "Initialize config tok =
     bnd (world_do (globals_do (\<lambda>g. ResetToolingCalls (ResetGlobalDescribeCalls (ResetDescribeCalls g))))) (\<lambda>_.
     schema_do (\<lambda>_. new_schema config tok))"

text \<open>ATTACH: validate, authenticate, and keep the configuration and the token.\<close>

definition SalesforceAttach ::
  "client_context \<Rightarrow> 'c external \<Rightarrow> string \<Rightarrow> (string \<times> Value) list \<Rightarrow> ('c, SalesforceConfig \<times> SalesforceTokenSet) sess" where
  "SalesforceAttach C X path options =
     bnd (of_result (ParseAndValidate (x_su X) C path options)) (\<lambda>config.
     bnd (outside_do (AcquireToken X config)) (\<lambda>tok. ret (config, tok)))"

text \<open>
  A catalog found under an alias, as DuckDB returns it: its type, and for a Salesforce catalog
  its configuration and token.
\<close>

record attached =
  at_type :: string
  at_config :: SalesforceConfig
  at_token :: SalesforceTokenSet

definition GetSalesforceCatalogCredentials ::
  "(string \<Rightarrow> attached option) \<Rightarrow> string \<Rightarrow> (SalesforceConfig \<times> SalesforceTokenSet) result" where
  "GetSalesforceCatalogCredentials A alias =
     (case A alias of
        None \<Rightarrow> Inl (BinderException (''salesforce_aggregate: no attached catalog named '' @ [SQ] @ alias @ [SQ]
                  @ '' '' @ emdash @ '' ATTACH a Salesforce org first, then pass its alias.''))
      | Some c \<Rightarrow>
          if at_type c \<noteq> ''salesforce'' then Inl (BinderException
            (''salesforce_aggregate: catalog '' @ [SQ] @ alias @ [SQ] @ '' is not a Salesforce catalog.''))
          else Inr (at_config c, at_token c))"

section \<open>What the Tooling describe returns\<close>

definition flat_describe :: "SalesforceDescribe \<Rightarrow> bool" where
  "flat_describe d \<longleftrightarrow> list_all (\<lambda>f. \<not> f_is_relationship f \<and> f_children f = []) (d_fields d)"

definition described_under :: "string_util \<Rightarrow> describes \<Rightarrow> bool" where
  "described_under D got \<longleftrightarrow> (\<forall>k d. got k = Some d \<longrightarrow> k = su_Lower D (d_object_name d) \<and> d_object_name d \<noteq> [] \<and> flat_describe d)"

lemma tooling_field_flat: "\<not> f_is_relationship (tooling_field D flat) \<and> f_children (tooling_field D flat) = []"
  by (simp add: tooling_field_def split: prod.splits)

lemma tooling_record_under:
  assumes "described_under D out"
  shows "described_under D (tooling_record D r out)"
proof -
  have "k = su_Lower D (d_object_name d) \<and> d_object_name d \<noteq> [] \<and> flat_describe d"
    if "tooling_record D r out k = Some d" for k d
    using that assms tooling_field_flat [of D "strip_entity r"]
    by (auto simp: tooling_record_def Let_def described_under_def flat_describe_def split: if_splits option.splits)
  then show ?thesis by (simp add: described_under_def)
qed

lemma tooling_fold_under: "described_under D out \<Longrightarrow> described_under D (fold (tooling_record D) rs out)"
  by (induction rs arbitrary: out) (simp_all add: tooling_record_under)

lemma tooling_pages_under:
  assumes "described_under (x_su X) out"
  shows "hoare (\<lambda>_. True) (tooling_pages X path seen guard out) (\<lambda>r. described_under (x_su X) (snd r))"
  using assms
proof (induction "kToolingGuard - guard" arbitrary: path seen guard out rule: less_induct)
  case less
  show ?case
    unfolding tooling_pages.simps [of X path] Let_def
    by (intro hoare_bnd [OF hoare_any] hoare_if hoare_ret less.hyps tooling_fold_under less.prems)
       (auto intro: tooling_fold_under less.prems)
qed

lemma ToolingDescribe_under:
  assumes "described_under (x_su X) out"
  shows "hoare (\<lambda>_. True) (ToolingDescribe X objects out) (\<lambda>r. described_under (x_su X) (snd r))"
  using assms
proof (induction X objects out rule: ToolingDescribe.induct)
  case (1 X objects out)
  show ?case
    unfolding ToolingDescribe.simps [of X objects]
    by (intro hoare_if hoare_ret hoare_bnd [OF hoare_any] hoare_bnd [OF tooling_pages_under])
       (use 1 in auto)
qed

section \<open>Invariants of the resolution\<close>

lemma hoare_world_do:
  "hoare (\<lambda>_. True) m Q \<Longrightarrow> (\<And>k w. I k \<Longrightarrow> I (k \<lparr> k_world := w \<rparr>)) \<Longrightarrow> hoare I (world_do m) Q"
  by (fastforce simp: hoare_def cat_run split: prod.splits)

lemma hoare_schema_do:
  "(\<And>k. I k \<Longrightarrow> I (k \<lparr> k_schema := f (k_schema k) \<rparr>)) \<Longrightarrow> Q () \<Longrightarrow> hoare I (schema_do f) Q"
  unfolding schema_do_def by (rule hoare_upd)

lemma hoare_rel_do:
  "(\<And>k r. I k \<Longrightarrow> I (k \<lparr> k_rel := r \<rparr>)) \<Longrightarrow> Q () \<Longrightarrow> hoare I (rel_do f) Q"
  unfolding rel_do_def by (rule hoare_upd) simp_all

lemma hoare_true: "hoare (\<lambda>_. True) m (\<lambda>_. True)"
  by (auto simp: hoare_def split: prod.splits sum.splits)

lemma Describe_named: "hoare (\<lambda>_. True) (Describe X object) (\<lambda>d. d_object_name d = object \<and> flat_describe d)"
  unfolding Describe_def
  by (rule hoare_bnd [OF hoare_true], rule hoare_ret)
     (auto simp: ParseDescribe_def Let_def flat_describe_def list_all_iff parse_field_def split: prod.splits)

text \<open>The height of the structs a field expands to; an expanded field is a well-formed one within a height.\<close>

fun rel_height :: "SalesforceField \<Rightarrow> nat" where
  "rel_height (SalesforceField nm st ty nil len prc scl flt srt unk rel refs pick is_rel children) =
     (if is_rel then Suc (foldr max (map rel_height children) 0) else 0)"

lemma foldr_max_le: "list_all (\<lambda>x. x \<le> n) xs \<Longrightarrow> foldr max xs 0 \<le> (n :: nat)"
  by (induction xs) auto

definition expanded :: "nat \<Rightarrow> SalesforceField \<Rightarrow> bool" where
  "expanded n f \<longleftrightarrow> rel_height f \<le> n \<and> wf_field f"

lemma expanded_flat: "\<not> f_is_relationship f \<Longrightarrow> f_children f = [] \<Longrightarrow> expanded n f"
  by (cases f) (simp add: expanded_def)

lemma expanded_mono: "expanded m f \<Longrightarrow> m \<le> n \<Longrightarrow> expanded n f"
  by (simp add: expanded_def)

lemma expanded_scalar [simp]: "expanded n (scalar_child f)"
  by (simp add: expanded_def scalar_child_def)

lemma expanded_field: "list_all (expanded n) children \<Longrightarrow> expanded (Suc n) (relationship_field f children)"
  by (auto simp: expanded_def relationship_field_def list_all_iff intro!: foldr_max_le)

lemma add_nested_all: "list_all P cs \<Longrightarrow> list_all P ns \<Longrightarrow> list_all P (add_nested D cs ns)"
  by (induction D cs ns rule: add_nested.induct) auto

text \<open>
  The contract of a state invariant with the resolution of parents: it does not depend on the
  outside world or the diagnostics, survives the caching of a describe, and knows that cached
  describes are flat.
\<close>

locale resolution_invariant =
  fixes X :: "'c external" and I :: "'c catalog_world \<Rightarrow> bool"
  assumes world: "I k \<Longrightarrow> I (k \<lparr> k_world := w \<rparr>)"
    and rel: "I k \<Longrightarrow> I (k \<lparr> k_rel := r \<rparr>)"
    and parent: "I k \<Longrightarrow> flat_describe d \<Longrightarrow> d_object_name d = object \<Longrightarrow>
      I (k \<lparr> k_schema := (k_schema k) \<lparr> se_parent_describe :=
            (se_parent_describe (k_schema k))(su_Lower (x_su X) object \<mapsto> d) \<rparr> \<rparr>)"
    and cached: "I k \<Longrightarrow> se_parent_describe (k_schema k) key = Some d \<Longrightarrow> flat_describe d"
begin

lemma GetParentDescribe_ok:
  "hoare I (GetParentDescribe X object) (\<lambda>pd. case pd of None \<Rightarrow> True | Some d \<Rightarrow> flat_describe d)"
proof -
  have store: "hoare I (schema_do (\<lambda>se. se \<lparr> se_parent_describe := (se_parent_describe se)(su_Lower (x_su X) object \<mapsto> d) \<rparr>))
      (\<lambda>_. True)" if "d_object_name d = object" "flat_describe d" for d
    using that parent by (intro hoare_schema_do) auto
  have fetch: "hoare I (catch_all (bnd (world_do (Describe X object)) (\<lambda>d. ret (Some d))) None)
      (\<lambda>got. case got of None \<Rightarrow> True | Some d \<Rightarrow> d_object_name d = object \<and> flat_describe d)"
    by (intro hoare_catch hoare_bnd [OF hoare_world_do [OF Describe_named]] hoare_ret) (auto intro: world)
  show ?thesis
    unfolding GetParentDescribe_def Let_def
    by (rule hoare_bnd [OF hoare_gets [where Q = "\<lambda>hit. case hit of None \<Rightarrow> True | Some d \<Rightarrow> flat_describe d"]])
       (auto intro!: hoare_option hoare_ret hoare_bnd [OF hoare_world_do [OF hoare_true]] hoare_bnd [OF fetch]
          hoare_bnd [OF store] intro: world cached split: option.splits)
qed

lemma BuildRelationshipFields_height:
  "hoare I (BuildRelationshipFields X depth desc visited level fs) (list_all (expanded depth))"
proof (induction depth arbitrary: desc visited level fs)
  case 0
  then show ?case by (simp add: hoare_ret)
next
  case (Suc depth)
  have skip: "hoare I (rel_skipped nm par lv reason) (list_all (expanded (Suc depth)))" for nm par lv reason
    unfolding rel_skipped_def by (intro hoare_bnd [OF hoare_rel_do [where Q = "\<lambda>_. True"]] hoare_ret) (auto intro: rel)
  have all: "list_all (expanded depth)
      (add_nested (x_su X) (map scalar_child (filter (IsQueryableField (x_su X)) (d_fields p))) nested)"
    if "list_all (expanded depth) nested" for p :: SalesforceDescribe and nested
    using that by (intro add_nested_all) (auto simp: list_all_iff)
  show ?case
  proof (induction fs)
    case Nil
    then show ?case by (simp add: hoare_ret)
  next
    case (Cons f fs)
    show ?case
      unfolding BuildRelationshipFields.simps Let_def
      by (rule hoare_bnd [where R = "list_all (expanded (Suc depth))"])
         (auto intro!: hoare_if hoare_option hoare_prod hoare_ret skip hoare_bnd [OF GetParentDescribe_ok]
            hoare_bnd [OF Suc.IH] hoare_bnd [OF Cons.IH] hoare_bnd [OF hoare_rel_do [where Q = "\<lambda>_. True"]]
            expanded_field [OF all] intro: rel)
  qed
qed

lemma ExpandParentRelationships_ok:
  assumes "flat_describe d"
  shows "hoare I (ExpandParentRelationships X d depth)
    (\<lambda>d'. d_object_name d' = d_object_name d \<and> list_all (expanded depth) (d_fields d'))"
  unfolding ExpandParentRelationships_def
  by (rule hoare_bnd [OF BuildRelationshipFields_height], rule hoare_ret)
     (use assms in \<open>auto simp: flat_describe_def list_all_iff expanded_flat\<close>)

end

section \<open>Well-formed catalogs\<close>

definition table_ok :: "string_util \<Rightarrow> string \<Rightarrow> table_entry \<Rightarrow> bool" where
  "table_ok D key e \<longleftrightarrow> key = su_Lower D (te_name e) \<and>
     te_columns e = map (\<lambda>f. (f_name f, f_duckdb_type f)) (te_fields e) \<and>
     list_all (IsQueryableField D) (te_fields e) \<and>
     te_not_null e = filter (\<lambda>i. \<not> f_nillable (te_fields e ! i)) [0..<length (te_fields e)] \<and>
     list_all (expanded 2) (te_fields e)"

definition schema_ok :: "string_util \<Rightarrow> schema_entry \<Rightarrow> bool" where
  "schema_ok D se \<longleftrightarrow>
     (\<forall>key e. se_tables se key = Some e \<longrightarrow> table_ok D key e) \<and>
     (\<forall>key d. se_parent_describe se key = Some d \<longrightarrow> key = su_Lower D (d_object_name d) \<and> flat_describe d) \<and>
     distinct (map fst (se_listing se)) \<and> list_all (\<lambda>(key, n). key = su_Lower D n) (se_listing se)"

lemma table_of_ok:
  "list_all (expanded 2) (d_fields d) \<Longrightarrow> table_ok D (su_Lower D (d_object_name d)) (table_of D d)"
  by (auto simp: table_ok_def table_of_def Let_def list_all_iff)

lemma flat_height: "flat_describe d \<Longrightarrow> list_all (expanded 2) (d_fields d)"
  by (auto simp: flat_describe_def list_all_iff expanded_flat)

lemma add_described_ok:
  assumes "\<And>key e. tables key = Some e \<Longrightarrow> table_ok D key e" and "described_under D got"
    and "add_described D got tables key = Some e"
  shows "table_ok D key e"
  using assms(3) assms(1) [of key] assms(2) table_of_ok [OF flat_height, of _ D]
  by (auto simp: add_described_def described_under_def split: option.splits if_splits)

lemma add_listing_ok:
  assumes "distinct (map fst listing)" and "list_all (\<lambda>(key, n). key = su_Lower D n) listing"
  shows "distinct (map fst (add_listing D tables listing objs)) \<and>
    list_all (\<lambda>(key, n). key = su_Lower D n) (add_listing D tables listing objs)"
  using assms by (induction D tables listing objs rule: add_listing.induct) (auto simp: Let_def)

text \<open>Two invariants the resolution keeps: the caches are well formed; and the tables do not change.\<close>

interpretation well_formed: resolution_invariant X "\<lambda>k. schema_ok (x_su X) (k_schema k)" for X :: "'c external"
  by unfold_locales (auto simp: schema_ok_def)

interpretation same_tables: resolution_invariant X
  "\<lambda>k. schema_ok (x_su X) (k_schema k) \<and> se_tables (k_schema k) = T" for X :: "'c external" and T
  by unfold_locales (auto simp: schema_ok_def)

lemma relationship_depth_le: "relationship_depth C \<le> 2"
  by (auto simp: relationship_depth_def split: option.splits)

lemma open_session_keeps: "(\<And>k w. I k \<Longrightarrow> I (k \<lparr> k_world := w \<rparr>)) \<Longrightarrow> hoare I open_session (\<lambda>_. True)"
  unfolding open_session_def
  by (intro hoare_bnd [OF hoare_gets [where Q = "\<lambda>_. True"]] hoare_world_do [OF hoare_true]) auto

text \<open>The describe path: it keeps the tables until the entry is stored, under the name that was asked for.\<close>

lemma lookup_describe_parts:
  assumes "lookup_describe C X object k = (r, k')" and "schema_ok (x_su X) (k_schema k)"
  obtains (failed) e where "r = Inl e" "schema_ok (x_su X) (k_schema k')" "se_tables (k_schema k') = se_tables (k_schema k)"
  | (stored) d where "r = Inr (table_of (x_su X) d)" "d_object_name d = object"
      "list_all (expanded 2) (d_fields d)" "schema_ok (x_su X) (k_schema k')"
      "se_tables (k_schema k') = put_new (su_Lower (x_su X) object) (table_of (x_su X) d) (se_tables (k_schema k))"
proof -
  let ?I = "\<lambda>k'. schema_ok (x_su X) (k_schema k') \<and> se_tables (k_schema k') = se_tables (k_schema k)"
  let ?m = "bnd (world_do (globals_do IncDescribeCalls)) (\<lambda>_.
     bnd (world_do (Describe X object)) (\<lambda>describe.
     bnd (rel_do (RelDiagBegin (d_object_name describe) (setting_text (x_su X) C ''sf_relationships'' ''off'') (int (relationship_depth C)))) (\<lambda>_.
     if setting_text (x_su X) C ''sf_relationships'' ''off'' = ''parent''
     then ExpandParentRelationships X describe (relationship_depth C) else ret describe)))"
  have expand: "hoare ?I (if setting_text (x_su X) C ''sf_relationships'' ''off'' = ''parent''
      then ExpandParentRelationships X d (relationship_depth C) else ret d)
      (\<lambda>d. d_object_name d = object \<and> list_all (expanded 2) (d_fields d))"
    if d: "d_object_name d = object \<and> flat_describe d" for d
  proof (rule hoare_if)
    show "hoare ?I (ExpandParentRelationships X d (relationship_depth C))
        (\<lambda>d. d_object_name d = object \<and> list_all (expanded 2) (d_fields d))"
      by (rule hoare_weaken [OF same_tables.ExpandParentRelationships_ok])
         (use d relationship_depth_le [of C] in \<open>auto simp: list_all_iff intro: expanded_mono\<close>)
    show "hoare ?I (ret d) (\<lambda>d. d_object_name d = object \<and> list_all (expanded 2) (d_fields d))"
      using d by (intro hoare_ret) (simp add: flat_height)
  qed
  have h: "hoare ?I ?m (\<lambda>d. d_object_name d = object \<and> list_all (expanded 2) (d_fields d))"
    by (intro hoare_bnd [OF hoare_world_do [OF hoare_true]] hoare_bnd [OF hoare_world_do [OF Describe_named]]
        hoare_bnd [OF hoare_rel_do [where Q = "\<lambda>_. True"]] expand) auto
  have e: "lookup_describe C X object = bnd ?m (BuildAndCacheEntry (x_su X))"
    by (simp add: lookup_describe_def Let_def bnd_def fun_eq_iff split: prod.splits sum.splits)
  obtain r1 k1 where m: "?m k = (r1, k1)" by fastforce
  have i: "?I k" using assms(2) by simp
  show thesis
  proof (cases r1)
    case (Inl err)
    with assms(1) m hoare_keeps [OF h i m] show thesis by (intro failed) (auto simp: e bnd_run)
  next
    case (Inr d)
    from hoare_returns [OF h i m [unfolded Inr]] have d: "?I k1" "d_object_name d = object"
      "list_all (expanded 2) (d_fields d)" by auto
    from assms(1) m Inr have r: "BuildAndCacheEntry (x_su X) d k1 = (r, k')" by (simp add: e bnd_run)
    from table_of_ok [OF d(3)] d(1,2) have "schema_ok (x_su X) ((k_schema k1) \<lparr> se_tables :=
        put_new (su_Lower (x_su X) (d_object_name d)) (table_of (x_su X) d) (se_tables (k_schema k1)) \<rparr>)"
      by (auto simp: schema_ok_def put_new_def)
    with r d show thesis by (intro stored [of d]) (auto simp: BuildAndCacheEntry_def sfm_simps)
  qed
qed

lemma lookup_tooling_ok:
  assumes "schema_ok (x_su X) (k_schema k)" and "lookup_tooling X object key k = (r, k')"
  shows "schema_ok (x_su X) (k_schema k') \<and>
    (case r of Inl e \<Rightarrow> se_tables (k_schema k') = se_tables (k_schema k)
     | Inr None \<Rightarrow> se_tables (k_schema k) key = None \<longrightarrow> se_tables (k_schema k') key = None
     | Inr (Some e) \<Rightarrow> se_tables (k_schema k') key = Some e)"
proof -
  obtain r1 w1 where t: "ToolingDescribe X (tooling_batch object key (k_schema k)) (\<lambda>_. None) (k_world k) = (r1, w1)"
    by fastforce
  show ?thesis
  proof (cases r1)
    case (Inl err)
    with assms t show ?thesis by (auto simp: lookup_tooling_def sfm_simps)
  next
    case (Inr v)
    have "described_under (x_su X) (\<lambda>_. None)" by (simp add: described_under_def)
    from hoare_returns [OF ToolingDescribe_under [OF this] TrueI t [unfolded Inr]]
    have v: "described_under (x_su X) (snd v)" by simp
    have "schema_ok (x_su X) ((k_schema k) \<lparr> se_tables := add_described (x_su X) (snd v) (se_tables (k_schema k)) \<rparr>)"
      using assms(1) add_described_ok [OF _ v, of "se_tables (k_schema k)"] by (auto simp: schema_ok_def)
    with assms t Inr show ?thesis
      by (auto simp: lookup_tooling_def sfm_simps split: if_splits option.splits)
  qed
qed

lemma LookupEntry_hit:
  "se_tables (k_schema k) (su_Lower (x_su X) object) = Some e \<Longrightarrow> LookupEntry C X True True object k = (Inr (Some e), k)"
  by (simp add: LookupEntry_def sfm_simps Let_def)

lemma LookupEntry_unasked: "\<not> t \<or> \<not> h \<Longrightarrow> LookupEntry C X t h object k = (Inr None, k)"
  by (auto simp: LookupEntry_def sfm_simps)

lemma LookupEntry_ok:
  assumes "schema_ok (x_su X) (k_schema k)" and "LookupEntry C X t h object k = (r, k')"
  shows "schema_ok (x_su X) (k_schema k') \<and>
    (case r of Inl err \<Rightarrow> se_tables (k_schema k') (su_Lower (x_su X) object) = None
     | Inr None \<Rightarrow> \<not> t \<or> \<not> h
     | Inr (Some e) \<Rightarrow> se_tables (k_schema k') (su_Lower (x_su X) object) = Some e)"
proof (cases "\<not> t \<or> \<not> h \<or> se_tables (k_schema k) (su_Lower (x_su X) object) \<noteq> None")
  case True
  then consider "\<not> t \<or> \<not> h" | e where "t" "h" "se_tables (k_schema k) (su_Lower (x_su X) object) = Some e" by auto
  then show ?thesis
  proof cases
    case 1
    with assms LookupEntry_unasked [OF 1, of C X object k] show ?thesis by auto
  next
    case (2 e)
    with assms LookupEntry_hit [OF 2(3), of C] show ?thesis by auto
  qed
next
  case False
  let ?key = "su_Lower (x_su X) object"
  let ?tool = "if setting_text (x_su X) C ''sf_schema_source'' ''describe'' = ''tooling''
    then lookup_tooling X object ?key else ret None"
  obtain k1 where k1: "open_session k = (Inr (), k1)" and s1: "k_schema k1 = k_schema k"
    by (auto simp: open_session_def sfm_simps)
  obtain r2 k2 where k2: "?tool k1 = (r2, k2)" by fastforce
  have ok2: "schema_ok (x_su X) (k_schema k2) \<and>
      (case r2 of Inl e \<Rightarrow> se_tables (k_schema k2) ?key = None | Inr None \<Rightarrow> se_tables (k_schema k2) ?key = None
       | Inr (Some e) \<Rightarrow> se_tables (k_schema k2) ?key = Some e)"
    using k2 lookup_tooling_ok [of X k1 object ?key r2 k2] assms(1) s1 False
    by (auto simp: sfm_simps split: if_splits sum.splits option.splits)
  have e: "LookupEntry C X t h object k = (case r2 of
      Inl err \<Rightarrow> (Inl err, k2)
    | Inr (Some e) \<Rightarrow> (Inr (Some e), k2)
    | Inr None \<Rightarrow> bnd (lookup_describe C X object) (\<lambda>e. ret (Some e)) k2)"
    using False k1 k2 by (auto simp: LookupEntry_def bnd_run sfm_run Let_def split: sum.splits option.splits)
  show ?thesis
  proof (cases "r2 = Inr None")
    case False
    with e ok2 assms(2) show ?thesis by (auto split: sum.splits option.splits)
  next
    case True
    obtain r3 k3 where k3: "lookup_describe C X object k2 = (r3, k3)" by fastforce
    from k3 conjunct1 [OF ok2] show ?thesis
      by (cases rule: lookup_describe_parts)
         (use e True k3 ok2 assms(2) in \<open>auto simp: bnd_run sfm_run put_new_def\<close>)
  qed
qed

section \<open>Histories of a catalog\<close>

text \<open>
  What can happen to an attached catalog, in any order and under any settings; between the
  operations the outside world and the diagnostics may change freely.
\<close>

inductive reachable :: "'c external \<Rightarrow> 'c catalog_world \<Rightarrow> bool" for X where
  attach: "Initialize config tok k = (Inr (), k') \<Longrightarrow> reachable X k'"
| lookup: "reachable X k \<Longrightarrow> LookupEntry C X t h object k = (r, k') \<Longrightarrow> reachable X k'"
| listing: "reachable X k \<Longrightarrow> schema_Scan X t k = (r2, k') \<Longrightarrow> reachable X k'"
| refresh: "reachable X k \<Longrightarrow> reachable X (k \<lparr> k_schema := schema_RefreshMetadata (x_su X) object (k_schema k) \<rparr>)"
| raw_describe: "reachable X k \<Longrightarrow> DescribeJsonCached X object k = (r3, k') \<Longrightarrow> reachable X k'"
| mutation: "reachable X k \<Longrightarrow> Unsupported op k = (r4 :: unit result, k') \<Longrightarrow> reachable X k'"
| elsewhere: "reachable X k \<Longrightarrow> reachable X (k \<lparr> k_world := w, k_rel := rl \<rparr>)"

lemma EnsureObjectListLoaded_keeps: "hoare (\<lambda>k. schema_ok (x_su X) (k_schema k)) (EnsureObjectListLoaded X) (\<lambda>_. True)"
  unfolding EnsureObjectListLoaded_def
  by (intro hoare_bnd [OF hoare_gets [where Q = "\<lambda>_. True"]] hoare_if hoare_ret hoare_bnd [OF open_session_keeps]
        hoare_bnd [OF hoare_world_do [OF hoare_true]] hoare_schema_do)
     (auto simp: schema_ok_def add_listing_ok)

lemma DescribeJsonCached_keeps: "hoare (\<lambda>k. schema_ok (x_su X) (k_schema k)) (DescribeJsonCached X object) (\<lambda>_. True)"
  unfolding DescribeJsonCached_def Let_def
  by (intro hoare_bnd [OF hoare_gets [where Q = "\<lambda>_. True"]] hoare_option hoare_ret hoare_bnd [OF open_session_keeps]
        hoare_bnd [OF hoare_world_do [OF hoare_true]] hoare_bnd [OF hoare_schema_do [where Q = "\<lambda>_. True"]])
     (auto simp: schema_ok_def)

lemma schema_Scan_keeps: "hoare (\<lambda>k. schema_ok (x_su X) (k_schema k)) (schema_Scan X t) (\<lambda>_. True)"
  unfolding schema_Scan_def
  by (intro hoare_if hoare_ret hoare_bnd [OF EnsureObjectListLoaded_keeps] hoare_gets) auto

lemma refresh_ok: "schema_ok D se \<Longrightarrow> schema_ok D (schema_RefreshMetadata D object se)"
  by (auto simp: schema_ok_def schema_RefreshMetadata_def Let_def)

lemma reachable_ok:
  assumes "reachable X k"
  shows "schema_ok (x_su X) (k_schema k)"
  using assms
proof induction
  case (attach config tok k k')
  then show ?case by (auto simp: Initialize_def sfm_simps new_schema_def schema_ok_def)
next
  case (lookup k C t h object r k')
  from LookupEntry_ok [OF lookup.IH lookup.hyps(2)] show ?case by simp
next
  case (listing k t r2 k')
  from hoare_keeps [OF schema_Scan_keeps listing.IH listing.hyps(2)] show ?case .
next
  case (refresh k object)
  then show ?case by (simp add: refresh_ok)
next
  case (raw_describe k object r3 k')
  from hoare_keeps [OF DescribeJsonCached_keeps raw_describe.IH raw_describe.hyps(2)] show ?case .
next
  case (mutation k op r4 k')
  then show ?case by (simp add: Unsupported_def sfm_simps)
qed simp

text \<open>
  The caches of an attached catalog stay well formed. In every history of lookups, listings,
  refreshes, raw describes and refused mutations, under any settings and any answers of the server,
  every resolved table is filed under its lower-cased name, its columns are exactly the selectable
  fields, its NOT NULL columns exactly the non-nillable ones, its parent structs are nested at most
  two levels, and no object is listed twice.
\<close>

theorem catalog_invariant:
  assumes "reachable X k"
  shows "schema_ok (x_su X) (k_schema k)"
  using assms by (rule reachable_ok)

definition unattached :: "history catalog_world" where
  "unattached = \<lparr> k_world = sample_state, k_schema = new_schema empty_config \<lparr> access_token = [], instance_url = [] \<rparr>,
     k_rel = empty_rel_snapshot \<rparr>"

definition sample_catalog :: "history catalog_world" where
  "sample_catalog = snd (Initialize empty_config \<lparr> access_token = ''t'', instance_url = ''https://x'' \<rparr> unattached)"

lemma sample_reachable: "reachable X sample_catalog"
  by (rule attach [of empty_config "\<lparr> access_token = ''t'', instance_url = ''https://x'' \<rparr>" unattached])
     (simp add: sample_catalog_def Initialize_def sfm_simps)

theorem catalog_invariant_witness: "schema_ok (x_su history_external) (k_schema sample_catalog)"
  by (rule catalog_invariant [OF sample_reachable])

text \<open>
  One lookup of a table: in the state a successful lookup leaves, a lookup of the object in any
  letter case and under any settings returns the same table without a request and without touching
  the state; a lookup that fails caches nothing for the object, so the next one asks again. What
  holds over further operations is \<open>lookup_once_until_refresh\<close> in SF_Database.
\<close>

theorem lookup_describes_once:
  assumes "reachable X k" and "LookupEntry C X True True object k = (r, k')"
  shows "case r of
      Inl err \<Rightarrow> se_tables (k_schema k') (su_Lower (x_su X) object) = None
    | Inr None \<Rightarrow> False
    | Inr (Some e) \<Rightarrow> (\<forall>C' object'. su_Lower (x_su X) object' = su_Lower (x_su X) object \<longrightarrow>
        LookupEntry C' X True True object' k' = (Inr (Some e), k'))"
proof -
  have "schema_ok (x_su X) (k_schema k)"
    using assms(1) by (rule reachable_ok)
  from LookupEntry_ok [OF this assms(2)] show ?thesis
    by (auto simp: LookupEntry_hit split: sum.splits option.splits)
qed

theorem lookup_describes_once_witness:
  "case LookupEntry bare_context (static_server (\<lambda>_. ''{}'') history_external) True True ''Account'' sample_catalog of
     (r, k') \<Rightarrow> (case r of Inl err \<Rightarrow> se_tables (k_schema k') (su_Lower ascii_su ''Account'') = None
      | Inr None \<Rightarrow> False
      | Inr (Some e) \<Rightarrow> LookupEntry bare_context (static_server (\<lambda>_. ''{}'') history_external) True True ''ACCOUNT'' k'
          = (Inr (Some e), k'))"
proof -
  let ?X = "static_server (\<lambda>_. ''{}'') history_external"
  obtain r k' where e: "LookupEntry bare_context ?X True True ''Account'' sample_catalog = (r, k')" by fastforce
  have x: "x_su ?X = ascii_su" by (simp add: history_external_def)
  have l: "su_Lower ascii_su ''ACCOUNT'' = su_Lower ascii_su ''Account''" by code_simp
  from lookup_describes_once [OF sample_reachable e] l show ?thesis
    unfolding e x by (auto split: sum.splits option.splits)
qed

end
