(* ===== verification/SF_Functions.thy ===== *)
theory SF_Functions
  imports SF_Catalog
begin

text \<open>
  The table functions that run a query or a describe of their own: \<^verbatim>\<open>salesforce_query\<close>
  (\<^verbatim>\<open>salesforce_query.cpp\<close>), \<^verbatim>\<open>salesforce_describe\<close> (\<^verbatim>\<open>salesforce_describe.cpp\<close>) and the bind of
  \<^verbatim>\<open>salesforce_scan\<close> (\<^verbatim>\<open>salesforce_scan_user.cpp\<close>), whose scan is the catalog's. The attached
  catalogs are a parameter, as DuckDB looks them up; a named parameter is looked up by its name.
\<close>

section \<open>Query and describe\<close>

definition NamedParam :: "string_util \<Rightarrow> (string \<times> Value) list \<Rightarrow> string \<Rightarrow> string" where
  "NamedParam D params key =
     (case find (\<lambda>kv. su_CIEquals D (fst kv) key) params of Some kv \<Rightarrow> v_ToString (snd kv) | None \<Rightarrow> [])"

definition require_param :: "string \<Rightarrow> string \<Rightarrow> string \<Rightarrow> unit result" where
  "require_param fn v key =
     (if v = [] then Inl (BinderException (fn @ '': missing required named parameter '' @ [SQ] @ key @ [SQ])) else Inr ())"

text \<open>The configuration of a call, from its named parameters; the two binds share it up to the name.\<close>

definition call_config :: "string_util \<Rightarrow> string \<Rightarrow> string \<Rightarrow> (string \<times> Value) list \<Rightarrow> SalesforceConfig result" where
  "call_config D fn org_name params =
     (let login = NamedParam D params ''login_url''; ver = NamedParam D params ''api_version'';
          cfg = empty_config \<lparr> org := org_name, client_id := NamedParam D params ''client_id'',
            client_secret := NamedParam D params ''client_secret'', refresh_token := NamedParam D params ''refresh_token'',
            login_url := (if login = [] then kDefaultLoginUrl else login),
            api_version := (if ver = [] then kDefaultApiVersion else ver) \<rparr>
      in rbind (require_param fn (client_id cfg) ''client_id'') (\<lambda>_.
         rbind (require_param fn (client_secret cfg) ''client_secret'') (\<lambda>_.
         rbind (require_param fn (refresh_token cfg) ''refresh_token'') (\<lambda>_. Inr cfg))))"

definition QueryBind :: "'c external \<Rightarrow> Value list \<Rightarrow> (string \<times> Value) list \<Rightarrow> ('c, string list) sess" where
  "QueryBind X inputs params =
     (if inputs = [] then throw (BinderException ''salesforce_query(soql) requires the SOQL string as the first argument'')
      else bnd (of_result (call_config (x_su X) ''salesforce_query'' ''query'' params)) (\<lambda>cfg.
           bnd (session_do (\<lambda>_. new_session cfg)) (\<lambda>_.
           bnd (Authenticate X) (\<lambda>_.
           bnd (Query X (v_ToString (inputs ! 0))) (\<lambda>r. ret (fst r))))))"

definition query_row :: "nat \<times> string \<Rightarrow> cell list" where
  "query_row ir = [CBigint (int (fst ir)), CVarchar (snd ir)]"

definition QueryFunction :: "string list \<Rightarrow> nat \<Rightarrow> nat \<Rightarrow> cell list list \<times> nat" where
  "QueryFunction records = emit_rows query_row (enumerate 0 records)"

definition DescribeBind :: "'c external \<Rightarrow> Value list \<Rightarrow> (string \<times> Value) list \<Rightarrow> ('c, SalesforceDescribe) sess" where
  "DescribeBind X inputs params =
     (if inputs = [] then throw (BinderException ''salesforce_describe(object) requires the sObject name as the first argument'')
      else bnd (of_result (call_config (x_su X) ''salesforce_describe'' ''describe'' params)) (\<lambda>cfg.
           bnd (session_do (\<lambda>_. new_session cfg)) (\<lambda>_.
           bnd (Authenticate X) (\<lambda>_. Describe X (v_ToString (inputs ! 0))))))"

definition describe_row :: "duck_types \<Rightarrow> SalesforceField \<Rightarrow> cell list" where
  "describe_row K f =
     [CVarchar (f_name f), CVarchar (f_sf_type f), CVarchar (type_ToString K (f_duckdb_type f)), CBoolean (f_nillable f),
      CBigint (f_length f), CBigint (f_precision f), CBigint (f_scale f), CBoolean (f_filterable f),
      CBoolean (f_sortable f), CBoolean (f_unknown_type f)]"

definition DescribeFunction :: "duck_types \<Rightarrow> SalesforceDescribe \<Rightarrow> nat \<Rightarrow> nat \<Rightarrow> cell list list \<times> nat" where
  "DescribeFunction K describe = emit_rows (describe_row K) (d_fields describe)"

section \<open>The user scan\<close>

definition kMaxWhereArg :: nat where "kMaxWhereArg = 4000"

definition RejectUnsafeWhere :: "string_util \<Rightarrow> string \<Rightarrow> unit result" where
  "RejectUnsafeWhere D wh =
     (if length wh > kMaxWhereArg then Inl (BinderException
        (''salesforce_scan: where is too long (max 4000 chars) - narrow it or ''
         @ ''use a catalog table with plan pushdown.''))
      else if CHR '';'' \<in> set wh then Inl (BinderException (''salesforce_scan: where must not contain '' @ [SQ] @ '';'' @ [SQ] @ ''.''))
      else if su_Contains D (su_Upper D wh) ''SELECT''
      then Inl (BinderException ''salesforce_scan: where must not contain a nested SELECT.'')
      else Inr ())"

definition safe_object_name :: "string \<Rightarrow> bool" where
  "safe_object_name object \<longleftrightarrow> object \<noteq> [] \<and> list_all (\<lambda>c. isalnum c \<or> c = CHR ''_'') object"

definition given :: "(string \<Rightarrow> Value option) \<Rightarrow> string \<Rightarrow> Value option" where
  "given named key = (case named key of Some v \<Rightarrow> if v_IsNull v then None else Some v | None \<Rightarrow> None)"

definition scan_where_arg :: "string_util \<Rightarrow> (string \<Rightarrow> Value option) \<Rightarrow> string result" where
  "scan_where_arg D named =
     (case given named ''filter'' of
        None \<Rightarrow> Inr []
      | Some v \<Rightarrow> rbind (RejectUnsafeWhere D (v_ToString v)) (\<lambda>_. Inr (v_ToString v)))"

definition query_mode_arg :: "string_util \<Rightarrow> (string \<Rightarrow> Value option) \<Rightarrow> SalesforceConfig \<Rightarrow> SalesforceConfig result" where
  "query_mode_arg D named cfg =
     (case given named ''query_mode'' of
        None \<Rightarrow> Inr cfg
      | Some v \<Rightarrow>
          let m = su_Lower D (v_ToString v) in
          if m \<noteq> ''query'' \<and> m \<noteq> ''queryall'' then Inl (BinderException
            (''salesforce_scan: query_mode must be '' @ [SQ] @ ''query'' @ [SQ] @ '' or '' @ [SQ] @ ''queryAll'' @ [SQ]
             @ '' (got '' @ [SQ] @ v_ToString v @ [SQ] @ '').''))
          else Inr (cfg \<lparr> query_mode := (if m = ''queryall'' then ''queryAll'' else m) \<rparr>))"

definition transport_arg :: "string_util \<Rightarrow> (string \<Rightarrow> Value option) \<Rightarrow> SalesforceConfig \<Rightarrow> SalesforceConfig result" where
  "transport_arg D named cfg =
     (case given named ''transport'' of
        None \<Rightarrow> Inr cfg
      | Some v \<Rightarrow>
          let t = su_Lower D (v_ToString v) in
          if t \<noteq> ''rest'' \<and> t \<noteq> ''bulk'' \<and> t \<noteq> ''auto'' then Inl (BinderException
            (''salesforce_scan: transport must be '' @ [SQ] @ ''rest'' @ [SQ] @ '', '' @ [SQ] @ ''bulk'' @ [SQ] @ '' or ''
             @ [SQ] @ ''auto'' @ [SQ] @ '' (got '' @ [SQ] @ v_ToString v @ [SQ] @ '').''))
          else Inr (cfg \<lparr> transport := t \<rparr>))"

definition chunks_arg :: "(string \<Rightarrow> Value option) \<Rightarrow> SalesforceConfig \<Rightarrow> SalesforceConfig result" where
  "chunks_arg named cfg =
     (case given named ''chunks'' of
        None \<Rightarrow> Inr cfg
      | Some v \<Rightarrow>
          if v_IntGet v < 1 \<or> v_IntGet v > 8 then Inl (BinderException ''salesforce_scan: chunks must be between 1 and 8.'')
          else Inr (cfg \<lparr> bulk_chunks := v_IntGet v \<rparr>))"

definition user_bind_data ::
  "SalesforceConfig \<Rightarrow> SalesforceTokenSet \<Rightarrow> string \<Rightarrow> SalesforceDescribe \<Rightarrow> string \<Rightarrow> SalesforceScanBindData" where
  "user_bind_data cfg tok object describe wh =
     \<lparr> b_config = cfg, b_token = tok, b_object = object, b_fields = d_fields describe,
       b_column_names = map f_name (d_fields describe), b_column_types = map f_duckdb_type (d_fields describe),
       b_pushed_where = [], b_pushed_filter_count = 0, b_residual_filter_count = 0, b_catalog_alias = [],
       b_explain_filters = [], b_explain_captured = False, b_pushed_aggregates = [], b_raw_where = wh \<rparr>"

definition BuildUserScanBindData ::
  "(string \<Rightarrow> attached option) \<Rightarrow> 'c external \<Rightarrow> Value list \<Rightarrow> (string \<Rightarrow> Value option) \<Rightarrow> ('c, SalesforceScanBindData) sess" where
  "BuildUserScanBindData A X inputs named =
     (let D = x_su X in
      if length inputs \<noteq> 2 then throw (BinderException
        (''salesforce_scan(catalog, object) takes exactly 2 arguments ''
         @ ''(where/query_mode/transport/chunks are named parameters).''))
      else if list_ex v_IsNull inputs then throw (BinderException ''salesforce_scan: arguments must not be NULL.'')
      else let alias = su_Lower D (v_ToString (inputs ! 0)); object = su_Upper D (v_ToString (inputs ! 1)) in
        if \<not> safe_object_name object
        then throw (BinderException (''salesforce_scan: '' @ [SQ] @ object @ [SQ] @ '' is not a valid sObject name.''))
        else bnd (of_result (scan_where_arg D named)) (\<lambda>wh.
             bnd (of_result (GetSalesforceCatalogCredentials A alias)) (\<lambda>ct.
             bnd (of_result (rbind (query_mode_arg D named (fst ct)) (\<lambda>c1.
                             rbind (transport_arg D named c1) (chunks_arg named)))) (\<lambda>cfg.
             bnd (session_do (\<lambda>_. SetToken (snd ct) (new_session cfg))) (\<lambda>_.
             bnd (Describe X object) (\<lambda>describe. ret (user_bind_data cfg (snd ct) object describe wh)))))))"

section \<open>Properties\<close>

interpretation query: row_cursor "QueryFunction records" "\<lambda>cursor. map query_row (drop cursor (enumerate 0 records))" for records
  unfolding QueryFunction_def by (rule list_cursor.row_cursor_axioms)

interpretation describe: row_cursor "DescribeFunction K d" "\<lambda>cursor. map (describe_row K) (drop cursor (d_fields d))" for K d
  unfolding DescribeFunction_def by (rule list_cursor.row_cursor_axioms)

text \<open>What a user scan may carry: a checked name, a checked filter and overrides in range.\<close>

definition user_scan_ok :: "string_util \<Rightarrow> SalesforceScanBindData \<Rightarrow> bool" where
  "user_scan_ok D b \<longleftrightarrow> safe_object_name (b_object b) \<and> length (b_raw_where b) \<le> 4000 \<and> CHR '';'' \<notin> set (b_raw_where b) \<and>
     (b_raw_where b = [] \<or> \<not> su_Contains D (su_Upper D (b_raw_where b)) ''SELECT'') \<and>
     b_pushed_where b = [] \<and> list_all (\<lambda>f. \<not> f_is_relationship f) (b_fields b) \<and>
     map f_name (b_fields b) = b_column_names b \<and> map f_duckdb_type (b_fields b) = b_column_types b"

definition override_ok :: "(string \<Rightarrow> Value option) \<Rightarrow> SalesforceConfig \<Rightarrow> SalesforceConfig \<Rightarrow> bool" where
  "override_ok named base cfg \<longleftrightarrow>
     (if given named ''query_mode'' = None then query_mode cfg = query_mode base else query_mode cfg \<in> {''query'', ''queryAll''}) \<and>
     (if given named ''transport'' = None then transport cfg = transport base else transport cfg \<in> {''rest'', ''bulk'', ''auto''}) \<and>
     (if given named ''chunks'' = None then bulk_chunks cfg = bulk_chunks base else 1 \<le> bulk_chunks cfg \<and> bulk_chunks cfg \<le> 8)"

lemma scan_where_arg_ok:
  "scan_where_arg D named = Inr wh \<Longrightarrow> length wh \<le> 4000 \<and> CHR '';'' \<notin> set wh \<and>
     (wh = [] \<or> \<not> su_Contains D (su_Upper D wh) ''SELECT'')"
  by (auto simp: scan_where_arg_def RejectUnsafeWhere_def kMaxWhereArg_def rbind_def split: option.splits if_splits sum.splits)

lemma overrides_ok:
  assumes "rbind (query_mode_arg D named base) (\<lambda>c1. rbind (transport_arg D named c1) (chunks_arg named)) = Inr cfg"
  shows "override_ok named base cfg"
proof -
  from assms obtain c1 c2 where c: "query_mode_arg D named base = Inr c1" "transport_arg D named c1 = Inr c2"
    "chunks_arg named c2 = Inr cfg"
    by (auto simp: rbind_def split: sum.splits)
  from c(1) have 1: "(if given named ''query_mode'' = None then query_mode c1 = query_mode base
      else query_mode c1 \<in> {''query'', ''queryAll''}) \<and> transport c1 = transport base \<and> bulk_chunks c1 = bulk_chunks base"
    by (auto simp: query_mode_arg_def Let_def split: option.splits if_splits)
  from c(2) have 2: "(if given named ''transport'' = None then transport c2 = transport c1
      else transport c2 \<in> {''rest'', ''bulk'', ''auto''}) \<and> query_mode c2 = query_mode c1 \<and> bulk_chunks c2 = bulk_chunks c1"
    by (auto simp: transport_arg_def Let_def split: option.splits if_splits)
  from c(3) have 3: "(if given named ''chunks'' = None then bulk_chunks cfg = bulk_chunks c2
      else 1 \<le> bulk_chunks cfg \<and> bulk_chunks cfg \<le> 8) \<and> query_mode cfg = query_mode c2 \<and> transport cfg = transport c2"
    by (auto simp: chunks_arg_def split: option.splits if_splits)
  from 1 2 3 show ?thesis by (auto simp: override_ok_def split: if_splits)
qed

text \<open>
  C28: a user scan is safe to run. Whatever the arguments, a bound \<^verbatim>\<open>salesforce_scan\<close> names an
  alphanumeric object, carries a filter without separators and without a nested SELECT and of
  bounded length, has the flat fields of the describe as its columns, and overrides the catalog's
  configuration only with valid values; it only binds on an attached Salesforce catalog.
\<close>

theorem user_scan_bind_safe:
  assumes "BuildUserScanBindData A X inputs named s = (Inr b, s')"
  shows "user_scan_ok (x_su X) b \<and>
    (\<exists>c. A (su_Lower (x_su X) (v_ToString (inputs ! 0))) = Some c \<and> at_type c = ''salesforce'' \<and>
         b_token b = at_token c \<and> override_ok named (at_config c) (b_config b))"
proof -
  let ?al = "su_Lower (x_su X) (v_ToString (inputs ! 0))" and ?object = "su_Upper (x_su X) (v_ToString (inputs ! 1))"
  from assms obtain wh ct cfg d s1 s2 where
    p: "safe_object_name ?object" "scan_where_arg (x_su X) named = Inr wh"
      "GetSalesforceCatalogCredentials A ?al = Inr ct"
      "rbind (query_mode_arg (x_su X) named (fst ct)) (\<lambda>c1. rbind (transport_arg (x_su X) named c1) (chunks_arg named)) = Inr cfg"
      "Describe X ?object s1 = (Inr d, s2)" "b = user_bind_data cfg (snd ct) ?object d wh"
    unfolding BuildUserScanBindData_def Let_def
    by (auto simp: bnd_run sfm_run sess_run split: if_splits sum.splits prod.splits)
  from p(3) obtain c where c: "A ?al = Some c" "at_type c = ''salesforce''" "ct = (at_config c, at_token c)"
    by (auto simp: GetSalesforceCatalogCredentials_def split: option.splits if_splits)
  from hoare_returns [OF Describe_named TrueI p(5)] have "flat_describe d" by simp
  with p(1,6) scan_where_arg_ok [OF p(2)] have "user_scan_ok (x_su X) b"
    by (simp add: user_scan_ok_def user_bind_data_def flat_describe_def list_all_iff)
  moreover from overrides_ok [OF p(4)] c p(6) have "override_ok named (at_config c) (b_config b)" "b_token b = at_token c"
    by (simp_all add: user_bind_data_def)
  ultimately show ?thesis using c by blast
qed

definition sample_attached :: "string \<Rightarrow> attached option" where
  "sample_attached alias = (if alias = ''sf'' then Some \<lparr> at_type = ''salesforce'', at_config = empty_config,
     at_token = \<lparr> access_token = ''t'', instance_url = ''https://x'' \<rparr> \<rparr> else None)"

definition sample_args :: "Value list" where
  "sample_args = [varchar_option ''SF'', varchar_option ''Account'']"

theorem user_scan_bind_safe_witness:
  "case BuildUserScanBindData sample_attached (static_server (\<lambda>_. ''{}'') history_external) sample_args (\<lambda>_. None) sample_state of
     (Inr b, s') \<Rightarrow> b_object b = ''ACCOUNT'' \<and> user_scan_ok ascii_su b
   | _ \<Rightarrow> False"
proof -
  let ?X = "static_server (\<lambda>_. ''{}'') history_external"
  have "case BuildUserScanBindData sample_attached ?X sample_args (\<lambda>_. None) sample_state of
     (Inr b, s') \<Rightarrow> b_object b = ''ACCOUNT'' | _ \<Rightarrow> False" by code_simp
  then obtain b s' where b: "BuildUserScanBindData sample_attached ?X sample_args (\<lambda>_. None) sample_state = (Inr b, s')"
    "b_object b = ''ACCOUNT''"
    by (cases "BuildUserScanBindData sample_attached ?X sample_args (\<lambda>_. None) sample_state", cases "fst (BuildUserScanBindData
      sample_attached ?X sample_args (\<lambda>_. None) sample_state)") simp_all
  have x: "x_su ?X = ascii_su" by (simp add: history_external_def)
  from user_scan_bind_safe [OF b(1)] b(2) show ?thesis unfolding b(1) x by simp
qed

end
