(* ===== verification/SF_Meta.thy ===== *)
theory SF_Meta
  imports SF_Functions
begin

text \<open>
  The metadata functions over the cached describe (\<^verbatim>\<open>salesforce_metadata.cpp\<close> and
  \<^verbatim>\<open>GetSalesforceObjectDescribeJson\<close> of \<^verbatim>\<open>salesforce_storage.cpp\<close>): picklist values and record types.
  The state is that of the catalog the alias names.
\<close>

section \<open>Arguments\<close>

definition CheckArgs :: "Value list \<Rightarrow> nat \<Rightarrow> string \<Rightarrow> unit result" where
  "CheckArgs inputs n usage =
     (if length inputs \<noteq> n then Inl (BinderException usage)
      else (case find (\<lambda>i. v_IsNull (inputs ! i)) [0..<n] of
              Some i \<Rightarrow> Inl (BinderException (''salesforce metadata: argument '' @ show_nat (i + 1) @ '' must not be NULL.''))
            | None \<Rightarrow> Inr ()))"

definition TrimArg :: "string_util \<Rightarrow> Value \<Rightarrow> string" where
  "TrimArg D v = Trimmed D (v_ToString v)"

record PicklistBindData =
  pk_alias :: string
  pk_object :: string
  pk_field :: string

record RecordTypesBindData =
  rt_alias :: string
  rt_object :: string

definition PicklistBind :: "string_util \<Rightarrow> Value list \<Rightarrow> PicklistBindData result" where
  "PicklistBind D inputs =
     rbind (CheckArgs inputs 3 ''salesforce_picklist_values(catalog, object, field) takes 3 arguments.'') (\<lambda>_.
     Inr \<lparr> pk_alias = TrimArg D (inputs ! 0), pk_object = TrimArg D (inputs ! 1), pk_field = TrimArg D (inputs ! 2) \<rparr>)"

definition RecordTypesBind :: "string_util \<Rightarrow> Value list \<Rightarrow> RecordTypesBindData result" where
  "RecordTypesBind D inputs =
     rbind (CheckArgs inputs 2 ''salesforce_record_types(catalog, object) takes 2 arguments.'') (\<lambda>_.
     Inr \<lparr> rt_alias = TrimArg D (inputs ! 0), rt_object = TrimArg D (inputs ! 1) \<rparr>)"

section \<open>The describe of an attached catalog\<close>

definition GetSalesforceObjectDescribeJson ::
  "(string \<Rightarrow> attached option) \<Rightarrow> 'c external \<Rightarrow> string \<Rightarrow> string \<Rightarrow> ('c, string) cat" where
  "GetSalesforceObjectDescribeJson A X alias object =
     (case A alias of
        None \<Rightarrow> throw (BinderException (''salesforce metadata: no attached catalog named '' @ [SQ] @ alias @ [SQ] @ '' ''
                  @ emdash @ '' ATTACH a Salesforce org first, then pass its alias.''))
      | Some c \<Rightarrow>
          if at_type c \<noteq> ''salesforce''
          then throw (BinderException (''salesforce metadata: catalog '' @ [SQ] @ alias @ [SQ] @ '' is not a Salesforce catalog.''))
          else DescribeJsonCached X object)"

section \<open>Rows\<close>

definition picklist_row :: "string \<Rightarrow> cell list" where
  "picklist_row pv = [CVarchar (GetString pv ''value''), CVarchar (GetString pv ''label''),
     CBoolean (GetBool pv ''active'' True), CBoolean (GetBool pv ''defaultValue'' False)]"

definition record_type_row :: "string \<Rightarrow> cell list" where
  "record_type_row rt = [CVarchar (GetString rt ''developerName''), CVarchar (GetString rt ''name''),
     CVarchar (GetString rt ''recordTypeId''), CBoolean (GetBool rt ''active'' True),
     CBoolean (GetBool rt ''defaultRecordTypeMapping'' False)]"

definition PicklistBuild ::
  "(string \<Rightarrow> attached option) \<Rightarrow> 'c external \<Rightarrow> PicklistBindData \<Rightarrow> ('c, cell list list) cat" where
  "PicklistBuild A X b =
     bnd (GetSalesforceObjectDescribeJson A X (pk_alias b) (pk_object b)) (\<lambda>describe.
     case find (\<lambda>f. su_CIEquals (x_su X) (GetString f ''name'') (pk_field b)) (GetObjectArray describe ''fields'') of
       None \<Rightarrow> throw (BinderException (''salesforce_picklist_values: field '' @ [SQ] @ pk_field b @ [SQ]
                 @ '' not found on object '' @ [SQ] @ pk_object b @ [SQ] @ ''.''))
     | Some f \<Rightarrow> ret (map picklist_row (GetObjectArray f ''picklistValues'')))"

definition RecordTypesBuild ::
  "(string \<Rightarrow> attached option) \<Rightarrow> 'c external \<Rightarrow> RecordTypesBindData \<Rightarrow> ('c, cell list list) cat" where
  "RecordTypesBuild A X b =
     bnd (GetSalesforceObjectDescribeJson A X (rt_alias b) (rt_object b)) (\<lambda>describe.
     ret (map record_type_row (GetObjectArray describe ''recordTypeInfos'')))"

record MetaGlobalState =
  mg_built :: bool
  mg_rows :: "cell list list"
  mg_cursor :: nat

definition MetaInit :: MetaGlobalState where
  "MetaInit = \<lparr> mg_built = False, mg_rows = [], mg_cursor = 0 \<rparr>"

definition emit_meta :: "MetaGlobalState \<Rightarrow> nat \<Rightarrow> nat \<Rightarrow> cell list list \<times> nat" where
  "emit_meta g = emit_rows (\<lambda>r. r) (mg_rows g)"

definition MetaFunction ::
  "('c, cell list list) cat \<Rightarrow> nat \<Rightarrow> MetaGlobalState \<Rightarrow> ('c, cell list list \<times> MetaGlobalState) cat" where
  "MetaFunction build vector_size g =
     bnd (if mg_built g then ret g
          else bnd build (\<lambda>rows. ret (g \<lparr> mg_rows := mg_rows g @ rows, mg_built := True \<rparr>))) (\<lambda>g1.
     case emit_meta g1 vector_size (mg_cursor g1) of (rows, c) \<Rightarrow> ret (rows, g1 \<lparr> mg_cursor := c \<rparr>))"

interpretation meta: row_cursor "emit_meta g" "\<lambda>cursor. map (\<lambda>r. r) (drop cursor (mg_rows g))" for g
  unfolding emit_meta_def by (rule list_cursor.row_cursor_axioms)

section \<open>One describe per object\<close>

lemma DescribeJsonCached_hit:
  "se_describe_json (k_schema k) (su_Lower (x_su X) object) = Some bd \<Longrightarrow> DescribeJsonCached X object k = (Inr bd, k)"
  by (simp add: DescribeJsonCached_def Let_def sfm_simps)

lemma DescribeJsonCached_stores:
  assumes "DescribeJsonCached X object k = (Inr bd, k')"
  shows "se_describe_json (k_schema k') (su_Lower (x_su X) object) = Some bd"
proof (cases "se_describe_json (k_schema k) (su_Lower (x_su X) object)")
  case (Some b)
  with assms DescribeJsonCached_hit [OF Some] show ?thesis by simp
next
  case None
  with assms show ?thesis
    by (auto simp: DescribeJsonCached_def Let_def sfm_run bnd_run cat_run split: prod.splits sum.splits)
qed

lemma describe_parts:
  assumes "GetSalesforceObjectDescribeJson A X alias object k = (Inr bd, k')"
  shows "DescribeJsonCached X object k = (Inr bd, k') \<and> (\<exists>c. A alias = Some c \<and> at_type c = ''salesforce'')"
  using assms by (auto simp: GetSalesforceObjectDescribeJson_def sfm_run split: option.splits if_splits)

text \<open>
  One describe serves the metadata functions. Once the picklist values of a field have been
  listed, the record types of the same object, named in any case, come from the describe that was
  cached: no request, no change of any state; and they are all its record types, in order.
\<close>

theorem record_types_from_cache:
  assumes "PicklistBuild A X b k = (Inr rows, k')" and "su_Lower (x_su X) (rt_object r) = su_Lower (x_su X) (pk_object b)"
    and "rt_alias r = pk_alias b"
  shows "\<exists>describe f. RecordTypesBuild A X r k' = (Inr (map record_type_row (GetObjectArray describe ''recordTypeInfos'')), k') \<and>
    f \<in> set (GetObjectArray describe ''fields'') \<and> su_CIEquals (x_su X) (GetString f ''name'') (pk_field b) \<and>
    rows = map picklist_row (GetObjectArray f ''picklistValues'')"
proof -
  from assms(1) obtain bd where d: "GetSalesforceObjectDescribeJson A X (pk_alias b) (pk_object b) k = (Inr bd, k')"
    and f: "\<exists>f. find (\<lambda>f. su_CIEquals (x_su X) (GetString f ''name'') (pk_field b)) (GetObjectArray bd ''fields'') = Some f \<and>
      rows = map picklist_row (GetObjectArray f ''picklistValues'')"
    by (auto simp: PicklistBuild_def bnd_run sfm_run split: prod.splits sum.splits option.splits)
  from describe_parts [OF d] obtain c where c: "DescribeJsonCached X (pk_object b) k = (Inr bd, k')"
    "A (pk_alias b) = Some c" "at_type c = ''salesforce''" by blast
  from DescribeJsonCached_hit [of k' X "rt_object r"] DescribeJsonCached_stores [OF c(1)] assms(2)
  have "DescribeJsonCached X (rt_object r) k' = (Inr bd, k')" by simp
  with c assms(3) have "RecordTypesBuild A X r k' = (Inr (map record_type_row (GetObjectArray bd ''recordTypeInfos'')), k')"
    by (simp add: RecordTypesBuild_def GetSalesforceObjectDescribeJson_def bnd_run sfm_run)
  moreover from f obtain f where ff: "find (\<lambda>f. su_CIEquals (x_su X) (GetString f ''name'') (pk_field b)) (GetObjectArray bd ''fields'') = Some f"
    "rows = map picklist_row (GetObjectArray f ''picklistValues'')" by blast
  moreover from ff(1) have "f \<in> set (GetObjectArray bd ''fields'') \<and> su_CIEquals (x_su X) (GetString f ''name'') (pk_field b)"
    by (auto simp: find_Some_iff)
  ultimately show ?thesis by (intro exI [of _ bd] exI [of _ f]) simp
qed

definition picklist_content :: string where
  "picklist_content = print_json (JObj [(''fields'', JArr [JObj [(''name'', JStr ''Stage''),
       (''picklistValues'', JArr [JObj [(''value'', JStr ''Won''), (''label'', JStr ''W'')]])]]),
     (''recordTypeInfos'', JArr [JObj [(''developerName'', JStr ''Main''), (''name'', JStr ''M''), (''recordTypeId'', JStr ''012'')]])])"

abbreviation picklist_server :: "history external" where
  "picklist_server \<equiv> static_server (\<lambda>_. picklist_content) history_external"

definition sample_picklist :: PicklistBindData where
  "sample_picklist = \<lparr> pk_alias = ''sf'', pk_object = ''Deal'', pk_field = ''stage'' \<rparr>"

theorem record_types_from_cache_witness:
  "case PicklistBuild sample_attached picklist_server sample_picklist sample_catalog of
     (Inr rows, k') \<Rightarrow> rows = [[CVarchar ''Won'', CVarchar ''W'', CBoolean True, CBoolean False]] \<and>
       snd (RecordTypesBuild sample_attached picklist_server \<lparr> rt_alias = ''sf'', rt_object = ''DEAL'' \<rparr> k') = k'
   | _ \<Rightarrow> False"
proof -
  let ?m = "PicklistBuild sample_attached picklist_server sample_picklist sample_catalog"
  have "case fst ?m of Inr rows \<Rightarrow> rows = [[CVarchar ''Won'', CVarchar ''W'', CBoolean True, CBoolean False]] | _ \<Rightarrow> False"
    by code_simp
  then obtain k' where m: "?m = (Inr [[CVarchar ''Won'', CVarchar ''W'', CBoolean True, CBoolean False]], k')"
    by (cases ?m) (auto split: sum.splits)
  have x: "x_su picklist_server = ascii_su" by (simp add: history_external_def)
  have l: "su_Lower (x_su picklist_server) (rt_object \<lparr> rt_alias = ''sf'', rt_object = ''DEAL'' \<rparr>)
      = su_Lower (x_su picklist_server) (pk_object sample_picklist)"
    unfolding x by code_simp
  have a: "rt_alias \<lparr> rt_alias = ''sf'', rt_object = ''DEAL'' \<rparr> = pk_alias sample_picklist" by (simp add: sample_picklist_def)
  from record_types_from_cache [OF m l a] show ?thesis unfolding m by auto
qed

end
