(* ===== verification/SF_MetaEngine.thy ===== *)
theory SF_MetaEngine
  imports SF_Meta
begin

text \<open>
  The metadata engine (\<^verbatim>\<open>salesforce_metadata_engine.cpp\<close>): the per-catalog cache of Describe Global and
  of object describes, the resolution of report tokens and relationships, and the field and
  object listings; with \<^verbatim>\<open>RefreshMetadata\<close>, \<^verbatim>\<open>GetMetadataEngine\<close> and
  \<^verbatim>\<open>GetSalesforceCatalogMetadataEngine\<close> of \<^verbatim>\<open>salesforce_storage.cpp\<close>.

  The engine keeps one session for all its requests until a refresh, so a token renewed by one
  request serves the next. A reference into the cache stays valid while the cache grows
  (\<^verbatim>\<open>unordered_map\<close>), so the loops over a cached describe read the value found at their start.
\<close>

section \<open>State\<close>

record SalesforceMetadataEngine =
  me_config :: SalesforceConfig
  me_token :: SalesforceTokenSet
  me_session :: "SalesforceSession option"
  me_global_loaded :: bool
  me_global_infos :: "SalesforceObjectInfo list"
  me_global_objects :: "string list"
  me_describe :: "string \<rightharpoonup> SalesforceDescribe"

definition new_engine :: "SalesforceConfig \<Rightarrow> SalesforceTokenSet \<Rightarrow> SalesforceMetadataEngine" where
  "new_engine config tok = \<lparr> me_config = config, me_token = tok, me_session = None, me_global_loaded = False,
     me_global_infos = [], me_global_objects = [], me_describe = (\<lambda>_. None) \<rparr>"

record 'c engine_world =
  ew_world :: "'c sworld"
  ew_engine :: SalesforceMetadataEngine

type_synonym ('c, 'a) eng = "('c engine_world, 'a) sfm"

definition engine_do :: "(SalesforceMetadataEngine \<Rightarrow> SalesforceMetadataEngine) \<Rightarrow> ('c, unit) eng" where
  "engine_do f = upd (\<lambda>s. s \<lparr> ew_engine := f (ew_engine s) \<rparr>)"

definition eng_globals_do :: "(globals \<Rightarrow> globals) \<Rightarrow> ('c, unit) eng" where
  "eng_globals_do f = upd (\<lambda>s. s \<lparr> ew_world := (ew_world s) \<lparr> w_globals := f (w_globals (ew_world s)) \<rparr> \<rparr>)"

text \<open>\<^verbatim>\<open>Session(context)\<close>: the session of the engine, built on first use, and a request made with it.\<close>

definition engine_session :: "SalesforceMetadataEngine \<Rightarrow> SalesforceSession" where
  "engine_session e = (case me_session e of Some ss \<Rightarrow> ss | None \<Rightarrow> SetToken (me_token e) (new_session (me_config e)))"

definition with_session :: "('c, 'a) sess \<Rightarrow> ('c, 'a) eng" where
  "with_session m = (\<lambda>s. case m ((ew_world s) \<lparr> w_session := engine_session (ew_engine s) \<rparr>) of
     (r, w) \<Rightarrow> (r, s \<lparr> ew_world := w, ew_engine := (ew_engine s) \<lparr> me_session := Some (w_session w) \<rparr> \<rparr>))"

lemma eng_run [sfm_simps]:
  "engine_do f s = (Inr (), s \<lparr> ew_engine := f (ew_engine s) \<rparr>)"
  "eng_globals_do h s = (Inr (), s \<lparr> ew_world := (ew_world s) \<lparr> w_globals := h (w_globals (ew_world s)) \<rparr> \<rparr>)"
  "with_session m s = (case m ((ew_world s) \<lparr> w_session := engine_session (ew_engine s) \<rparr>) of
     (r, w) \<Rightarrow> (r, s \<lparr> ew_world := w, ew_engine := (ew_engine s) \<lparr> me_session := Some (w_session w) \<rparr> \<rparr>))"
  by (simp_all add: engine_do_def eng_globals_do_def with_session_def sfm_run)

section \<open>The cache\<close>

definition queryable_names :: "SalesforceObjectInfo list \<Rightarrow> string list" where
  "queryable_names infos = map oi_name (filter oi_queryable infos)"

definition EnsureGlobalLoaded :: "'c external \<Rightarrow> ('c, unit) eng" where
  "EnsureGlobalLoaded X =
     bnd (gets (\<lambda>s. me_global_loaded (ew_engine s))) (\<lambda>loaded.
     if loaded then ret ()
     else bnd (eng_globals_do IncGlobalDescribeCalls) (\<lambda>_.
          bnd (with_session (GlobalDescribeInfos X)) (\<lambda>infos.
          engine_do (\<lambda>e. e \<lparr> me_global_infos := infos, me_global_objects := queryable_names infos,
                             me_global_loaded := True \<rparr>))))"

definition GetGlobalObjects :: "'c external \<Rightarrow> ('c, string list) eng" where
  "GetGlobalObjects X = bnd (EnsureGlobalLoaded X) (\<lambda>_. gets (\<lambda>s. me_global_objects (ew_engine s)))"

definition GetGlobalObjectInfos :: "'c external \<Rightarrow> ('c, SalesforceObjectInfo list) eng" where
  "GetGlobalObjectInfos X = bnd (EnsureGlobalLoaded X) (\<lambda>_. gets (\<lambda>s. me_global_infos (ew_engine s)))"

definition GetObjectDescribe :: "'c external \<Rightarrow> string \<Rightarrow> ('c, SalesforceDescribe) eng" where
  "GetObjectDescribe X object =
     (let key = su_Lower (x_su X) object in
      bnd (gets (\<lambda>s. me_describe (ew_engine s) key)) (\<lambda>hit.
      case hit of
        Some d \<Rightarrow> ret d
      | None \<Rightarrow>
          bnd (eng_globals_do IncDescribeCalls) (\<lambda>_.
          bnd (with_session (Describe X object)) (\<lambda>d.
          bnd (engine_do (\<lambda>e. e \<lparr> me_describe := put_new key d (me_describe e) \<rparr>)) (\<lambda>_. ret d)))))"

definition IsQueryable :: "'c external \<Rightarrow> string \<Rightarrow> ('c, bool) eng" where
  "IsQueryable X object =
     bnd (GetGlobalObjects X) (\<lambda>names. ret (list_ex (\<lambda>n. su_CIEquals (x_su X) n object) names))"

section \<open>Resolution\<close>

definition builtin_report_tokens :: "(string \<times> string) list" where
  "builtin_report_tokens = [(''ID'', ''Id''), (''NAME'', ''Name''), (''FIRST_NAME'', ''FirstName''),
     (''LAST_NAME'', ''LastName''), (''EMAIL'', ''Email''), (''PHONE'', ''Phone''), (''CREATED_DATE'', ''CreatedDate'')]"

definition BuiltinReportToken :: "string_util \<Rightarrow> string \<Rightarrow> string" where
  "BuiltinReportToken D token =
     (case find (\<lambda>m. su_CIEquals D token (fst m)) builtin_report_tokens of Some m \<Rightarrow> snd m | None \<Rightarrow> [])"

fun snake_loop :: "bool \<Rightarrow> string \<Rightarrow> string" where
  "snake_loop start [] = []"
| "snake_loop start (c # cs) =
     (if c = CHR ''_'' then snake_loop True cs
      else (if start then toupper c else tolower c) # snake_loop False cs)"

definition NormalizeSnakeToken :: "string \<Rightarrow> string" where
  "NormalizeSnakeToken token = snake_loop True token"

definition token_candidates :: "string_util \<Rightarrow> string \<Rightarrow> string list" where
  "token_candidates D token =
     [token] @ (if BuiltinReportToken D token = [] then [] else [BuiltinReportToken D token]) @ [NormalizeSnakeToken token]"

definition field_named :: "string_util \<Rightarrow> SalesforceField list \<Rightarrow> string \<Rightarrow> SalesforceField option" where
  "field_named D flds c = find (\<lambda>fld. su_Lower D (f_name fld) = su_Lower D c) flds"

fun first_field :: "string_util \<Rightarrow> SalesforceField list \<Rightarrow> string list \<Rightarrow> SalesforceField option" where
  "first_field D flds [] = None"
| "first_field D flds (c # cs) =
     (case field_named D flds c of Some fld \<Rightarrow> Some fld | None \<Rightarrow> first_field D flds cs)"

text \<open>The out-parameters of a successful resolution are its value.\<close>

definition ResolveField :: "'c external \<Rightarrow> string \<Rightarrow> string \<Rightarrow> ('c, (string \<times> bool) option) eng" where
  "ResolveField X object token =
     bnd (GetObjectDescribe X object) (\<lambda>desc.
     ret (map_option (\<lambda>fld. (f_name fld, f_filterable fld))
            (first_field (x_su X) (d_fields desc) (token_candidates (x_su X) token))))"

definition relationship_named :: "string_util \<Rightarrow> SalesforceField list \<Rightarrow> string \<Rightarrow> SalesforceField option" where
  "relationship_named D flds rel =
     find (\<lambda>fld. f_relationship_name fld \<noteq> [] \<and> su_CIEquals D (f_relationship_name fld) rel) flds"

definition ResolveRelationship :: "'c external \<Rightarrow> string \<Rightarrow> string \<Rightarrow> ('c, (string \<times> string) option) eng" where
  "ResolveRelationship X object rel =
     bnd (GetObjectDescribe X object) (\<lambda>desc.
     case relationship_named (x_su X) (d_fields desc) rel of
       None \<Rightarrow> ret None
     | Some fld \<Rightarrow>
         if length (f_reference_to fld) \<noteq> 1 then ret None
         else bnd (IsQueryable X (f_reference_to fld ! 0)) (\<lambda>q.
              ret (if q then Some (f_reference_to fld ! 0, f_relationship_name fld) else None)))"

section \<open>Refresh\<close>

definition engine_Refresh :: "string_util \<Rightarrow> string \<Rightarrow> SalesforceMetadataEngine \<Rightarrow> SalesforceMetadataEngine" where
  "engine_Refresh D object e = e \<lparr> me_describe := (me_describe e)(su_Lower D object := None), me_session := None \<rparr>"

definition RefreshAll :: "SalesforceMetadataEngine \<Rightarrow> SalesforceMetadataEngine" where
  "RefreshAll e = e \<lparr> me_global_loaded := False, me_global_infos := [], me_global_objects := [], me_describe := (\<lambda>_. None),
     me_session := None \<rparr>"

text \<open>The caches of a catalog: its schema, and its engine once something asked for it.\<close>

record catalog_caches =
  cc_config :: SalesforceConfig
  cc_token :: SalesforceTokenSet
  cc_schema :: "schema_entry option"
  cc_engine :: "SalesforceMetadataEngine option"

definition catalog_RefreshMetadata :: "string_util \<Rightarrow> string \<Rightarrow> catalog_caches \<Rightarrow> catalog_caches" where
  "catalog_RefreshMetadata D object c =
     c \<lparr> cc_schema := map_option (schema_RefreshMetadata D object) (cc_schema c),
         cc_engine := map_option (if object = [] then RefreshAll else engine_Refresh D object) (cc_engine c) \<rparr>"

definition GetMetadataEngine :: "catalog_caches \<Rightarrow> SalesforceMetadataEngine \<times> catalog_caches" where
  "GetMetadataEngine c =
     (case cc_engine c of
        Some e \<Rightarrow> (e, c)
      | None \<Rightarrow> let e = new_engine (cc_config c) (cc_token c) in (e, c \<lparr> cc_engine := Some e \<rparr>))"

definition no_catalog :: "string \<Rightarrow> string \<Rightarrow> sf_error" where
  "no_catalog pre alias = BinderException (pre @ ''no attached catalog named '' @ [SQ] @ alias @ [SQ] @ '' '' @ emdash
     @ '' ATTACH a Salesforce org first, then pass its alias.'')"

definition not_salesforce :: "string \<Rightarrow> string \<Rightarrow> sf_error" where
  "not_salesforce pre alias = BinderException (pre @ ''catalog '' @ [SQ] @ alias @ [SQ] @ '' is not a Salesforce catalog.'')"

text \<open>
  The lookup of the engine by alias checks the alias; the engine itself is the one in the state,
  which is that of the catalog the alias names.
\<close>

definition GetSalesforceCatalogMetadataEngine :: "(string \<Rightarrow> attached option) \<Rightarrow> string \<Rightarrow> unit result" where
  "GetSalesforceCatalogMetadataEngine A alias =
     (case A alias of
        None \<Rightarrow> Inl (no_catalog [] alias)
      | Some c \<Rightarrow> if at_type c \<noteq> ''salesforce'' then Inl (not_salesforce [] alias) else Inr ())"

definition RefreshSalesforceCatalogMetadata ::
  "(string \<Rightarrow> attached option) \<Rightarrow> string_util \<Rightarrow> string \<Rightarrow> string \<Rightarrow> (catalog_caches, unit) sfm" where
  "RefreshSalesforceCatalogMetadata A D alias object =
     (case A alias of
        None \<Rightarrow> throw (no_catalog ''salesforce_refresh_metadata: '' alias)
      | Some c \<Rightarrow>
          if at_type c \<noteq> ''salesforce'' then throw (not_salesforce ''salesforce_refresh_metadata: '' alias)
          else upd (catalog_RefreshMetadata D object))"

record RefreshMetadataBindData =
  rm_alias :: string
  rm_object :: string

definition RefreshMetadataBind :: "string_util \<Rightarrow> Value list \<Rightarrow> RefreshMetadataBindData result" where
  "RefreshMetadataBind D args =
     (if length args < 1 \<or> length args > 2 then
        Inl (BinderException ''salesforce_refresh_metadata(catalog [, object]) takes 1 or 2 arguments.'')
      else (case find (\<lambda>i. v_IsNull (args ! i)) [0..<length args] of
              Some i \<Rightarrow> Inl (BinderException (''salesforce_refresh_metadata: argument '' @ show_nat (i + 1) @ '' must not be NULL.''))
            | None \<Rightarrow> Inr \<lparr> rm_alias = TrimArg D (args ! 0),
                            rm_object = (if length args = 2 then TrimArg D (args ! 1) else []) \<rparr>))"

definition RefreshMetadataFunction ::
  "(string \<Rightarrow> attached option) \<Rightarrow> string_util \<Rightarrow> RefreshMetadataBindData \<Rightarrow> bool \<Rightarrow> (catalog_caches, cell list list \<times> bool) sfm" where
  "RefreshMetadataFunction A D b emitted =
     (if emitted then ret ([], emitted)
      else bnd (RefreshSalesforceCatalogMetadata A D (rm_alias b) (rm_object b)) (\<lambda>_.
           ret ([[CVarchar (rm_alias b), CVarchar (if rm_object b = [] then ''global'' else ''object''),
                  if rm_object b = [] then CNull else CVarchar (rm_object b)]], True)))"

section \<open>The listings\<close>

definition null_or :: "string \<Rightarrow> cell" where
  "null_or s = (if s = [] then CNull else CVarchar s)"

definition varchar_list :: "string list \<Rightarrow> cell" where
  "varchar_list vs = CList (map CVarchar vs)"

record MetaFieldRow =
  mf_field_name :: string
  mf_type :: string
  mf_filterable :: bool
  mf_sortable :: bool
  mf_relationship_name :: string
  mf_reference_to :: "string list"
  mf_picklist_values :: "string list"

record MetaFieldsBindData =
  mfb_object_name :: string
  mfb_rows :: "MetaFieldRow list"

definition metadata_fields_schema :: "(string \<times> LogicalType) list" where
  "metadata_fields_schema = [(''object_name'', VARCHAR), (''field_name'', VARCHAR), (''type'', VARCHAR), (''filterable'', BOOLEAN),
     (''sortable'', BOOLEAN), (''relationship_name'', VARCHAR), (''reference_to'', LIST VARCHAR), (''picklist_values'', LIST VARCHAR)]"

definition MetaFieldsBind ::
  "(string \<Rightarrow> attached option) \<Rightarrow> 'c external \<Rightarrow> Value list \<Rightarrow> ('c, MetaFieldsBindData) eng" where
  "MetaFieldsBind A X inputs =
     (if length inputs < 2 \<or> v_IsNull (inputs ! 0) \<or> v_IsNull (inputs ! 1) then
        throw (BinderException (''salesforce_metadata_fields(catalog, object_name) requires a ''
                @ ''non-NULL catalog alias and object name''))
      else bnd (of_result (GetSalesforceCatalogMetadataEngine A (v_ToString (inputs ! 0)))) (\<lambda>_.
           bnd (GetObjectDescribe X (v_ToString (inputs ! 1))) (\<lambda>d.
           ret \<lparr> mfb_object_name = v_ToString (inputs ! 1),
                 mfb_rows = map (\<lambda>fld. \<lparr> mf_field_name = f_name fld, mf_type = f_sf_type fld, mf_filterable = f_filterable fld,
                   mf_sortable = f_sortable fld, mf_relationship_name = f_relationship_name fld,
                   mf_reference_to = f_reference_to fld, mf_picklist_values = f_picklist_values fld \<rparr>) (d_fields d) \<rparr>)))"

definition meta_field_cells :: "string \<Rightarrow> MetaFieldRow \<Rightarrow> cell list" where
  "meta_field_cells object f = [CVarchar object, CVarchar (mf_field_name f), CVarchar (mf_type f), CBoolean (mf_filterable f),
     CBoolean (mf_sortable f), null_or (mf_relationship_name f), varchar_list (mf_reference_to f), varchar_list (mf_picklist_values f)]"

definition MetaFieldsFunction :: "MetaFieldsBindData \<Rightarrow> nat \<Rightarrow> nat \<Rightarrow> cell list list \<times> nat" where
  "MetaFieldsFunction b = emit_rows (meta_field_cells (mfb_object_name b)) (mfb_rows b)"

definition MetaObjectsBind ::
  "(string \<Rightarrow> attached option) \<Rightarrow> 'c external \<Rightarrow> Value list \<Rightarrow> ('c, SalesforceObjectInfo list) eng" where
  "MetaObjectsBind A X inputs =
     (if inputs = [] \<or> v_IsNull (inputs ! 0) then
        throw (BinderException (''salesforce_metadata_objects(catalog) requires a non-NULL '' @ ''catalog alias''))
      else bnd (of_result (GetSalesforceCatalogMetadataEngine A (v_ToString (inputs ! 0)))) (\<lambda>_. GetGlobalObjectInfos X))"

definition meta_object_cells :: "SalesforceObjectInfo \<Rightarrow> cell list" where
  "meta_object_cells info = [CVarchar (oi_name info), CBoolean (oi_queryable info)]"

definition MetaObjectsFunction :: "SalesforceObjectInfo list \<Rightarrow> nat \<Rightarrow> nat \<Rightarrow> cell list list \<times> nat" where
  "MetaObjectsFunction rows = emit_rows meta_object_cells rows"

interpretation meta_fields: row_cursor "MetaFieldsFunction b" "\<lambda>cursor. map (meta_field_cells (mfb_object_name b)) (drop cursor (mfb_rows b))" for b
  unfolding MetaFieldsFunction_def by (rule list_cursor.row_cursor_axioms)

interpretation meta_objects: row_cursor "MetaObjectsFunction rows" "\<lambda>cursor. map meta_object_cells (drop cursor rows)" for rows
  unfolding MetaObjectsFunction_def by (rule list_cursor.row_cursor_axioms)

section \<open>Invariant\<close>

text \<open>Requests do not touch the diagnostics.\<close>

lemma hoare_outside_do: "(\<And>s c. I s \<Longrightarrow> I (s \<lparr> w_outside := c \<rparr>)) \<Longrightarrow> hoare I (outside_do m) (\<lambda>_. True)"
  by (rule hoare_any) (auto simp: sess_run split: prod.splits)

lemma hoare_session_do: "(\<And>s. I s \<Longrightarrow> I (s \<lparr> w_session := f (w_session s) \<rparr>)) \<Longrightarrow> hoare I (session_do f) (\<lambda>_. True)"
  by (rule hoare_any) (auto simp: sess_run)

lemma hoare_gets_any: "hoare I (gets f) (\<lambda>_. True)"
  by (rule hoare_gets) simp

lemma AuthorizedGet_globals: "hoare (\<lambda>s. w_globals s = g) (AuthorizedGet X path) (\<lambda>_. True)"
  unfolding AuthorizedGet_def AuthorizedSend_def do_req_def Authenticate_def
  by (intro hoare_bnd [where R = "\<lambda>_. True"] hoare_if hoare_ret hoare_throw hoare_gets_any hoare_outside_do hoare_session_do TrueI) simp_all

lemma Describe_globals: "hoare (\<lambda>s. w_globals s = g) (Describe X object) (\<lambda>_. True)"
  unfolding Describe_def DescribeJson_def
  by (intro hoare_bnd [where R = "\<lambda>_. True"] hoare_ret hoare_gets_any AuthorizedGet_globals TrueI)

lemma GlobalDescribeInfos_globals: "hoare (\<lambda>s. w_globals s = g) (GlobalDescribeInfos X) (\<lambda>_. True)"
  unfolding GlobalDescribeInfos_def
  by (intro hoare_bnd [where R = "\<lambda>_. True"] hoare_ret hoare_gets_any AuthorizedGet_globals TrueI)

lemma with_session_keeps:
  assumes "hoare (\<lambda>s. w_globals s = w_globals (ew_world s0)) m (\<lambda>_. True)" "with_session m s0 = (r, s')"
  shows "w_globals (ew_world s') = w_globals (ew_world s0) \<and>
    (\<exists>ss. ew_engine s' = (ew_engine s0) \<lparr> me_session := ss \<rparr>) \<and> (\<exists>w w'. m w = (r, w'))"
proof -
  let ?w = "(ew_world s0) \<lparr> w_session := engine_session (ew_engine s0) \<rparr>"
  obtain r1 w' where m: "m ?w = (r1, w')" by fastforce
  have "w_globals w' = w_globals (ew_world s0)" using hoare_keeps [OF assms(1) _ m] by simp
  moreover have "r = r1" "s' = s0 \<lparr> ew_world := w', ew_engine := (ew_engine s0) \<lparr> me_session := Some (w_session w') \<rparr> \<rparr>"
    using assms(2) m by (simp_all add: with_session_def)
  ultimately show ?thesis using m by auto
qed

text \<open>
  The global list is the queryable part of the infos, or nothing is loaded; a describe is cached
  under the lower-cased name it was asked for.
\<close>

definition engine_ok :: "string_util \<Rightarrow> SalesforceMetadataEngine \<Rightarrow> bool" where
  "engine_ok D e \<longleftrightarrow>
     me_global_objects e = queryable_names (me_global_infos e) \<and> (\<not> me_global_loaded e \<longrightarrow> me_global_infos e = []) \<and>
     finite (dom (me_describe e)) \<and> (\<forall>k d. me_describe e k = Some d \<longrightarrow> k = su_Lower D (d_object_name d) \<and> flat_describe d)"

lemma engine_ok_session [simp]: "engine_ok D (e \<lparr> me_session := ss \<rparr>) = engine_ok D e"
  by (simp add: engine_ok_def)

text \<open>
  What a computation that returns adds: cached describes are kept, and the call counters grow by
  the number of objects newly cached and by one when the global list was loaded.
\<close>

definition caches_more :: "'c engine_world \<Rightarrow> 'c engine_world \<Rightarrow> bool" where
  "caches_more s s' \<longleftrightarrow>
     (let e = ew_engine s; e' = ew_engine s'; g = w_globals (ew_world s); g' = w_globals (ew_world s') in
      me_describe e \<subseteq>\<^sub>m me_describe e' \<and> (me_global_loaded e \<longrightarrow> me_global_loaded e' \<and> me_global_infos e' = me_global_infos e) \<and>
      g_describe_calls g' = g_describe_calls g + int (card (dom (me_describe e') - dom (me_describe e))) \<and>
      g_global_describe_calls g' = g_global_describe_calls g + (if me_global_loaded e' \<and> \<not> me_global_loaded e then 1 else 0))"

definition caching :: "string_util \<Rightarrow> ('c, 'a) eng \<Rightarrow> bool" where
  "caching D m \<longleftrightarrow> (\<forall>s r s'. engine_ok D (ew_engine s) \<longrightarrow> m s = (r, s') \<longrightarrow>
     engine_ok D (ew_engine s') \<and> (\<forall>v. r = Inr v \<longrightarrow> caches_more s s'))"

lemma caches_more_refl: "caches_more s s"
  by (simp add: caches_more_def)

lemma caches_more_trans:
  assumes "caches_more s s'" "caches_more s' s''" and fin: "finite (dom (me_describe (ew_engine s'')))"
  shows "caches_more s s''"
proof -
  let ?d = "dom (me_describe (ew_engine s))" and ?d' = "dom (me_describe (ew_engine s'))" and ?d'' = "dom (me_describe (ew_engine s''))"
  have sub: "me_describe (ew_engine s) \<subseteq>\<^sub>m me_describe (ew_engine s')" "me_describe (ew_engine s') \<subseteq>\<^sub>m me_describe (ew_engine s'')"
    using assms by (simp_all add: caches_more_def Let_def)
  then have d: "?d \<subseteq> ?d'" "?d' \<subseteq> ?d''" by (auto dest: map_le_implies_dom_le)
  then have "?d'' - ?d = (?d'' - ?d') \<union> (?d' - ?d)" "(?d'' - ?d') \<inter> (?d' - ?d) = {}" by auto
  moreover have "finite (?d'' - ?d')" "finite (?d' - ?d)" using fin d by (auto intro: finite_subset)
  ultimately have "card (?d'' - ?d) = card (?d'' - ?d') + card (?d' - ?d)" by (metis card_Un_disjoint)
  with assms(1,2) map_le_trans [OF sub] show ?thesis unfolding caches_more_def Let_def
    by (cases "me_global_loaded (ew_engine s)"; cases "me_global_loaded (ew_engine s')") simp_all
qed

lemma caching_ret: "caching D (ret v)"
  by (simp add: caching_def sfm_run caches_more_refl)

lemma caching_throw: "caching D (throw e)"
  by (simp add: caching_def sfm_run)

lemma caching_gets: "caching D (gets f)"
  by (simp add: caching_def sfm_run caches_more_refl)

lemma caching_bnd:
  assumes "caching D m" "\<And>v. caching D (f v)"
  shows "caching D (bnd m f)"
  unfolding caching_def
proof (intro allI impI)
  fix s r s'
  assume ok: "engine_ok D (ew_engine s)" and run: "bnd m f s = (r, s')"
  obtain r1 s1 where m: "m s = (r1, s1)" by fastforce
  with assms(1) ok have 1: "engine_ok D (ew_engine s1)" "\<forall>v. r1 = Inr v \<longrightarrow> caches_more s s1"
    unfolding caching_def by blast+
  show "engine_ok D (ew_engine s') \<and> (\<forall>v. r = Inr v \<longrightarrow> caches_more s s')"
  proof (cases r1)
    case (Inl e)
    with run m have "r = Inl e" "s' = s1" by (auto simp: bnd_run)
    with 1 show ?thesis by simp
  next
    case (Inr v)
    with run m have "f v s1 = (r, s')" by (simp add: bnd_run)
    with assms(2) [of v] 1(1) have 2: "engine_ok D (ew_engine s')" "\<forall>w. r = Inr w \<longrightarrow> caches_more s1 s'"
      unfolding caching_def by blast+
    then have "finite (dom (me_describe (ew_engine s')))" by (simp add: engine_ok_def)
    with 1(2) 2 Inr show ?thesis by (auto intro: caches_more_trans)
  qed
qed

lemma caching_if: "caching D m \<Longrightarrow> caching D m' \<Longrightarrow> caching D (if b then m else m')"
  by simp

lemma caching_option: "caching D m \<Longrightarrow> (\<And>v. caching D (f v)) \<Longrightarrow> caching D (case x of None \<Rightarrow> m | Some v \<Rightarrow> f v)"
  by (cases x) simp_all

lemma caching_of_result: "caching D (of_result r)"
  by (cases r) (simp_all add: caching_def sfm_run caches_more_refl)

lemmas caching_rules = caching_bnd caching_if caching_option caching_ret caching_throw caching_gets caching_of_result

lemma IncDescribeCalls_counts: "g_describe_calls (IncDescribeCalls g) = g_describe_calls g + 1"
  "g_global_describe_calls (IncDescribeCalls g) = g_global_describe_calls g"
  "g_global_describe_calls (IncGlobalDescribeCalls g) = g_global_describe_calls g + 1"
  "g_describe_calls (IncGlobalDescribeCalls g) = g_describe_calls g"
  by (simp_all add: diag_setter_defs)

lemma EnsureGlobalLoaded_caching: "caching D (EnsureGlobalLoaded X)"
  unfolding caching_def
proof (intro allI impI)
  fix s :: "'a engine_world" and r s'
  assume ok: "engine_ok D (ew_engine s)" and run: "EnsureGlobalLoaded X s = (r, s')"
  show "engine_ok D (ew_engine s') \<and> (\<forall>v. r = Inr v \<longrightarrow> caches_more s s')"
  proof (cases "me_global_loaded (ew_engine s)")
    case True
    with run ok show ?thesis by (auto simp: EnsureGlobalLoaded_def sfm_simps caches_more_refl)
  next
    case False
    let ?s = "s \<lparr> ew_world := (ew_world s) \<lparr> w_globals := IncGlobalDescribeCalls (w_globals (ew_world s)) \<rparr> \<rparr>"
    obtain r1 s1 where w: "with_session (GlobalDescribeInfos X) ?s = (r1, s1)" by fastforce
    note k = with_session_keeps [OF GlobalDescribeInfos_globals w]
    obtain ss where e: "ew_engine s1 = (ew_engine s) \<lparr> me_session := ss \<rparr>"
      and g: "w_globals (ew_world s1) = IncGlobalDescribeCalls (w_globals (ew_world s))" using k by auto
    from e ok have ok1: "engine_ok D (ew_engine s1)" by simp
    show ?thesis
    proof (cases r1)
      case (Inl err)
      with run False w ok1 show ?thesis by (auto simp: EnsureGlobalLoaded_def sfm_run eng_run(1,2) bnd_run)
    next
      case (Inr infos)
      with run False w have "r = Inr ()" "s' = s1 \<lparr> ew_engine := (ew_engine s1) \<lparr> me_global_infos := infos,
          me_global_objects := queryable_names infos, me_global_loaded := True \<rparr> \<rparr>"
        by (auto simp: EnsureGlobalLoaded_def sfm_run eng_run(1,2) bnd_run)
      with ok1 e g False show ?thesis
        by (auto simp: engine_ok_def caches_more_def IncDescribeCalls_counts) 
    qed
  qed
qed

lemma GetObjectDescribe_hit:
  "me_describe (ew_engine s) (su_Lower (x_su X) object) = Some d \<Longrightarrow> GetObjectDescribe X object s = (Inr d, s)"
  by (simp add: GetObjectDescribe_def Let_def sfm_run bnd_run)

lemma Describe_named_run: "Describe X object w = (Inr d, w') \<Longrightarrow> d_object_name d = object \<and> flat_describe d"
  using hoare_returns [OF Describe_named] by blast

lemma GetObjectDescribe_miss:
  assumes ok: "engine_ok (x_su X) (ew_engine s)" and miss: "me_describe (ew_engine s) (su_Lower (x_su X) object) = None"
    and run: "GetObjectDescribe X object s = (r, s')"
  shows "engine_ok (x_su X) (ew_engine s') \<and>
    (case r of Inl err \<Rightarrow> me_describe (ew_engine s') = me_describe (ew_engine s)
     | Inr d \<Rightarrow> caches_more s s' \<and> me_describe (ew_engine s') = (me_describe (ew_engine s))(su_Lower (x_su X) object \<mapsto> d))"
proof -
  let ?s = "s \<lparr> ew_world := (ew_world s) \<lparr> w_globals := IncDescribeCalls (w_globals (ew_world s)) \<rparr> \<rparr>"
  obtain r1 s1 where w: "with_session (Describe X object) ?s = (r1, s1)" by fastforce
  note k = with_session_keeps [OF Describe_globals w]
  obtain ss where e: "ew_engine s1 = (ew_engine s) \<lparr> me_session := ss \<rparr>"
    and g: "w_globals (ew_world s1) = IncDescribeCalls (w_globals (ew_world s))" using k by auto
  show ?thesis
  proof (cases r1)
    case (Inl err)
    with run miss w have "r = Inl err" "s' = s1" by (auto simp: GetObjectDescribe_def Let_def sfm_run eng_run(1,2) bnd_run)
    with e ok show ?thesis by simp
  next
    case (Inr d)
    with k have d: "d_object_name d = object \<and> flat_describe d" using Describe_named_run by blast
    let ?key = "su_Lower (x_su X) object"
    from Inr run miss w e have s': "r = Inr d"
      "s' = s1 \<lparr> ew_engine := (ew_engine s) \<lparr> me_session := ss, me_describe := (me_describe (ew_engine s))(?key \<mapsto> d) \<rparr> \<rparr>"
      by (auto simp: GetObjectDescribe_def Let_def sfm_run eng_run(1,2) bnd_run put_new_def)
    have new: "insert ?key (dom (me_describe (ew_engine s))) - dom (me_describe (ew_engine s)) = {?key}" using miss by auto
    have "engine_ok (x_su X) (ew_engine s')" using ok d by (simp add: s'(2) engine_ok_def)
    moreover have "caches_more s s'"
      using miss g new by (simp add: caches_more_def s'(2) IncDescribeCalls_counts map_le_def domIff)
    ultimately show ?thesis by (simp add: s')
  qed
qed

lemma GetObjectDescribe_caching: "caching (x_su X) (GetObjectDescribe X object)"
  unfolding caching_def
proof (intro allI impI)
  fix s :: "'a engine_world" and r s'
  assume ok: "engine_ok (x_su X) (ew_engine s)" and run: "GetObjectDescribe X object s = (r, s')"
  show "engine_ok (x_su X) (ew_engine s') \<and> (\<forall>v. r = Inr v \<longrightarrow> caches_more s s')"
  proof (cases "me_describe (ew_engine s) (su_Lower (x_su X) object)")
    case None
    from GetObjectDescribe_miss [OF ok None run] show ?thesis by (auto split: sum.splits)
  next
    case (Some d)
    with run GetObjectDescribe_hit [OF Some] ok show ?thesis by (simp add: caches_more_refl)
  qed
qed

lemmas caching_ops = GetObjectDescribe_caching EnsureGlobalLoaded_caching

lemma engine_ops_caching:
  "caching (x_su X) (GetGlobalObjects X)" "caching (x_su X) (GetGlobalObjectInfos X)" "caching (x_su X) (IsQueryable X object)"
  "caching (x_su X) (ResolveField X object token)" "caching (x_su X) (ResolveRelationship X object rel)"
  unfolding GetGlobalObjects_def GetGlobalObjectInfos_def IsQueryable_def ResolveField_def ResolveRelationship_def
  by (intro caching_rules caching_ops)+

section \<open>Operations in sequence\<close>

datatype engine_op =
    AskObjects | AskInfos | AskDescribe string | AskQueryable string | AskField string string | AskRelationship string string

fun engine_step :: "'c external \<Rightarrow> engine_op \<Rightarrow> ('c, unit) eng" where
  "engine_step X AskObjects = bnd (GetGlobalObjects X) (\<lambda>_. ret ())"
| "engine_step X AskInfos = bnd (GetGlobalObjectInfos X) (\<lambda>_. ret ())"
| "engine_step X (AskDescribe ob) = bnd (GetObjectDescribe X ob) (\<lambda>_. ret ())"
| "engine_step X (AskQueryable ob) = bnd (IsQueryable X ob) (\<lambda>_. ret ())"
| "engine_step X (AskField ob tok) = bnd (ResolveField X ob tok) (\<lambda>_. ret ())"
| "engine_step X (AskRelationship ob rel) = bnd (ResolveRelationship X ob rel) (\<lambda>_. ret ())"

primrec engine_steps :: "'c external \<Rightarrow> engine_op list \<Rightarrow> ('c, unit) eng" where
  "engine_steps X [] = ret ()"
| "engine_steps X (op # ops) = bnd (engine_step X op) (\<lambda>_. engine_steps X ops)"

lemma engine_step_caching: "caching (x_su X) (engine_step X op)"
  by (cases op) (simp_all add: caching_bnd caching_ret engine_ops_caching caching_ops)

lemma engine_steps_caching: "caching (x_su X) (engine_steps X ops)"
  by (induction ops) (simp_all add: caching_bnd caching_ret engine_step_caching)

lemma new_engine_ok: "engine_ok D (new_engine config tok)"
  by (simp add: engine_ok_def new_engine_def queryable_names_def)

text \<open>C16: The metadata engine asks for each thing once. From a state that satisfies the cache
  invariant, any sequence of lookups that returns keeps every cached describe, keeps the
  invariant (the object list is the queryable part of the Describe Global answer, a describe is
  cached under the lower-cased name of its object), and has made exactly one describe call per
  object it newly cached and at most one Describe Global call, none if the list was there.\<close>

theorem engine_asks_once:
  assumes "engine_ok (x_su X) (ew_engine s)" and "engine_steps X ops s = (Inr (), s')"
  shows "engine_ok (x_su X) (ew_engine s') \<and> me_describe (ew_engine s) \<subseteq>\<^sub>m me_describe (ew_engine s') \<and>
    g_describe_calls (w_globals (ew_world s')) = g_describe_calls (w_globals (ew_world s)) +
      int (card (dom (me_describe (ew_engine s')) - dom (me_describe (ew_engine s)))) \<and>
    g_global_describe_calls (w_globals (ew_world s')) = g_global_describe_calls (w_globals (ew_world s)) +
      (if me_global_loaded (ew_engine s') \<and> \<not> me_global_loaded (ew_engine s) then 1 else 0)"
proof -
  from engine_steps_caching assms have "engine_ok (x_su X) (ew_engine s')" "caches_more s s'"
    unfolding caching_def by blast+
  then show ?thesis by (simp add: caches_more_def Let_def)
qed

definition sample_engine_world :: "history engine_world" where
  "sample_engine_world = \<lparr> ew_world = sample_state, ew_engine = new_engine (empty_config \<lparr> api_version := ''v60.0'' \<rparr>)
     \<lparr> access_token = ''t'', instance_url = ''https://x'' \<rparr> \<rparr>"

definition sample_ops :: "engine_op list" where
  "sample_ops = [AskDescribe ''Account'', AskQueryable ''Lead'', AskField ''ACCOUNT'' ''NAME'', AskObjects]"

theorem engine_asks_once_witness:
  "case engine_steps (static_server (\<lambda>_. ''{}'') history_external) sample_ops sample_engine_world of
     (r, s') \<Rightarrow> r = Inr () \<and> g_global_describe_calls (w_globals (ew_world s')) = 1 \<and>
       g_describe_calls (w_globals (ew_world s')) = int (card (dom (me_describe (ew_engine s'))))"
proof -
  let ?X = "static_server (\<lambda>_. ''{}'') history_external"
  have "case engine_steps ?X sample_ops sample_engine_world of (r, s') \<Rightarrow> r = Inr () \<and> me_global_loaded (ew_engine s')" by code_simp
  then obtain s' where r: "engine_steps ?X sample_ops sample_engine_world = (Inr (), s')" and l: "me_global_loaded (ew_engine s')"
    by (auto split: prod.splits)
  have "engine_ok (x_su ?X) (ew_engine sample_engine_world)" by (simp add: sample_engine_world_def new_engine_ok)
  from engine_asks_once [OF this r] l show ?thesis
    unfolding r by (simp add: sample_engine_world_def new_engine_def sample_state_def initial_globals_def)
qed

text \<open>A refresh makes the engine and the catalog forget: a full refresh leaves both as they
  were before first use, but for the configuration and token; the refresh of an object drops it, in any letter
  case, from every cache and nothing else, and always drops the session. Both keep the
  invariants.\<close>

theorem refresh_forgets:
  assumes "cc_schema c = Some se" "cc_engine c = Some e" "engine_ok D e"
  shows "catalog_RefreshMetadata D [] c = c \<lparr> cc_schema := Some (new_schema (se_config se) (se_token se)),
      cc_engine := Some (new_engine (me_config e) (me_token e)) \<rparr> \<and>
    (object \<noteq> [] \<longrightarrow> (case (cc_schema (catalog_RefreshMetadata D object c), cc_engine (catalog_RefreshMetadata D object c)) of
       (Some se', Some e') \<Rightarrow>
         me_session e' = None \<and> me_global_infos e' = me_global_infos e \<and> se_listing se' = se_listing se \<and> engine_ok D e' \<and>
         (\<forall>object'. (me_describe e' (su_Lower D object'), se_tables se' (su_Lower D object'),
              se_parent_describe se' (su_Lower D object'), se_describe_json se' (su_Lower D object')) =
            (if su_Lower D object' = su_Lower D object then (None, None, None, None)
             else (me_describe e (su_Lower D object'), se_tables se (su_Lower D object'),
              se_parent_describe se (su_Lower D object'), se_describe_json se (su_Lower D object'))))
     | _ \<Rightarrow> False))"
  using assms
  by (auto simp: catalog_RefreshMetadata_def schema_RefreshMetadata_def new_schema_def RefreshAll_def new_engine_def
      engine_Refresh_def engine_ok_def Let_def)

theorem refresh_forgets_witness:
  "let c = \<lparr> cc_config = empty_config, cc_token = \<lparr> access_token = [], instance_url = [] \<rparr>,
       cc_schema = Some (new_schema empty_config \<lparr> access_token = [], instance_url = [] \<rparr>),
       cc_engine = Some (new_engine empty_config \<lparr> access_token = [], instance_url = [] \<rparr>) \<rparr> in
   catalog_RefreshMetadata ascii_su [] c = c"
proof -
  let ?t = "\<lparr> access_token = [], instance_url = [] \<rparr>"
  let ?c = "\<lparr> cc_config = empty_config, cc_token = ?t, cc_schema = Some (new_schema empty_config ?t),
       cc_engine = Some (new_engine empty_config ?t) \<rparr>"
  have "catalog_RefreshMetadata ascii_su [] ?c = ?c \<lparr> cc_schema := Some (new_schema (se_config (new_schema empty_config ?t)) (se_token (new_schema empty_config ?t))),
      cc_engine := Some (new_engine (me_config (new_engine empty_config ?t)) (me_token (new_engine empty_config ?t))) \<rparr>"
    using refresh_forgets [of ?c "new_schema empty_config ?t" "new_engine empty_config ?t" ascii_su "[]"] new_engine_ok by simp
  then show ?thesis by (simp add: new_schema_def new_engine_def)
qed

section \<open>What a resolution promises\<close>

lemma first_field_Some:
  "first_field D flds cs = Some fld \<Longrightarrow> fld \<in> set flds \<and> (\<exists>c \<in> set cs. su_Lower D (f_name fld) = su_Lower D c)"
  by (induction cs) (auto simp: field_named_def find_Some_iff split: option.splits)

lemma GetObjectDescribe_cached:
  assumes "GetObjectDescribe X object s = (Inr d, s')"
  shows "me_describe (ew_engine s') (su_Lower (x_su X) object) = Some d"
proof (cases "me_describe (ew_engine s) (su_Lower (x_su X) object)")
  case None
  obtain r1 s1 where w: "with_session (Describe X object)
      (s \<lparr> ew_world := (ew_world s) \<lparr> w_globals := IncDescribeCalls (w_globals (ew_world s)) \<rparr> \<rparr>) = (r1, s1)" by fastforce
  then have "me_describe (ew_engine s1) = me_describe (ew_engine s)" using with_session_keeps [OF Describe_globals w] by auto
  with assms None w show ?thesis
    by (auto simp: GetObjectDescribe_def Let_def sfm_run eng_run(1,2) bnd_run put_new_def split: sum.splits)
next
  case (Some e)
  with assms GetObjectDescribe_hit [OF Some] show ?thesis by simp
qed

end
