(* ===== verification/SF_MetaSource.thy ===== *)
theory SF_MetaSource
  imports SF_MetaEngine
begin

text \<open>
  The contract between the metadata engine and its clients (the relationship graph and the report
  bridge), as a locale, and its interpretation on the engine in front of an org that answers from a
  directory.
\<close>

section \<open>The contract\<close>

text \<open>
  What the clients of the engine rely on: describes and the object list that do not change while
  they work. \<open>described\<close> gives the describe of an object, or nothing where describing it fails;
  its name is the spelling it was first asked for and is not part of the contract.
\<close>

definition same_metadata :: "SalesforceDescribe \<Rightarrow> SalesforceDescribe \<Rightarrow> bool" where
  "same_metadata d d' \<longleftrightarrow> d_fields d = d_fields d' \<and> d_child_relationships d = d_child_relationships d'"

definition listed_name :: "string_util \<Rightarrow> string list \<Rightarrow> string \<Rightarrow> bool" where
  "listed_name D listed object \<longleftrightarrow> list_ex (\<lambda>n. su_CIEquals D n object) listed"

locale metadata_source =
  fixes X :: "'c external" and I :: "'c engine_world \<Rightarrow> bool"
    and described :: "string \<Rightarrow> SalesforceDescribe option" and listed :: "string list"
  assumes describe_fails: "I s \<Longrightarrow> described ob = None \<Longrightarrow> \<exists>e s'. GetObjectDescribe X ob s = (Inl e, s') \<and> I s'"
    and describe_works: "I s \<Longrightarrow> described ob = Some d \<Longrightarrow> \<exists>d' s'. GetObjectDescribe X ob s = (Inr d', s') \<and> same_metadata d d' \<and> I s'"
    and global_works: "I s \<Longrightarrow> \<exists>s'. GetGlobalObjects X s = (Inr listed, s') \<and> I s'"
begin

lemma IsQueryable_run: "I s \<Longrightarrow> \<exists>s'. IsQueryable X ob s = (Inr (listed_name (x_su X) listed ob), s') \<and> I s'"
  using global_works [of s] by (auto simp: IsQueryable_def listed_name_def bnd_run sfm_run)

lemma ResolveField_run:
  assumes "I s" "described ob = Some d"
  shows "\<exists>s'. ResolveField X ob tok s = (Inr (map_option (\<lambda>fld. (f_name fld, f_filterable fld))
    (first_field (x_su X) (d_fields d) (token_candidates (x_su X) tok))), s') \<and> I s'"
  using describe_works [OF assms] by (auto simp: ResolveField_def same_metadata_def bnd_run sfm_run)

lemma ResolveRelationship_run:
  assumes "I s" "described ob = Some d"
  shows "\<exists>s'. ResolveRelationship X ob rel s = (Inr (case relationship_named (x_su X) (d_fields d) rel of
      None \<Rightarrow> None
    | Some fld \<Rightarrow> (case f_reference_to fld of
        [target] \<Rightarrow> if listed_name (x_su X) listed target then Some (target, f_relationship_name fld) else None
      | _ \<Rightarrow> None)), s') \<and> I s'"
proof -
  obtain d' s1 where d: "GetObjectDescribe X ob s = (Inr d', s1)" "d_fields d' = d_fields d" and i: "I s1"
    using describe_works [OF assms] by (auto simp: same_metadata_def)
  show ?thesis
  proof (cases "relationship_named (x_su X) (d_fields d) rel")
    case None
    then show ?thesis using d i by (simp add: ResolveRelationship_def bnd_run sfm_run)
  next
    case (Some fld)
    show ?thesis
    proof (cases "length (f_reference_to fld) = 1")
      case False
      then show ?thesis using d i Some
        by (auto simp: ResolveRelationship_def bnd_run sfm_run split: list.splits)
    next
      case True
      then obtain t where t: "f_reference_to fld = [t]" by (cases "f_reference_to fld") auto
      with d Some IsQueryable_run [OF i, of t] show ?thesis
        by (auto simp: ResolveRelationship_def bnd_run sfm_run)
    qed
  qed
qed

end

section \<open>The engine keeps it\<close>

text \<open>
  An org that answers describes from a directory, whatever the letter case of the name, answers
  404 for other objects, and lists its objects. A session with a valid token sees the directory.
\<close>

record org =
  org_token :: SalesforceTokenSet
  org_version :: string
  org_listing :: string
  org_objects :: "(string \<times> string) list"

definition org_url :: "org \<Rightarrow> string \<Rightarrow> string" where
  "org_url g path = TrimTrailingSlash (instance_url (org_token g)) @ ''/services/data/'' @ org_version g @ path"

definition describe_url :: "org \<Rightarrow> string \<Rightarrow> string" where
  "describe_url g ob = org_url g (''/sobjects/'' @ ob @ ''/describe'')"

definition not_found :: HttpResponse where
  "not_found = empty_response \<lparr> transport_ok := True, status := 404 \<rparr>"

definition org_answer :: "org \<Rightarrow> string \<Rightarrow> HttpResponse" where
  "org_answer g url =
     (if url = org_url g ''/sobjects'' then ok_response (org_listing g)
      else case find (\<lambda>(n, b). map tolower (describe_url g n) = map tolower url) (org_objects g) of
        Some (n, b) \<Rightarrow> ok_response b
      | None \<Rightarrow> not_found)"

definition directory_server :: "org \<Rightarrow> history external \<Rightarrow> history external" where
  "directory_server g X = against (\<lambda>h m rq. org_answer g (rq_url rq)) (X \<lparr> x_su := ascii_su \<rparr>)"

definition org_described :: "org \<Rightarrow> string \<Rightarrow> SalesforceDescribe option" where
  "org_described g ob = map_option (\<lambda>(n, b). ParseDescribe ascii_su b ob) (find (\<lambda>(n, b). map tolower n = map tolower ob) (org_objects g))"

definition org_listed :: "org \<Rightarrow> string list" where
  "org_listed g = queryable_names (map (\<lambda>obj. \<lparr> oi_name = GetString obj ''name'', oi_queryable = GetBool obj ''queryable'' False \<rparr>)
     (filter (\<lambda>obj. GetString obj ''name'' \<noteq> []) (GetObjectArray (org_listing g) ''sobjects'')))"

definition connected :: "org \<Rightarrow> 'c engine_world \<Rightarrow> bool" where
  "connected g s \<longleftrightarrow>
     (let e = ew_engine s; ss = engine_session e in
      s_token ss = org_token g \<and> api_version (s_config ss) = org_version g \<and>
      (me_global_loaded e \<longrightarrow> me_global_objects e = org_listed g) \<and>
      (\<forall>ob d. me_describe e (map tolower ob) = Some d \<longrightarrow> (\<exists>d'. org_described g ob = Some d' \<and> same_metadata d' d)))"

lemma AuthorizedGet_directory:
  "AuthorizedGet (directory_server g X) path s =
     (let r = org_answer g (TrimTrailingSlash (instance_url (s_token (w_session s))) @ path) in
      if status r = 200 then Inr (body r) else Inl (request_error path r),
      s \<lparr> w_outside := w_outside s @ [resource_call False path [] (s_token (w_session s))] \<rparr>)"
proof -
  have "GetString [] ''errorCode'' = []" by code_simp
  then have "transport_ok (org_answer g u) \<and> status (org_answer g u) \<noteq> 401 \<and> \<not> over_limit (org_answer g u)" for u
    by (auto simp: org_answer_def ok_response_def not_found_def over_limit_def empty_response_def split: option.splits)
  then show ?thesis
    by (auto simp: AuthorizedGet_def AuthorizedSend_def directory_server_def sfm_simps Let_def resource_call_def auth_request_def)
qed

lemma org_answer_describe:
  "org_answer g (describe_url g ob) = (case find (\<lambda>(n, b). map tolower n = map tolower ob) (org_objects g) of
     Some (n, b) \<Rightarrow> ok_response b | None \<Rightarrow> not_found)"
  by (simp add: org_answer_def describe_url_def org_url_def)

lemma org_described_case:
  assumes "map tolower ob' = map tolower ob" "org_described g ob = Some d"
  shows "\<exists>d'. org_described g ob' = Some d' \<and> same_metadata d d'"
proof -
  from assms(2) obtain n b where "find (\<lambda>(n, b). map tolower n = map tolower ob) (org_objects g) = Some (n, b)"
    "d = ParseDescribe ascii_su b ob" by (auto simp: org_described_def)
  then show ?thesis using assms(1)
    by (intro exI [of _ "ParseDescribe ascii_su b ob'"]) (simp add: org_described_def same_metadata_def ParseDescribe_def Let_def)
qed

lemma directory_su [simp]: "x_su (directory_server g X) = ascii_su"
  by (simp add: directory_server_def)

lemma ascii_Lower [simp]: "su_Lower ascii_su s = map tolower s"
  by (simp add: ascii_su_def)

lemma Describe_directory:
  assumes "s_token (w_session w) = org_token g" "api_version (s_config (w_session w)) = org_version g"
  shows "\<exists>w'. w_session w' = w_session w \<and>
    (case org_described g ob of
       None \<Rightarrow> \<exists>e. Describe (directory_server g X) ob w = (Inl e, w')
     | Some d \<Rightarrow> \<exists>d'. Describe (directory_server g X) ob w = (Inr d', w') \<and> same_metadata d d')"
proof -
  have url: "TrimTrailingSlash (instance_url (org_token g)) @ data_path w @ ''/sobjects/'' @ ob @ ''/describe'' = describe_url g ob"
    using assms(2) by (simp add: data_path_def config_of_def describe_url_def org_url_def)
  show ?thesis
  proof (cases "find (\<lambda>(n, b). map tolower n = map tolower ob) (org_objects g)")
    case None
    then show ?thesis using assms url org_answer_describe [of g ob]
      by (auto simp: Describe_def DescribeJson_def bnd_run sfm_run AuthorizedGet_directory Let_def org_described_def not_found_def)
  next
    case (Some nb)
    then show ?thesis using assms url org_answer_describe [of g ob]
      by (cases nb) (auto simp: Describe_def DescribeJson_def bnd_run sfm_run AuthorizedGet_directory Let_def org_described_def
          ok_response_def same_metadata_def)
  qed
qed

lemma GetObjectDescribe_directory:
  assumes "connected g s"
  shows "\<exists>s'. connected g s' \<and>
    (case org_described g ob of
       None \<Rightarrow> \<exists>e. GetObjectDescribe (directory_server g X) ob s = (Inl e, s')
     | Some d \<Rightarrow> \<exists>d'. GetObjectDescribe (directory_server g X) ob s = (Inr d', s') \<and> same_metadata d d')"
proof (cases "me_describe (ew_engine s) (map tolower ob)")
  case (Some d)
  with assms obtain d' where "org_described g ob = Some d'" "same_metadata d' d" by (auto simp: connected_def Let_def)
  with assms Some GetObjectDescribe_hit [of s "directory_server g X" ob d] show ?thesis by auto
next
  case None
  let ?w = "(ew_world s) \<lparr> w_globals := IncDescribeCalls (w_globals (ew_world s)), w_session := engine_session (ew_engine s) \<rparr>"
  have "s_token (w_session ?w) = org_token g" "api_version (s_config (w_session ?w)) = org_version g"
    using assms by (simp_all add: connected_def Let_def)
  from Describe_directory [OF this, of X ob] obtain w' where w': "w_session w' = engine_session (ew_engine s)"
    and r: "case org_described g ob of
       None \<Rightarrow> \<exists>e. Describe (directory_server g X) ob ?w = (Inl e, w')
     | Some d \<Rightarrow> \<exists>d'. Describe (directory_server g X) ob ?w = (Inr d', w') \<and> same_metadata d d'" by auto
  have c: "connected g (s \<lparr> ew_world := w', ew_engine := (ew_engine s) \<lparr> me_session := Some (engine_session (ew_engine s)) \<rparr> \<rparr>)"
    using assms by (simp add: connected_def Let_def engine_session_def)
  show ?thesis
  proof (cases "org_described g ob")
    case n: None
    with r None c w' show ?thesis
      by (auto simp: GetObjectDescribe_def Let_def bnd_run sfm_run eng_run)
  next
    case (Some d)
    with r obtain d' where d': "Describe (directory_server g X) ob ?w = (Inr d', w')" "same_metadata d d'" by auto
    let ?s = "s \<lparr> ew_world := w', ew_engine := (ew_engine s) \<lparr> me_session := Some (engine_session (ew_engine s)),
        me_describe := (me_describe (ew_engine s))(map tolower ob \<mapsto> d') \<rparr> \<rparr>"
    have "GetObjectDescribe (directory_server g X) ob s = (Inr d', ?s)"
      using None d' w' by (auto simp: GetObjectDescribe_def Let_def bnd_run sfm_run eng_run put_new_def)
    moreover have "connected g ?s"
      unfolding connected_def Let_def
    proof (intro conjI allI impI)
      fix ob2 d2 assume h: "me_describe (ew_engine ?s) (map tolower ob2) = Some d2"
      show "\<exists>d3. org_described g ob2 = Some d3 \<and> same_metadata d3 d2"
      proof (cases "map tolower ob2 = map tolower ob")
        case True
        with h org_described_case [OF True Some] d'(2) show ?thesis by (auto simp: same_metadata_def)
      next
        case False
        with h c show ?thesis by (simp add: connected_def Let_def)
      qed
    qed (use c in \<open>simp_all add: connected_def Let_def engine_session_def\<close>)
    ultimately show ?thesis using Some d'(2) by auto
  qed
qed

lemma GetGlobalObjects_directory:
  assumes "connected g s"
  shows "\<exists>s'. GetGlobalObjects (directory_server g X) s = (Inr (org_listed g), s') \<and> connected g s'"
proof (cases "me_global_loaded (ew_engine s)")
  case True
  then show ?thesis using assms
    by (auto simp: GetGlobalObjects_def EnsureGlobalLoaded_def bnd_run sfm_run connected_def Let_def)
next
  case False
  let ?w = "(ew_world s) \<lparr> w_globals := IncGlobalDescribeCalls (w_globals (ew_world s)), w_session := engine_session (ew_engine s) \<rparr>"
  let ?infos = "map (\<lambda>obj. \<lparr> oi_name = GetString obj ''name'', oi_queryable = GetBool obj ''queryable'' False \<rparr>)
     (filter (\<lambda>obj. GetString obj ''name'' \<noteq> []) (GetObjectArray (org_listing g) ''sobjects''))"
  have "TrimTrailingSlash (instance_url (s_token (w_session ?w))) @ data_path ?w @ ''/sobjects'' = org_url g ''/sobjects''"
    using assms by (simp add: data_path_def config_of_def org_url_def connected_def Let_def)
  then have "\<exists>w'. GlobalDescribeInfos (directory_server g X) ?w = (Inr ?infos, w') \<and> w_session w' = engine_session (ew_engine s)"
    by (simp add: GlobalDescribeInfos_def bnd_run sfm_run AuthorizedGet_directory org_answer_def ok_response_def)
  then obtain w' where r: "GlobalDescribeInfos (directory_server g X) ?w = (Inr ?infos, w')" and w': "w_session w' = engine_session (ew_engine s)"
    by blast
  let ?s = "s \<lparr> ew_world := w', ew_engine := (ew_engine s) \<lparr> me_session := Some (engine_session (ew_engine s)),
      me_global_infos := ?infos, me_global_objects := org_listed g, me_global_loaded := True \<rparr> \<rparr>"
  have "GetGlobalObjects (directory_server g X) s = (Inr (org_listed g), ?s)"
    using False r w' by (simp add: GetGlobalObjects_def EnsureGlobalLoaded_def bnd_run sfm_run eng_run org_listed_def)
  moreover have "connected g ?s" using assms by (simp add: connected_def Let_def engine_session_def)
  ultimately show ?thesis by blast
qed

interpretation directory: metadata_source "directory_server g X" "connected g" "org_described g" "org_listed g" for g X
proof
  fix s :: "history engine_world" and ob d
  assume c: "connected g s"
  note gd = GetObjectDescribe_directory [OF c, where X = X and ob = ob]
  from gd
  show "org_described g ob = None \<Longrightarrow> \<exists>e s'. GetObjectDescribe (directory_server g X) ob s = (Inl e, s') \<and> connected g s'"
    and "org_described g ob = Some d \<Longrightarrow>
      \<exists>d' s'. GetObjectDescribe (directory_server g X) ob s = (Inr d', s') \<and> same_metadata d d' \<and> connected g s'"
    by auto
  from GetGlobalObjects_directory [OF c]
  show "\<exists>s'. GetGlobalObjects (directory_server g X) s = (Inr (org_listed g), s') \<and> connected g s'" .
qed

lemma new_engine_connected:
  "tok = org_token g \<Longrightarrow> api_version config = org_version g \<Longrightarrow> connected g \<lparr> ew_world = w, ew_engine = new_engine config tok \<rparr>"
  by (simp add: connected_def new_engine_def engine_session_def SetToken_def new_session_def)

end
