(* ===== verification/SF_Database.thy ===== *)
theory SF_Database
  imports SF_MetaSource
begin

text \<open>
  The attached database as DuckDB uses it (the classes \<^verbatim>\<open>SalesforceCatalog\<close> and
  \<^verbatim>\<open>SalesforceTransactionManager\<close> of \<^verbatim>\<open>salesforce_storage.cpp\<close>): the catalog with its one schema
  and its metadata engine, the operations it refuses, and the transactions. The operations of
  the schema and of the engine are those of their theories, run on the parts of this state. A
  transaction is the address DuckDB's allocator gave it. Shown: reads do not see refused writes and
  transactions; the invariant of the caches; and an object stays described until it is refreshed.
\<close>

section \<open>State\<close>

record 'c database =
  db_caches :: catalog_caches
  db_transactions :: "nat set"
  db_world :: "'c sworld"
  db_rel :: RelSnapshot

type_synonym ('c, 'a) db = "('c database, 'a) sfm"

text \<open>What ATTACH leaves: the constructors of the catalog and of the transaction manager.\<close>

definition new_database :: "SalesforceConfig \<Rightarrow> SalesforceTokenSet \<Rightarrow> 'c sworld \<Rightarrow> RelSnapshot \<Rightarrow> 'c database" where
  "new_database config tok w rl =
     \<lparr> db_caches = \<lparr> cc_config = config, cc_token = tok, cc_schema = None, cc_engine = None \<rparr>,
       db_transactions = {}, db_world = w, db_rel = rl \<rparr>"

text \<open>An operation of the schema, when there is one, and an operation of the engine, made on demand.\<close>

definition on_schema :: "('c, 'a) cat \<Rightarrow> 'a \<Rightarrow> ('c, 'a) db" where
  "on_schema m absent = (\<lambda>d. case cc_schema (db_caches d) of
     None \<Rightarrow> (Inr absent, d)
   | Some se \<Rightarrow> (case m \<lparr> k_world = db_world d, k_schema = se, k_rel = db_rel d \<rparr> of
       (r, k) \<Rightarrow> (r, d \<lparr> db_caches := (db_caches d) \<lparr> cc_schema := Some (k_schema k) \<rparr>, db_world := k_world k, db_rel := k_rel k \<rparr>)))"

definition on_engine :: "('c, 'a) eng \<Rightarrow> ('c, 'a) db" where
  "on_engine m = (\<lambda>d. case GetMetadataEngine (db_caches d) of (e, c) \<Rightarrow>
     (case m \<lparr> ew_world = db_world d, ew_engine = e \<rparr> of
       (r, s) \<Rightarrow> (r, d \<lparr> db_caches := c \<lparr> cc_engine := Some (ew_engine s) \<rparr>, db_world := ew_world s \<rparr>)))"

section \<open>The catalog\<close>

definition GetCatalogType :: string where "GetCatalogType = ''salesforce''"

definition InMemory :: bool where "InMemory \<longleftrightarrow> False"

definition GetDBPath :: "'c database \<Rightarrow> string" where
  "GetDBPath d = ''salesforce://'' @ org (cc_config (db_caches d))"

definition catalog_Initialize :: "('c, unit) db" where
  "catalog_Initialize = (\<lambda>d. let c = db_caches d; blank = new_schema (cc_config c) (cc_token c) in
     case Initialize (cc_config c) (cc_token c) \<lparr> k_world = db_world d, k_schema = blank, k_rel = db_rel d \<rparr> of
       (r, k) \<Rightarrow> (r, d \<lparr> db_caches := c \<lparr> cc_schema := Some (k_schema k) \<rparr>, db_world := k_world k, db_rel := k_rel k \<rparr>))"

definition SALESFORCE_MAIN_SCHEMA :: string where "SALESFORCE_MAIN_SCHEMA = ''main''"

text \<open>\<open>dflt\<close> is DuckDB's default schema name; \<open>null_ok\<close> is its request for null instead of an error.\<close>

definition LookupSchema :: "string \<Rightarrow> string \<Rightarrow> bool \<Rightarrow> 'c database \<Rightarrow> schema_entry option result" where
  "LookupSchema dflt nm null_ok d =
     (if nm = [] \<or> nm = SALESFORCE_MAIN_SCHEMA \<or> nm = dflt then Inr (cc_schema (db_caches d))
      else if null_ok then Inr None
      else Inl (BinderException (''Schema '' @ [SQ] @ nm @ [SQ] @ '' not found in Salesforce catalog (only ''
             @ [SQ] @ ''main'' @ [SQ] @ '' is exposed)'')))"

definition ScanSchemas :: "'c database \<Rightarrow> schema_entry list" where
  "ScanSchemas d = (case cc_schema (db_caches d) of None \<Rightarrow> [] | Some se \<Rightarrow> [se])"

definition DescribeJsonForObject :: "'c external \<Rightarrow> string \<Rightarrow> ('c, string) db" where
  "DescribeJsonForObject X object =
     bnd (gets (\<lambda>d. cc_schema (db_caches d))) (\<lambda>main.
     bnd (if main = None then catalog_Initialize else ret ()) (\<lambda>_.
     on_schema (DescribeJsonCached X object) []))"

section \<open>Refused operations\<close>

datatype plan_op =
    CREATE_SCHEMA | DROP_SCHEMA | PLAN_CREATE_TABLE_AS | PLAN_INSERT | PLAN_DELETE | PLAN_UPDATE | PLAN_MERGE_INTO
  | BIND_CREATE_INDEX | BIND_ALTER_ADD_INDEX

fun plan_refusal :: "plan_op \<Rightarrow> string" where
  "plan_refusal CREATE_SCHEMA = ''CREATE SCHEMA is not supported on a Salesforce catalog (read-only).''"
| "plan_refusal DROP_SCHEMA = ''DROP SCHEMA is not supported on a Salesforce catalog.''"
| "plan_refusal PLAN_CREATE_TABLE_AS = ''CTAS not supported on Salesforce catalog''"
| "plan_refusal PLAN_INSERT = ''INSERT not supported on Salesforce catalog''"
| "plan_refusal PLAN_DELETE = ''DELETE not supported on Salesforce catalog''"
| "plan_refusal PLAN_UPDATE = ''UPDATE not supported on Salesforce catalog''"
| "plan_refusal PLAN_MERGE_INTO = ''MERGE not supported on Salesforce catalog''"
| "plan_refusal BIND_CREATE_INDEX = ''CREATE INDEX not supported on Salesforce catalog''"
| "plan_refusal BIND_ALTER_ADD_INDEX = ''ALTER ... ADD INDEX not supported on Salesforce catalog''"

definition catalog_plan :: "plan_op \<Rightarrow> ('c, 'a) db" where
  "catalog_plan op = throw (NotImplementedException (plan_refusal op))"

section \<open>Transactions\<close>

definition StartTransaction :: "nat \<Rightarrow> ('c, nat) db" where
  "StartTransaction tx = bnd (upd (\<lambda>d. d \<lparr> db_transactions := insert tx (db_transactions d) \<rparr>)) (\<lambda>_. ret tx)"

definition CommitTransaction :: "nat \<Rightarrow> ('c, unit) db" where
  "CommitTransaction tx = upd (\<lambda>d. d \<lparr> db_transactions := db_transactions d - {tx} \<rparr>)"

definition RollbackTransaction :: "nat \<Rightarrow> ('c, unit) db" where
  "RollbackTransaction tx = upd (\<lambda>d. d \<lparr> db_transactions := db_transactions d - {tx} \<rparr>)"

definition Checkpoint :: "('c, unit) db" where
  "Checkpoint = ret ()"

section \<open>Everything that can be asked of the database\<close>

datatype db_op =
    OpInitialize
  | OpLookup client_context bool bool string
  | OpListing bool
  | OpDescribeJson string
  | OpRefresh string
  | OpEngine engine_op
  | OpSchemaWrite mutating_op
  | OpCatalogWrite plan_op
  | OpStart nat
  | OpCommit nat
  | OpRollback nat
  | OpCheckpoint

text \<open>\<open>Absent\<close>: DuckDB found no schema to ask, because the catalog is not initialised.\<close>

datatype db_outcome =
    Done
  | Absent
  | Table "table_entry option"
  | Listing "(string \<rightharpoonup> table_entry) \<times> string list"
  | Json string
  | Transaction nat

definition as_outcome :: "('a \<Rightarrow> db_outcome) \<Rightarrow> ('s, 'a) sfm \<Rightarrow> ('s, db_outcome) sfm" where
  "as_outcome f m = bnd m (\<lambda>v. ret (f v))"

fun db_do :: "'c external \<Rightarrow> db_op \<Rightarrow> ('c, db_outcome) db" where
  "db_do X OpInitialize = as_outcome (\<lambda>_. Done) catalog_Initialize"
| "db_do X (OpLookup C t h object) = on_schema (as_outcome Table (LookupEntry C X t h object)) Absent"
| "db_do X (OpListing t) = on_schema (as_outcome Listing (schema_Scan X t)) Absent"
| "db_do X (OpDescribeJson object) = as_outcome Json (DescribeJsonForObject X object)"
| "db_do X (OpRefresh object) = as_outcome (\<lambda>_. Done)
     (upd (\<lambda>d. d \<lparr> db_caches := catalog_RefreshMetadata (x_su X) object (db_caches d) \<rparr>))"
| "db_do X (OpEngine e) = as_outcome (\<lambda>_. Done) (on_engine (engine_step X e))"
| "db_do X (OpSchemaWrite w) = on_schema (Unsupported w) Absent"
| "db_do X (OpCatalogWrite p) = catalog_plan p"
| "db_do X (OpStart tx) = as_outcome Transaction (StartTransaction tx)"
| "db_do X (OpCommit tx) = as_outcome (\<lambda>_. Done) (CommitTransaction tx)"
| "db_do X (OpRollback tx) = as_outcome (\<lambda>_. Done) (RollbackTransaction tx)"
| "db_do X OpCheckpoint = as_outcome (\<lambda>_. Done) Checkpoint"

primrec db_run :: "'c external \<Rightarrow> db_op list \<Rightarrow> 'c database \<Rightarrow> db_outcome result list \<times> 'c database" where
  "db_run X [] d = ([], d)"
| "db_run X (op # ops) d =
     (case db_do X op d of (r, d') \<Rightarrow> case db_run X ops d' of (rs, d'') \<Rightarrow> (r # rs, d''))"

section \<open>Transactions and refused writes are invisible\<close>

text \<open>What is left of a history without them, and what they answer.\<close>

fun reads :: "db_op \<Rightarrow> bool" where
  "reads (OpSchemaWrite _) \<longleftrightarrow> False"
| "reads (OpCatalogWrite _) \<longleftrightarrow> False"
| "reads (OpStart _) \<longleftrightarrow> False"
| "reads (OpCommit _) \<longleftrightarrow> False"
| "reads (OpRollback _) \<longleftrightarrow> False"
| "reads OpCheckpoint \<longleftrightarrow> False"
| "reads _ \<longleftrightarrow> True"

fun answered :: "db_op \<Rightarrow> db_outcome result \<Rightarrow> bool" where
  "answered (OpSchemaWrite w) r \<longleftrightarrow> r = Inr Absent \<or> r = Inl (NotImplementedException
     (''Salesforce ATTACH catalog is read-only '' @ emdash @ '' '' @ op_name w @ '' is not supported.''))"
| "answered (OpCatalogWrite p) r \<longleftrightarrow> r = Inl (NotImplementedException (plan_refusal p))"
| "answered (OpStart tx) r \<longleftrightarrow> r = Inr (Transaction tx)"
| "answered (OpCommit _) r \<longleftrightarrow> r = Inr Done"
| "answered (OpRollback _) r \<longleftrightarrow> r = Inr Done"
| "answered OpCheckpoint r \<longleftrightarrow> r = Inr Done"
| "answered _ r \<longleftrightarrow> True"

text \<open>The live transactions after a history.\<close>

fun live :: "nat set \<Rightarrow> db_op list \<Rightarrow> nat set" where
  "live T [] = T"
| "live T (OpStart tx # ops) = live (insert tx T) ops"
| "live T (OpCommit tx # ops) = live (T - {tx}) ops"
| "live T (OpRollback tx # ops) = live (T - {tx}) ops"
| "live T (_ # ops) = live T ops"

text \<open>Outside the transaction set, an operation does not see it; a transaction operation or write sees nothing else.\<close>

lemma db_run_simps [sfm_simps]:
  "on_schema m absent d = (case cc_schema (db_caches d) of
     None \<Rightarrow> (Inr absent, d)
   | Some se \<Rightarrow> (case m \<lparr> k_world = db_world d, k_schema = se, k_rel = db_rel d \<rparr> of
       (r, k) \<Rightarrow> (r, d \<lparr> db_caches := (db_caches d) \<lparr> cc_schema := Some (k_schema k) \<rparr>, db_world := k_world k, db_rel := k_rel k \<rparr>)))"
  "on_engine n d = (case GetMetadataEngine (db_caches d) of (e, c) \<Rightarrow>
     (case n \<lparr> ew_world = db_world d, ew_engine = e \<rparr> of
       (r, s) \<Rightarrow> (r, d \<lparr> db_caches := c \<lparr> cc_engine := Some (ew_engine s) \<rparr>, db_world := ew_world s \<rparr>)))"
  by (simp_all add: on_schema_def on_engine_def)

lemmas db_ops = as_outcome_def catalog_Initialize_def DescribeJsonForObject_def catalog_plan_def StartTransaction_def
  CommitTransaction_def RollbackTransaction_def Checkpoint_def Unsupported_def

lemma db_do_reads:
  assumes "reads op"
  shows "db_do X op (d \<lparr> db_transactions := T \<rparr>) = (case db_do X op d of (r, d') \<Rightarrow> (r, d' \<lparr> db_transactions := T \<rparr>)) \<and>
    db_transactions (snd (db_do X op d)) = db_transactions d"
  using assms
  by (cases op) (auto simp: db_ops sfm_simps Let_def split: prod.splits sum.splits option.splits)

lemma db_do_hidden:
  assumes "\<not> reads op"
  shows "case db_do X op d of (r, d') \<Rightarrow>
    answered op r \<and> d' = d \<lparr> db_transactions := live (db_transactions d) [op] \<rparr>"
  using assms
  by (cases op) (auto simp: db_ops sfm_simps split: prod.splits sum.splits option.splits)

lemma live_reads: "reads op \<Longrightarrow> live T (op # ops) = live T ops"
  by (cases op) simp_all

lemma live_Cons: "live T (op # ops) = live (live T [op]) ops"
  by (cases op) simp_all

lemma answered_reads: "reads op \<Longrightarrow> answered op r"
  by (cases op) simp_all

lemma db_run_hidden:
  "case db_run X ops d of (rs, d') \<Rightarrow>
     list_all2 answered ops rs \<and> db_transactions d' = live (db_transactions d) ops \<and>
     db_run X (filter reads ops) (d \<lparr> db_transactions := T \<rparr>) =
       (map snd (filter (\<lambda>(op, r). reads op) (zip ops rs)), d' \<lparr> db_transactions := T \<rparr>)"
proof (induction ops arbitrary: d)
  case Nil
  then show ?case by simp
next
  case (Cons op ops)
  obtain r d1 where d1: "db_do X op d = (r, d1)" by fastforce
  obtain rs d2 where d2: "db_run X ops d1 = (rs, d2)" by fastforce
  from Cons.IH [where d = d1] d2 have ih: "list_all2 answered ops rs" "db_transactions d2 = live (db_transactions d1) ops"
    "db_run X (filter reads ops) (d1 \<lparr> db_transactions := T \<rparr>) =
      (map snd (filter (\<lambda>(op, r). reads op) (zip ops rs)), d2 \<lparr> db_transactions := T \<rparr>)" by auto
  show ?case
  proof (cases "reads op")
    case True
    from db_do_reads [OF True, where X = X and d = d and T = T] d1 ih d2 True show ?thesis
      by (simp add: live_reads answered_reads)
  next
    case False
    from db_do_hidden [OF False, where X = X and d = d] d1 have h: "answered op r" "d1 = d \<lparr> db_transactions := live (db_transactions d) [op] \<rparr>"
      by auto
    from h ih d1 d2 False show ?thesis
      by (simp add: live_Cons [of "db_transactions d" op ops])
  qed
qed

text \<open>
  C10: An attached database is read-only, and its transactions are no-ops. In any history of
  lookups, listings, raw describes, refreshes, engine lookups, refused writes and transactions,
  every write is refused with the message of its operation, every commit and rollback succeeds,
  and taking all of them out of the history changes neither what any other operation returns
  nor the state it leads to, but for the set of live transactions, which is exactly those
  started and not ended.
\<close>

theorem database_read_only:
  "case db_run X ops d of (rs, d') \<Rightarrow>
     list_all2 answered ops rs \<and> db_transactions d' = live (db_transactions d) ops \<and>
     db_run X (filter reads ops) d =
       (map snd (filter (\<lambda>(op, r). reads op) (zip ops rs)), d' \<lparr> db_transactions := db_transactions d \<rparr>)"
  using db_run_hidden [where X = X and ops = ops and d = d and T = "db_transactions d"] by simp

section \<open>The invariant of an attached database\<close>

text \<open>
  What can happen to an attached database: everything above in any order, except that the
  allocator never gives the address of a live transaction, and in between other functions may
  use the outside world and the diagnostics.
\<close>

inductive db_reachable :: "'c external \<Rightarrow> 'c database \<Rightarrow> bool" for X where
  attach: "SalesforceAttach C X path options w = (Inr (config, tok), w') \<Longrightarrow> db_reachable X (new_database config tok w' rl)"
| step: "db_reachable X d \<Longrightarrow> db_do X op d = (r, d') \<Longrightarrow> db_reachable X d'"
| elsewhere: "db_reachable X d \<Longrightarrow> db_reachable X (d \<lparr> db_world := w, db_rel := rl \<rparr>)"

text \<open>Both caches are well formed, and both belong to the org that was attached.\<close>

definition schema_of_org :: "SalesforceConfig \<Rightarrow> SalesforceTokenSet \<Rightarrow> schema_entry \<Rightarrow> bool" where
  "schema_of_org config tok se \<longleftrightarrow> se_config se = config \<and> se_token se = tok"

definition engine_of_org :: "SalesforceConfig \<Rightarrow> SalesforceTokenSet \<Rightarrow> SalesforceMetadataEngine \<Rightarrow> bool" where
  "engine_of_org config tok e \<longleftrightarrow> me_config e = config \<and> me_token e = tok"

definition caches_ok :: "string_util \<Rightarrow> catalog_caches \<Rightarrow> bool" where
  "caches_ok D c \<longleftrightarrow>
     pred_option (\<lambda>se. schema_ok D se \<and> schema_of_org (cc_config c) (cc_token c) se) (cc_schema c) \<and>
     pred_option (\<lambda>e. engine_ok D e \<and> engine_of_org (cc_config c) (cc_token c) e) (cc_engine c)"

text \<open>
  The contract of a state invariant with all of the schema's caches: beside the resolution of
  parents, it survives anything stored under a name that had no table, the object listing, and the
  raw describes.
\<close>

locale cache_invariant = resolution_invariant X I for X :: "'c external" and I :: "'c catalog_world \<Rightarrow> bool" +
  assumes store: "I k \<Longrightarrow> (\<And>key e. se_tables (k_schema k) key = Some e \<Longrightarrow> tables key = Some e) \<Longrightarrow>
      I (k \<lparr> k_schema := (k_schema k) \<lparr> se_tables := tables \<rparr> \<rparr>)"
    and listing: "I k \<Longrightarrow> I (k \<lparr> k_schema := (k_schema k) \<lparr> se_listing := objs, se_object_list_loaded := b \<rparr> \<rparr>)"
    and json: "I k \<Longrightarrow> I (k \<lparr> k_schema := (k_schema k) \<lparr> se_describe_json := bodies \<rparr> \<rparr>)"
begin

lemmas cache_steps = hoare_bnd [OF hoare_gets [where Q = "\<lambda>_. True"]] hoare_bnd [OF hoare_world_do [OF hoare_true]]
  hoare_bnd [OF hoare_schema_do [where Q = "\<lambda>_. True"]] hoare_bnd [OF open_session_keeps]
  hoare_bnd [OF hoare_rel_do [where Q = "\<lambda>_. True"]]

lemma store_new:
  "I k \<Longrightarrow> I (k \<lparr> k_schema := (k_schema k) \<lparr> se_tables := put_new key t (se_tables (k_schema k)) \<rparr> \<rparr>)"
  by (erule store) (auto simp: put_new_def split: if_splits)

lemma store_described:
  "I k \<Longrightarrow> I (k \<lparr> k_schema := (k_schema k) \<lparr> se_tables := add_described D got (se_tables (k_schema k)) \<rparr> \<rparr>)"
  by (erule store) (simp add: add_described_def)

lemma lookup_describe_inv: "hoare I (lookup_describe C X object) (\<lambda>_. True)"
  unfolding lookup_describe_def Let_def BuildAndCacheEntry_def
  by (intro cache_steps(2) hoare_bnd [OF hoare_world_do [OF Describe_named]] cache_steps(5) cache_steps(3) hoare_ret
      hoare_bnd [OF hoare_if [OF hoare_weaken [OF ExpandParentRelationships_ok] hoare_ret], where R = "\<lambda>_. True"])
     (auto intro: world rel store_new)

lemma LookupEntry_inv: "hoare I (LookupEntry C X t h object) (\<lambda>_. True)"
  unfolding LookupEntry_def Let_def lookup_tooling_def
  by (intro hoare_if hoare_ret cache_steps hoare_option hoare_gets hoare_bnd [OF lookup_describe_inv]
      hoare_bnd [OF hoare_if, where R = "\<lambda>_. True"])
     (auto intro: world store_described)

lemma EnsureObjectListLoaded_inv: "hoare I (EnsureObjectListLoaded X) (\<lambda>_. True)"
  unfolding EnsureObjectListLoaded_def
  by (intro hoare_if hoare_ret cache_steps hoare_schema_do) (auto intro: world listing)

lemma schema_Scan_inv: "hoare I (schema_Scan X t) (\<lambda>_. True)"
  unfolding schema_Scan_def by (intro hoare_if hoare_ret hoare_gets hoare_bnd [OF EnsureObjectListLoaded_inv]) simp_all

lemma DescribeJsonCached_inv: "hoare I (DescribeJsonCached X object) (\<lambda>_. True)"
  unfolding DescribeJsonCached_def Let_def
  by (intro hoare_ret cache_steps hoare_option) (auto intro: world json)

end

abbreviation org_kept :: "SalesforceConfig \<Rightarrow> SalesforceTokenSet \<Rightarrow> 'c catalog_world \<Rightarrow> bool" where
  "org_kept config tok k \<equiv> schema_of_org config tok (k_schema k) \<and>
    (\<forall>key d. se_parent_describe (k_schema k) key = Some d \<longrightarrow> flat_describe d)"

abbreviation entry_kept :: "string \<Rightarrow> table_entry \<Rightarrow> 'c catalog_world \<Rightarrow> bool" where
  "entry_kept name e k \<equiv> se_tables (k_schema k) name = Some e \<and>
    (\<forall>key d. se_parent_describe (k_schema k) key = Some d \<longrightarrow> flat_describe d)"

text \<open>Two such invariants: the cache stays with its org, and a resolved table stays resolved.\<close>

interpretation same_org: cache_invariant X "org_kept config tok" for X :: "'c external" and config tok
  by unfold_locales (auto simp: schema_of_org_def)

interpretation same_entry: cache_invariant X "entry_kept name e" for X :: "'c external" and name e
  by unfold_locales auto

lemma engine_do_org: "(\<And>e. engine_of_org config tok e \<Longrightarrow> engine_of_org config tok (f e)) \<Longrightarrow>
    hoare (\<lambda>s. engine_of_org config tok (ew_engine s)) (engine_do f) (\<lambda>_. True)"
  unfolding engine_do_def by (rule hoare_upd) simp_all

lemma eng_globals_do_org: "hoare (\<lambda>s. engine_of_org config tok (ew_engine s)) (eng_globals_do f) (\<lambda>_. True)"
  unfolding eng_globals_do_def by (rule hoare_upd) simp_all

lemma with_session_org: "hoare (\<lambda>s. engine_of_org config tok (ew_engine s)) (with_session m) (\<lambda>_. True)"
  by (rule hoareI) (auto simp: eng_run engine_of_org_def split: prod.splits sum.splits)

lemmas engine_rules = hoare_bnd [where R = "\<lambda>_. True"] hoare_if hoare_option hoare_ret hoare_gets with_session_org eng_globals_do_org

lemma engine_caches_org:
  "hoare (\<lambda>s. engine_of_org config tok (ew_engine s)) (EnsureGlobalLoaded X) (\<lambda>_. True)"
  "hoare (\<lambda>s. engine_of_org config tok (ew_engine s)) (GetObjectDescribe X object) (\<lambda>_. True)"
proof -
  show "hoare (\<lambda>s. engine_of_org config tok (ew_engine s)) (EnsureGlobalLoaded X) (\<lambda>_. True)"
    unfolding EnsureGlobalLoaded_def by (intro engine_rules engine_do_org) (auto simp: engine_of_org_def)
  show "hoare (\<lambda>s. engine_of_org config tok (ew_engine s)) (GetObjectDescribe X object) (\<lambda>_. True)"
    unfolding GetObjectDescribe_def Let_def by (intro engine_rules engine_do_org) (auto simp: engine_of_org_def)
qed

lemma engine_step_org: "hoare (\<lambda>s. engine_of_org config tok (ew_engine s)) (engine_step X op) (\<lambda>_. True)"
  by (cases op)
     (simp_all only: engine_step.simps GetGlobalObjects_def GetGlobalObjectInfos_def IsQueryable_def ResolveField_def
        ResolveRelationship_def, (intro engine_rules engine_caches_org; simp)+)

lemma on_schema_keeps:
  assumes "caches_ok D (db_caches d)" and run: "on_schema m absent d = (r, d')"
    and ok: "\<And>k r k'. schema_ok D (k_schema k) \<Longrightarrow> m k = (r, k') \<Longrightarrow> schema_ok D (k_schema k')"
    and org: "\<And>config tok. hoare (org_kept config tok) m (\<lambda>_. True)"
  shows "caches_ok D (db_caches d')"
proof (cases "cc_schema (db_caches d)")
  case None
  with run assms(1) show ?thesis by (simp add: sfm_simps)
next
  case (Some se)
  let ?k = "\<lparr> k_world = db_world d, k_schema = se, k_rel = db_rel d \<rparr>"
  let ?c = "cc_config (db_caches d)" and ?t = "cc_token (db_caches d)"
  obtain r1 k1 where m: "m ?k = (r1, k1)" by fastforce
  from assms(1) Some have se: "schema_ok D se" "schema_of_org ?c ?t se" by (auto simp: caches_ok_def)
  then have "org_kept ?c ?t ?k" by (auto simp: schema_ok_def)
  from hoare_keeps [OF org this m] ok [OF _ m] se(1) have "schema_ok D (k_schema k1)" "schema_of_org ?c ?t (k_schema k1)" by auto
  with run Some m assms(1) show ?thesis by (auto simp: sfm_simps caches_ok_def)
qed

lemma new_engine_org: "engine_of_org config tok (new_engine config tok)"
  by (simp add: engine_of_org_def new_engine_def)

lemma on_engine_keeps:
  assumes "caches_ok (x_su X) (db_caches d)" and run: "on_engine (engine_step X e) d = (r, d')"
  shows "caches_ok (x_su X) (db_caches d')"
proof -
  let ?c = "cc_config (db_caches d)" and ?t = "cc_token (db_caches d)"
  obtain en c where g: "GetMetadataEngine (db_caches d) = (en, c)" by fastforce
  let ?s = "\<lparr> ew_world = db_world d, ew_engine = en \<rparr>"
  obtain r1 s1 where m: "engine_step X e ?s = (r1, s1)" by fastforce
  from g assms(1) have en: "engine_ok (x_su X) en" "engine_of_org ?c ?t en" "cc_config c = ?c" "cc_token c = ?t"
    "cc_schema c = cc_schema (db_caches d)"
    by (auto simp: GetMetadataEngine_def caches_ok_def new_engine_ok new_engine_org Let_def split: option.splits)
  from en(1) have "engine_ok (x_su X) (ew_engine ?s)" by simp
  with engine_step_caching [of X e] m have "engine_ok (x_su X) (ew_engine s1)" unfolding caching_def by blast
  moreover from hoare_keeps [OF engine_step_org _ m] en(2) have "engine_of_org ?c ?t (ew_engine s1)" by simp
  ultimately show ?thesis using run g m en assms(1) by (auto simp: sfm_simps caches_ok_def)
qed

lemma catalog_Initialize_keeps:
  assumes "caches_ok D (db_caches d)" and "catalog_Initialize d = (r, d')"
  shows "caches_ok D (db_caches d')"
  using assms
  by (auto simp: catalog_Initialize_def Initialize_def sfm_simps Let_def caches_ok_def new_schema_def schema_ok_def schema_of_org_def)

lemma engine_refresh_ok:
  "engine_ok D e \<Longrightarrow> engine_ok D (RefreshAll e) \<and> engine_ok D (engine_Refresh D object e)"
  "engine_of_org config tok e \<Longrightarrow> engine_of_org config tok (RefreshAll e) \<and> engine_of_org config tok (engine_Refresh D object e)"
  by (auto simp: engine_ok_def RefreshAll_def engine_Refresh_def queryable_names_def engine_of_org_def)

lemma schema_refresh_org: "schema_of_org config tok se \<Longrightarrow> schema_of_org config tok (schema_RefreshMetadata D object se)"
  by (simp add: schema_of_org_def schema_RefreshMetadata_def Let_def)

lemma catalog_RefreshMetadata_keeps:
  assumes "caches_ok D c"
  shows "caches_ok D (catalog_RefreshMetadata D object c)"
  using assms
  by (cases "cc_schema c"; cases "cc_engine c")
     (simp_all add: caches_ok_def catalog_RefreshMetadata_def refresh_ok engine_refresh_ok schema_refresh_org)

lemma as_outcome_run: "as_outcome f m s = (case m s of (Inl e, s') \<Rightarrow> (Inl e, s') | (Inr v, s') \<Rightarrow> (Inr (f v), s'))"
  by (simp add: as_outcome_def sfm_simps split: prod.splits sum.splits)

lemma as_outcome_keeps: "as_outcome f m s = (r, s') \<Longrightarrow> (\<And>r. m s = (r, s') \<Longrightarrow> P s') \<Longrightarrow> P s'"
  by (auto simp: as_outcome_run split: prod.splits sum.splits)

lemma hoare_as_outcome: "hoare I m (\<lambda>_. True) \<Longrightarrow> hoare I (as_outcome f m) (\<lambda>_. True)"
  unfolding as_outcome_def by (intro hoare_bnd [where R = "\<lambda>_. True"] hoare_ret) simp_all

lemma schema_steps_ok:
  "schema_ok (x_su X) (k_schema k) \<Longrightarrow> LookupEntry C X t h object k = (r, k') \<Longrightarrow> schema_ok (x_su X) (k_schema k')"
  "schema_ok (x_su X) (k_schema k) \<Longrightarrow> schema_Scan X t k = (r2, k') \<Longrightarrow> schema_ok (x_su X) (k_schema k')"
  "schema_ok (x_su X) (k_schema k) \<Longrightarrow> DescribeJsonCached X object k = (r3, k') \<Longrightarrow> schema_ok (x_su X) (k_schema k')"
  using LookupEntry_ok [of X k C t h object r k'] hoare_keeps [OF schema_Scan_keeps, of X k t r2 k']
    hoare_keeps [OF DescribeJsonCached_keeps, of X k object r3 k'] by auto

lemma DescribeJsonForObject_keeps:
  assumes "caches_ok (x_su X) (db_caches d)" and "DescribeJsonForObject X object d = (r, d')"
  shows "caches_ok (x_su X) (db_caches d')"
proof -
  have final: "caches_ok (x_su X) (db_caches d')"
    if "caches_ok (x_su X) (db_caches d1)" "on_schema (DescribeJsonCached X object) [] d1 = (r1, d')" for d1 r1
    by (rule on_schema_keeps [OF that]) (erule (1) schema_steps_ok(3), rule same_org.DescribeJsonCached_inv)
  obtain r1 d1 where i: "catalog_Initialize d = (r1, d1)" by fastforce
  then have "r1 = Inr ()" by (auto simp: catalog_Initialize_def Initialize_def sfm_simps Let_def)
  with assms(2) i have "on_schema (DescribeJsonCached X object) [] (if cc_schema (db_caches d) = None then d1 else d) = (r, d')"
    by (auto simp: DescribeJsonForObject_def bnd_run sfm_run split: if_splits)
  with final assms(1) catalog_Initialize_keeps [OF assms(1) i] show ?thesis by (auto split: if_splits)
qed

lemma db_do_keeps:
  assumes "caches_ok (x_su X) (db_caches d)" and "db_do X op d = (r, d')"
  shows "caches_ok (x_su X) (db_caches d')"
proof (cases op)
  case OpInitialize
  with assms show ?thesis by (auto elim!: as_outcome_keeps intro: catalog_Initialize_keeps)
next
  case (OpLookup C t h object)
  with assms(2) have run: "on_schema (as_outcome Table (LookupEntry C X t h object)) Absent d = (r, d')" by simp
  show ?thesis
    by (rule on_schema_keeps [OF assms(1) run]) (erule as_outcome_keeps, erule (1) schema_steps_ok(1), rule hoare_as_outcome, rule same_org.LookupEntry_inv)
next
  case (OpListing t)
  with assms(2) have run: "on_schema (as_outcome Listing (schema_Scan X t)) Absent d = (r, d')" by simp
  show ?thesis
    by (rule on_schema_keeps [OF assms(1) run]) (erule as_outcome_keeps, erule (1) schema_steps_ok(2), rule hoare_as_outcome, rule same_org.schema_Scan_inv)
next
  case (OpDescribeJson object)
  with assms show ?thesis by (auto elim!: as_outcome_keeps intro: DescribeJsonForObject_keeps)
next
  case (OpRefresh object)
  with assms show ?thesis by (auto simp: as_outcome_run sfm_simps catalog_RefreshMetadata_keeps)
next
  case (OpEngine e)
  with assms show ?thesis by (auto elim!: as_outcome_keeps intro: on_engine_keeps)
next
  case (OpSchemaWrite w)
  with assms(2) have run: "on_schema (Unsupported w) Absent d = (r, d')" by simp
  show ?thesis
    by (rule on_schema_keeps [OF assms(1) run]) (auto simp: Unsupported_def sfm_simps hoare_throw)
qed (use assms in \<open>auto simp: db_ops sfm_simps\<close>)

lemma db_do_credentials:
  "db_do X op d = (r, d') \<Longrightarrow> cc_config (db_caches d') = cc_config (db_caches d) \<and> cc_token (db_caches d') = cc_token (db_caches d)"
  by (cases op)
     (auto simp: db_ops sfm_simps Let_def GetMetadataEngine_def catalog_RefreshMetadata_def
       split: prod.splits sum.splits option.splits if_splits)

lemma new_database_ok: "caches_ok D (db_caches (new_database config tok w rl))"
  by (simp add: new_database_def caches_ok_def)

lemma SalesforceAttach_token: "SalesforceAttach C X path options w = (Inr (config, tok), w') \<Longrightarrow> access_token tok \<noteq> [] \<and> instance_url tok \<noteq> []"
  by (auto simp: SalesforceAttach_def outside_do_def sfm_simps dest: AcquireToken_nonempty split: prod.splits sum.splits)

lemma reachable_caches: "db_reachable X d \<Longrightarrow> caches_ok (x_su X) (db_caches d)"
proof (induction rule: db_reachable.induct)
  case (step d op r d')
  then show ?case by (blast intro: db_do_keeps)
qed (simp_all add: new_database_ok)

text \<open>
  C11: In every state an attached database can reach, the caches of its schema and of its metadata
  engine are well formed (tables filed under their lower-cased names with exactly their selectable
  columns, flat parent describes, no object listed twice; the object list of the engine is the
  queryable part of what Describe Global answered), both caches belong to the org that was
  attached (their configuration and token are those of the catalog), and the catalog holds an
  access token and an instance to send it to.
\<close>

theorem database_invariant:
  assumes "db_reachable X d"
  shows "caches_ok (x_su X) (db_caches d) \<and> access_token (cc_token (db_caches d)) \<noteq> [] \<and> instance_url (cc_token (db_caches d)) \<noteq> []"
  using assms
proof induction
  case (attach C path options w config tok w' rl)
  from SalesforceAttach_token [OF attach.hyps] show ?case by (simp add: new_database_ok) (simp add: new_database_def)
next
  case (step d op r d')
  from db_do_keeps [OF _ step.hyps(2)] db_do_credentials [OF step.hyps(2)] step.IH show ?case by simp
next
  case (elsewhere d w rl)
  then show ?case by simp
qed

lemma db_run_reachable: "db_reachable X d \<Longrightarrow> db_run X ops d = (rs, d') \<Longrightarrow> db_reachable X d'"
  by (induction ops arbitrary: d rs) (auto split: prod.splits intro: db_reachable.step)

definition token_server :: "history external" where
  "token_server = static_server (\<lambda>_. ''{'' @ quoted ''access_token'' @ '':'' @ quoted ''t'' @ '','' @ quoted ''instance_url'' @ '':''
     @ quoted ''https://x'' @ ''}'') history_external"

definition sample_history :: "db_op list" where
  "sample_history = [OpInitialize, OpStart 1, OpLookup bare_context True True ''Account'', OpCatalogWrite PLAN_INSERT,
     OpEngine (AskDescribe ''Contact''), OpRefresh ''Account'', OpCommit 1]"

theorem database_invariant_witness:
  "case SalesforceAttach bare_context token_server ''salesforce://prod'' (sample_options ''s'') sample_state of
     (Inr (config, tok), w') \<Rightarrow>
       (case db_run token_server sample_history (new_database config tok w' empty_rel_snapshot) of
          (rs, d') \<Rightarrow> caches_ok ascii_su (db_caches d'))
   | _ \<Rightarrow> False"
proof -
  have "case SalesforceAttach bare_context token_server ''salesforce://prod'' (sample_options ''s'') sample_state of
     (Inr _, w') \<Rightarrow> True | _ \<Rightarrow> False" by code_simp
  then obtain config tok w' where a: "SalesforceAttach bare_context token_server ''salesforce://prod'' (sample_options ''s'') sample_state =
      (Inr (config, tok), w')" by (auto split: prod.splits sum.splits)
  obtain rs d' where r: "db_run token_server sample_history (new_database config tok w' empty_rel_snapshot) = (rs, d')" by fastforce
  have su: "x_su token_server = ascii_su" by (simp add: token_server_def static_server_def history_external_def)
  from database_invariant [OF db_run_reachable [OF db_reachable.attach [OF a] r]] show ?thesis
    unfolding a by (simp add: r su)
qed

section \<open>An object is described once\<close>

definition cached_table :: "string \<Rightarrow> 'c database \<Rightarrow> table_entry option" where
  "cached_table key d = (case cc_schema (db_caches d) of None \<Rightarrow> None | Some se \<Rightarrow> se_tables se key)"

text \<open>The operations that leave a table resolved: all but a new initialisation and a refresh of it, alone or with all.\<close>

fun leaves_cached :: "string_util \<Rightarrow> string \<Rightarrow> db_op \<Rightarrow> bool" where
  "leaves_cached D key OpInitialize \<longleftrightarrow> False"
| "leaves_cached D key (OpRefresh object) \<longleftrightarrow> object \<noteq> [] \<and> su_Lower D object \<noteq> key"
| "leaves_cached D key _ \<longleftrightarrow> True"

text \<open>Any number of them, with any use of the outside world and of the diagnostics in between.\<close>

inductive undisturbed :: "'c external \<Rightarrow> string \<Rightarrow> 'c database \<Rightarrow> 'c database \<Rightarrow> bool" for X key where
  now: "undisturbed X key d d"
| op: "undisturbed X key d d1 \<Longrightarrow> leaves_cached (x_su X) key op \<Longrightarrow> db_do X op d1 = (r, d2) \<Longrightarrow> undisturbed X key d d2"
| elsewhere: "undisturbed X key d d1 \<Longrightarrow> undisturbed X key d (d1 \<lparr> db_world := w, db_rel := rl \<rparr>)"

lemma caches_flat: "caches_ok D (db_caches d) \<Longrightarrow> cc_schema (db_caches d) = Some se \<Longrightarrow> schema_ok D se"
  by (simp add: caches_ok_def)

lemma on_schema_entry:
  assumes "caches_ok D (db_caches d)" and "cached_table key d = Some e" and run: "on_schema m absent d = (r, d')"
    and keeps: "hoare (entry_kept key e) m (\<lambda>_. True)"
  shows "cached_table key d' = Some e"
proof -
  from assms(2) obtain se where se: "cc_schema (db_caches d) = Some se" "se_tables se key = Some e"
    by (auto simp: cached_table_def split: option.splits)
  let ?k = "\<lparr> k_world = db_world d, k_schema = se, k_rel = db_rel d \<rparr>"
  obtain r1 k1 where m: "m ?k = (r1, k1)" by fastforce
  from caches_flat [OF assms(1) se(1)] se(2) have "entry_kept key e ?k" by (auto simp: schema_ok_def)
  from hoare_keeps [OF keeps this m] run se m show ?thesis by (auto simp: sfm_simps cached_table_def)
qed

lemma DescribeJsonForObject_schema:
  "cc_schema (db_caches d) \<noteq> None \<Longrightarrow> DescribeJsonForObject X object d = on_schema (DescribeJsonCached X object) [] d"
  by (auto simp: DescribeJsonForObject_def bnd_run sfm_run)

lemma db_do_entry:
  assumes "caches_ok (x_su X) (db_caches d)" and "cached_table key d = Some e"
    and "leaves_cached (x_su X) key op" and run: "db_do X op d = (r, d')"
  shows "cached_table key d' = Some e"
proof (cases op)
  case OpInitialize
  with assms(3) show ?thesis by simp
next
  case (OpLookup C t h object)
  with run have "on_schema (as_outcome Table (LookupEntry C X t h object)) Absent d = (r, d')" by simp
  then show ?thesis by (rule on_schema_entry [OF assms(1,2)]) (rule hoare_as_outcome, rule same_entry.LookupEntry_inv)
next
  case (OpListing t)
  with run have "on_schema (as_outcome Listing (schema_Scan X t)) Absent d = (r, d')" by simp
  then show ?thesis by (rule on_schema_entry [OF assms(1,2)]) (rule hoare_as_outcome, rule same_entry.schema_Scan_inv)
next
  case (OpDescribeJson object)
  from assms(2) have "cc_schema (db_caches d) \<noteq> None" by (auto simp: cached_table_def split: option.splits)
  with OpDescribeJson run obtain r1 where "on_schema (DescribeJsonCached X object) [] d = (r1, d')"
    by (auto simp: as_outcome_run DescribeJsonForObject_schema split: prod.splits sum.splits)
  then show ?thesis by (rule on_schema_entry [OF assms(1,2)]) (rule same_entry.DescribeJsonCached_inv)
next
  case (OpRefresh object)
  with assms(2,3) run show ?thesis
    by (auto simp: as_outcome_run sfm_simps cached_table_def catalog_RefreshMetadata_def schema_RefreshMetadata_def Let_def
        split: option.splits)
next
  case (OpEngine en)
  with assms(2) run show ?thesis
    by (auto simp: as_outcome_run sfm_simps cached_table_def GetMetadataEngine_def Let_def split: option.splits prod.splits sum.splits)
next
  case (OpSchemaWrite w)
  with run have "on_schema (Unsupported w) Absent d = (r, d')" by simp
  then show ?thesis by (rule on_schema_entry [OF assms(1,2)]) (simp add: Unsupported_def hoare_throw)
qed (use assms in \<open>auto simp: db_ops sfm_simps cached_table_def\<close>)

lemma undisturbed_entry:
  assumes "undisturbed X key d d'" and "caches_ok (x_su X) (db_caches d)" and "cached_table key d = Some e"
  shows "caches_ok (x_su X) (db_caches d') \<and> cached_table key d' = Some e"
  using assms
proof induction
  case (op d d1 op r d2)
  then have "caches_ok (x_su X) (db_caches d1)" "cached_table key d1 = Some e" by simp_all
  from db_do_keeps [OF this(1) op.hyps(3)] db_do_entry [OF this op.hyps(2,3)] show ?case by simp
qed (simp_all add: cached_table_def)

lemma cached_lookup:
  assumes "cached_table (su_Lower (x_su X) object) d = Some e"
  shows "db_do X (OpLookup C True True object) d = (Inr (Table (Some e)), d)"
proof -
  from assms obtain se where se: "cc_schema (db_caches d) = Some se" "se_tables se (su_Lower (x_su X) object) = Some e"
    by (auto simp: cached_table_def split: option.splits)
  let ?k = "\<lparr> k_world = db_world d, k_schema = se, k_rel = db_rel d \<rparr>"
  from se(2) LookupEntry_hit [of ?k X object e C] have "LookupEntry C X True True object ?k = (Inr (Some e), ?k)" by simp
  with se(1) show ?thesis by (simp add: sfm_simps as_outcome_run)
qed

lemma refreshed_entry: "object = [] \<or> su_Lower (x_su X) object = key \<Longrightarrow>
    cached_table key (snd (db_do X (OpRefresh object) d)) = None"
  by (auto simp: as_outcome_run sfm_simps cached_table_def catalog_RefreshMetadata_def schema_RefreshMetadata_def Let_def split: option.splits)

lemma looked_up:
  assumes "caches_ok (x_su X) (db_caches d)" and "db_do X (OpLookup C True True object) d = (r, d1)"
  shows "caches_ok (x_su X) (db_caches d1) \<and>
    (case r of Inl err \<Rightarrow> cached_table (su_Lower (x_su X) object) d1 = None
     | Inr (Table (Some e)) \<Rightarrow> cached_table (su_Lower (x_su X) object) d1 = Some e
     | Inr out \<Rightarrow> out = Absent \<and> cc_schema (db_caches d) = None \<and> d1 = d)"
proof -
  have ok: "caches_ok (x_su X) (db_caches d1)" by (rule db_do_keeps [OF assms])
  show ?thesis
  proof (cases "cc_schema (db_caches d)")
    case None
    with assms(2) ok show ?thesis by (auto simp: sfm_simps)
  next
    case (Some se)
    let ?k = "\<lparr> k_world = db_world d, k_schema = se, k_rel = db_rel d \<rparr>"
    obtain r1 k1 where m: "LookupEntry C X True True object ?k = (r1, k1)" by fastforce
    from LookupEntry_ok [OF _ m] caches_flat [OF assms(1) Some] assms(2) Some m ok show ?thesis
      by (auto simp: sfm_simps as_outcome_run cached_table_def split: sum.splits option.splits)
  qed
qed

text \<open>
  C29: An object is described once. A lookup of a table in an attached database that succeeds
  leaves it resolved: after any further lookups, listings, describes, engine lookups, refused
  writes, transactions and refreshes of other objects, in any order, under any settings and
  whatever the server does meanwhile, every lookup of the object in any letter case returns the
  same table, without a request and without touching the state. A refresh of the object or of
  everything forgets the table. A lookup that fails leaves no table behind for the object.
\<close>

theorem lookup_once_until_refresh:
  assumes "db_reachable X d" and "db_do X (OpLookup C True True object) d = (r, d1)"
    and "undisturbed X (su_Lower (x_su X) object) d1 d2"
  shows "case r of
      Inl err \<Rightarrow> cached_table (su_Lower (x_su X) object) d1 = None
    | Inr (Table (Some e)) \<Rightarrow>
        (\<forall>C' object'. su_Lower (x_su X) object' = su_Lower (x_su X) object \<longrightarrow>
           db_do X (OpLookup C' True True object') d2 = (Inr (Table (Some e)), d2) \<and>
           cached_table (su_Lower (x_su X) object) (snd (db_do X (OpRefresh object') d2)) = None) \<and>
        cached_table (su_Lower (x_su X) object) (snd (db_do X (OpRefresh []) d2)) = None
    | Inr out \<Rightarrow> out = Absent \<and> cc_schema (db_caches d) = None \<and> d1 = d"
proof -
  have "caches_ok (x_su X) (db_caches d)" by (rule reachable_caches [OF assms(1)])
  from looked_up [OF this assms(2)] undisturbed_entry [OF assms(3)] show ?thesis
    by (auto simp: cached_lookup refreshed_entry simp del: db_do.simps split: sum.splits option.splits db_outcome.splits)
qed

lemma db_run_undisturbed:
  "list_all (leaves_cached (x_su X) key) ops \<Longrightarrow> undisturbed X key d d1 \<Longrightarrow> db_run X ops d1 = (rs, d2) \<Longrightarrow> undisturbed X key d d2"
  by (induction ops arbitrary: d1 rs) (auto split: prod.splits intro: undisturbed.op)

definition attached_sample :: "history database" where
  "attached_sample =
     (case SalesforceAttach bare_context token_server ''salesforce://prod'' (sample_options ''s'') sample_state of
        (Inr (config, tok), w') \<Rightarrow> snd (db_do token_server OpInitialize (new_database config tok w' empty_rel_snapshot))
      | (Inl e, w') \<Rightarrow> new_database empty_config \<lparr> access_token = [], instance_url = [] \<rparr> w' empty_rel_snapshot)"

lemma attached_sample_reachable: "db_reachable token_server attached_sample"
proof -
  have "case SalesforceAttach bare_context token_server ''salesforce://prod'' (sample_options ''s'') sample_state of
     (Inr _, w') \<Rightarrow> True | _ \<Rightarrow> False" by code_simp
  then obtain config tok w' where a: "SalesforceAttach bare_context token_server ''salesforce://prod'' (sample_options ''s'') sample_state =
      (Inr (config, tok), w')" by (auto split: prod.splits sum.splits)
  obtain r d where i: "db_do token_server OpInitialize (new_database config tok w' empty_rel_snapshot) = (r, d)" by fastforce
  from db_reachable.step [OF db_reachable.attach [OF a] i] show ?thesis
    unfolding attached_sample_def a by (simp add: i del: db_do.simps)
qed

definition quiet_history :: "db_op list" where
  "quiet_history = [OpRefresh ''Contact'', OpLookup bare_context True True ''Contact'', OpEngine (AskDescribe ''Account''),
     OpCatalogWrite PLAN_INSERT, OpListing True]"

theorem lookup_once_until_refresh_witness:
  "case db_do token_server (OpLookup bare_context True True ''Account'') attached_sample of
     (Inr (Table (Some e)), d1) \<Rightarrow>
       (case db_run token_server quiet_history d1 of (rs, d2) \<Rightarrow>
          db_do token_server (OpLookup bare_context True True ''ACCOUNT'') d2 = (Inr (Table (Some e)), d2))
   | _ \<Rightarrow> False"
proof -
  have "case db_do token_server (OpLookup bare_context True True ''Account'') attached_sample of
     (Inr (Table (Some e)), d1) \<Rightarrow> True | _ \<Rightarrow> False" by code_simp
  then obtain e d1 where l: "db_do token_server (OpLookup bare_context True True ''Account'') attached_sample = (Inr (Table (Some e)), d1)"
    by (auto simp del: db_do.simps split: prod.splits sum.splits db_outcome.splits option.splits)
  obtain rs d2 where r: "db_run token_server quiet_history d1 = (rs, d2)" by fastforce
  have su: "x_su token_server = ascii_su" by (simp add: token_server_def static_server_def history_external_def)
  have "su_Lower ascii_su ''Contact'' \<noteq> su_Lower ascii_su ''Account''" by code_simp
  then have q: "list_all (leaves_cached (x_su token_server) (su_Lower (x_su token_server) ''Account'')) quiet_history"
    by (simp add: quiet_history_def su)
  have a: "su_Lower ascii_su ''ACCOUNT'' = su_Lower ascii_su ''Account''" by code_simp
  have "db_do token_server (OpLookup bare_context True True ''ACCOUNT'') d2 = (Inr (Table (Some e)), d2)"
    using lookup_once_until_refresh [OF attached_sample_reachable l db_run_undisturbed [OF q undisturbed.now r]] a
    unfolding sum.case db_outcome.case option.case su by blast
  then show ?thesis unfolding l prod.case sum.case db_outcome.case option.case r .
qed

end
