(* ===== verification/SF_AggOpt.thy ===== *)
theory SF_AggOpt
  imports SF_Run
begin

text \<open>
  The transparent aggregate pushdown (\<^verbatim>\<open>salesforce_agg_optimizer.cpp\<close>): the pass over DuckDB's
  optimized plan that replaces an ungrouped aggregate directly over a Salesforce scan by a scan
  that runs one server-side aggregate query. Plans are DuckDB's; the model keeps what the pass
  reads and writes of them. \<^verbatim>\<open>LogicalGet::GetColumnBindings\<close> is a parameter.

  Shown: on a semantics of plans, with the aggregates of the two engines as parameters that agree
  on what the guards let through, the pass keeps the result of every plan in which no scan carries a
  raw filter and the two-level shape counts the grouped column itself; without the second
  condition, which the code does not check, the result can change.
\<close>

section \<open>Plans\<close>

datatype bound_expr =
    ColumnRef LogicalType nat nat
  | AggregateCall (ac_name: string) (ac_distinct: bool) (ac_modified: bool) (ac_children: "bound_expr list") (ac_display: string)
  | OtherExpression string

record log_get =
  lg_function_name :: string
  lg_bind :: "SalesforceScanBindData option"
  lg_table_index :: nat
  lg_column_ids :: "nat list"
  lg_no_table_filters :: bool
  lg_projection_ids :: "nat list"
  lg_types :: "LogicalType list"
  lg_names :: "string list"

record log_aggregate =
  la_groups :: "bound_expr list"
  la_grouping_sets :: nat
  la_grouping_functions :: nat
  la_expressions :: "bound_expr list"
  la_group_index :: nat
  la_index :: nat

datatype plan =
    Get log_get
  | Aggregate log_aggregate "plan list"
  | Projection nat "bound_expr list" "plan list"
  | Operator string "plan list"

section \<open>Guards\<close>

text \<open>\<^verbatim>\<open>OTHER_TYPE\<close> is never the type of a field.\<close>

fun AggPushableMinMaxType :: "LogicalType \<Rightarrow> bool" where
  "AggPushableMinMaxType VARCHAR = False"
| "AggPushableMinMaxType BLOB = False"
| "AggPushableMinMaxType (STRUCT cs) = False"
| "AggPushableMinMaxType (LIST t) = False"
| "AggPushableMinMaxType OTHER_TYPE = False"
| "AggPushableMinMaxType t = True"

definition pushdown_off :: "client_context \<Rightarrow> bool" where
  "pushdown_off C \<longleftrightarrow> (case TryGetCurrentSetting C ''sf_aggregate_pushdown'' of
     Some v \<Rightarrow> v_type v = BOOLEAN \<and> \<not> v_BoolGet v | None \<Rightarrow> False)"

text \<open>The scan whose rows the aggregate reads, when nothing stands between them.\<close>

definition pushable_scan :: "client_context \<Rightarrow> log_get \<Rightarrow> SalesforceScanBindData option" where
  "pushable_scan C g =
     (if lg_function_name g \<noteq> ''salesforce_scan'' then None
      else case lg_bind g of
        None \<Rightarrow> None
      | Some b \<Rightarrow>
          if b_residual_filter_count b \<noteq> 0 \<or> b_pushed_aggregates b \<noteq> [] then None
          else if \<not> lg_no_table_filters g then None
          else if pushdown_off C then None
          else Some b)"

text \<open>The field a column reference of the scan names, when it can be aggregated by the server.\<close>

definition aggregable_field :: "string_util \<Rightarrow> log_get \<Rightarrow> SalesforceScanBindData \<Rightarrow> bound_expr \<Rightarrow> SalesforceField option" where
  "aggregable_field D g b e =
     (case e of
        ColumnRef ty tab col \<Rightarrow>
          if tab \<noteq> lg_table_index g then None
          else if col \<ge> length (lg_column_ids g) then None
          else let original = lg_column_ids g ! col in
            if original \<ge> length (b_fields b) then None
            else let f = b_fields b ! original in
              if f_is_relationship f \<or> f_children f \<noteq> [] \<or> CHR ''.'' \<in> set (f_name f) then None
              else if su_Lower D (f_sf_type f) = ''base64'' then None
              else Some f
      | _ \<Rightarrow> None)"

definition emit_field :: "string \<Rightarrow> string \<Rightarrow> LogicalType \<Rightarrow> SalesforceField" where
  "emit_field name sf_type ty = SalesforceField name sf_type ty True 0 0 0 False False False [] [] [] False []"

section \<open>The rewrites\<close>

text \<open>One aggregate call, with the number of those before it.\<close>

definition push_call ::
  "string_util \<Rightarrow> log_get \<Rightarrow> SalesforceScanBindData \<Rightarrow> nat \<Rightarrow> bound_expr \<Rightarrow> SalesforcePushedAggregate option" where
  "push_call D g b i e =
     (case e of
        AggregateCall name is_distinct modified children display \<Rightarrow>
          if modified then None
          else let fname = su_Lower D name; is_count = (fname = ''count''); is_minmax = (fname = ''min'' \<or> fname = ''max'') in
            if \<not> is_count \<and> \<not> is_minmax then None
            else if is_distinct \<and> \<not> is_count then None
            else (case children of
              [child] \<Rightarrow>
                (case aggregable_field D g b child of
                   None \<Rightarrow> None
                 | Some f \<Rightarrow>
                     if is_minmax \<and> (\<not> f_sortable f \<or> \<not> AggPushableMinMaxType (f_duckdb_type f)) then None
                     else Some \<lparr> pa_func = (if is_count then if is_distinct then ''COUNT_DISTINCT'' else ''COUNT'' else su_Upper D fname),
                            pa_field = f_name f, pa_out_name = display,
                            pa_emit = emit_field (''a'' @ show_nat i) (f_sf_type f)
                              (if is_count then BIGINT else f_duckdb_type f) \<rparr>)
            | _ \<Rightarrow> None)
      | _ \<Rightarrow> None)"

fun push_calls ::
  "string_util \<Rightarrow> log_get \<Rightarrow> SalesforceScanBindData \<Rightarrow> nat \<Rightarrow> bound_expr list \<Rightarrow> SalesforcePushedAggregate list option" where
  "push_calls D g b i [] = Some []"
| "push_calls D g b i (e # es) =
     (case push_call D g b i e of
        None \<Rightarrow> None
      | Some pa \<Rightarrow> map_option (\<lambda>pas. pa # pas) (push_calls D g b (i + 1) es))"

text \<open>
  The commit. The columns are rebuilt as the identity over the aggregate schema; the bindings are
  read before the projection map is cleared, as in the code.
\<close>

definition commit_get ::
  "(log_get \<Rightarrow> (nat \<times> nat) list) \<Rightarrow> log_get \<Rightarrow> SalesforceScanBindData \<Rightarrow> SalesforcePushedAggregate list \<Rightarrow> bound_expr list \<times> log_get" where
  "commit_get bindings g b pas =
     (let g1 = g \<lparr> lg_column_ids := [0..<length pas] \<rparr>; out = bindings g1 in
      (map (\<lambda>i. case out ! i of (t, c) \<Rightarrow> ColumnRef (f_duckdb_type (pa_emit (pas ! i))) t c) [0..<length pas],
       g1 \<lparr> lg_projection_ids := [], lg_types := map (\<lambda>pa. f_duckdb_type (pa_emit pa)) pas,
            lg_names := map pa_out_name pas, lg_bind := Some (b \<lparr> b_pushed_aggregates := pas \<rparr>) \<rparr>))"

definition ungrouped :: "log_aggregate \<Rightarrow> bool" where
  "ungrouped a \<longleftrightarrow> la_groups a = [] \<and> la_grouping_sets a = 0 \<and> la_grouping_functions a = 0"

definition TryRewriteCountAggregate ::
  "string_util \<Rightarrow> (log_get \<Rightarrow> (nat \<times> nat) list) \<Rightarrow> client_context \<Rightarrow> log_aggregate \<Rightarrow> plan list \<Rightarrow> (bound_expr list \<times> log_get) option" where
  "TryRewriteCountAggregate D bindings C a children =
     (if \<not> ungrouped a \<or> la_expressions a = [] then None
      else case children of
        [Get g] \<Rightarrow>
          (case pushable_scan C g of
             None \<Rightarrow> None
           | Some b \<Rightarrow> map_option (commit_get bindings g b) (push_calls D g b 0 (la_expressions a)))
      | _ \<Rightarrow> None)"

definition count_over_groups :: "string_util \<Rightarrow> log_aggregate \<Rightarrow> bool" where
  "count_over_groups D a \<longleftrightarrow> ungrouped a \<and>
     (case la_expressions a of
        [AggregateCall name is_distinct modified children display] \<Rightarrow>
          \<not> is_distinct \<and> \<not> modified \<and> su_Lower D name = ''count''
      | _ \<Rightarrow> False)"

definition distinct_aggregate :: "SalesforceField \<Rightarrow> SalesforcePushedAggregate" where
  "distinct_aggregate f = \<lparr> pa_func = ''COUNT_DISTINCT'', pa_field = f_name f, pa_out_name = ''count(DISTINCT '' @ f_name f @ '')'',
     pa_emit = emit_field ''a0'' (f_sf_type f) BIGINT \<rparr>"

definition TryRewriteV2CountDistinct ::
  "string_util \<Rightarrow> (log_get \<Rightarrow> (nat \<times> nat) list) \<Rightarrow> client_context \<Rightarrow> log_aggregate \<Rightarrow> log_aggregate \<Rightarrow> plan list \<Rightarrow>
     (bound_expr list \<times> log_get) option" where
  "TryRewriteV2CountDistinct D bindings C outer inner children =
     (if \<not> count_over_groups D outer then None
      else if la_expressions inner \<noteq> [] \<or> la_grouping_functions inner \<noteq> 0 \<or> la_grouping_sets inner > 1 then None
      else case (la_groups inner, children) of
        ([e], [Get g]) \<Rightarrow>
          (case pushable_scan C g of
             None \<Rightarrow> None
           | Some b \<Rightarrow> map_option (\<lambda>f. commit_get bindings g b [distinct_aggregate f]) (aggregable_field D g b e))
      | _ \<Rightarrow> None)"

definition rewrite_aggregate ::
  "string_util \<Rightarrow> (log_get \<Rightarrow> (nat \<times> nat) list) \<Rightarrow> client_context \<Rightarrow> log_aggregate \<Rightarrow> plan list \<Rightarrow> plan option" where
  "rewrite_aggregate D bindings C a children =
     (case TryRewriteCountAggregate D bindings C a children of
        Some (refs, g) \<Rightarrow> Some (Projection (la_index a) refs [Get g])
      | None \<Rightarrow>
          (case children of
             [Aggregate inner grandchildren] \<Rightarrow>
               map_option (\<lambda>(refs, g). Projection (la_index a) refs [Get g])
                 (TryRewriteV2CountDistinct D bindings C a inner grandchildren)
           | _ \<Rightarrow> None))"

fun Walk :: "string_util \<Rightarrow> (log_get \<Rightarrow> (nat \<times> nat) list) \<Rightarrow> client_context \<Rightarrow> plan \<Rightarrow> plan" where
  "Walk D bindings C (Aggregate a children) =
     (case rewrite_aggregate D bindings C a children of
        Some p \<Rightarrow> p
      | None \<Rightarrow> Aggregate a (map (Walk D bindings C) children))"
| "Walk D bindings C (Projection i es children) = Projection i es (map (Walk D bindings C) children)"
| "Walk D bindings C (Operator op children) = Operator op (map (Walk D bindings C) children)"
| "Walk D bindings C (Get g) = Get g"

definition SalesforceAggregatePushdownOptimize ::
  "string_util \<Rightarrow> (log_get \<Rightarrow> (nat \<times> nat) list) \<Rightarrow> client_context \<Rightarrow> plan \<Rightarrow> plan" where
  "SalesforceAggregatePushdownOptimize D bindings C p = Walk D bindings C p"

section \<open>What plans mean\<close>

text \<open>
  A row gives each binding (table index, column index) a value, \<^term>\<open>None\<close> for NULL. \<^verbatim>\<open>en_rows\<close>
  are the records of an object that satisfy a WHERE text, \<^verbatim>\<open>en_value\<close> a field of one;
  \<^verbatim>\<open>en_duck\<close> is DuckDB's aggregate of a column, \<^verbatim>\<open>en_server\<close> the server's; the rest is what the
  pass does not look into.
\<close>

type_synonym 'v row = "nat \<times> nat \<Rightarrow> 'v option"

record ('r, 'v) engines =
  en_rows :: "string \<Rightarrow> string \<Rightarrow> 'r list"
  en_value :: "string \<Rightarrow> 'r \<Rightarrow> 'v option"
  en_duck :: "string \<Rightarrow> bool \<Rightarrow> 'v option list \<Rightarrow> 'v option"
  en_server :: "string \<Rightarrow> SalesforceField \<Rightarrow> 'v option list \<Rightarrow> 'v option"
  en_expression :: "bound_expr \<Rightarrow> 'v row \<Rightarrow> 'v option"
  en_other_aggregate :: "bound_expr \<Rightarrow> 'v row list \<Rightarrow> 'v option"
  en_grouping_sets :: "log_aggregate \<Rightarrow> 'v row list \<Rightarrow> 'v row list"
  en_operator :: "string \<Rightarrow> 'v row list list \<Rightarrow> 'v row list"
  en_get :: "log_get \<Rightarrow> 'v row list"

definition row_of :: "nat \<Rightarrow> nat \<Rightarrow> (nat \<Rightarrow> 'v option) \<Rightarrow> 'v row" where
  "row_of t n v = (\<lambda>(t', c). if t' = t \<and> c < n then v c else None)"

definition expr_value :: "('r, 'v) engines \<Rightarrow> 'v row \<Rightarrow> bound_expr \<Rightarrow> 'v option" where
  "expr_value E r e = (case e of ColumnRef ty t c \<Rightarrow> r (t, c) | _ \<Rightarrow> en_expression E e r)"

definition aggregate_value :: "string_util \<Rightarrow> ('r, 'v) engines \<Rightarrow> 'v row list \<Rightarrow> bound_expr \<Rightarrow> 'v option" where
  "aggregate_value D E rs e =
     (case e of
        AggregateCall name is_distinct modified [child] display \<Rightarrow>
          if modified then en_other_aggregate E e rs
          else en_duck E (su_Lower D name) is_distinct (map (\<lambda>r. expr_value E r child) rs)
      | _ \<Rightarrow> en_other_aggregate E e rs)"

definition scan_rows :: "('r, 'v) engines \<Rightarrow> log_get \<Rightarrow> SalesforceScanBindData \<Rightarrow> 'v row list" where
  "scan_rows E g b =
     (if b_pushed_aggregates b \<noteq> [] then
        [row_of (lg_table_index g) (length (lg_column_ids g)) (\<lambda>c.
           let pa = b_pushed_aggregates b ! (lg_column_ids g ! c) in
           en_server E (pa_func pa) (pa_emit pa)
             (map (en_value E (pa_field pa)) (en_rows E (b_object b) (b_pushed_where b))))]
      else
        map (\<lambda>r. row_of (lg_table_index g) (length (lg_column_ids g)) (\<lambda>c.
               if lg_column_ids g ! c < length (b_fields b)
               then en_value E (f_name (b_fields b ! (lg_column_ids g ! c))) r else None))
          (en_rows E (b_object b) (combined_where b)))"

definition get_rows :: "('r, 'v) engines \<Rightarrow> log_get \<Rightarrow> 'v row list" where
  "get_rows E g =
     (if lg_function_name g = ''salesforce_scan'' \<and> lg_no_table_filters g
      then case lg_bind g of Some b \<Rightarrow> scan_rows E g b | None \<Rightarrow> en_get E g
      else en_get E g)"

definition aggregate_rows :: "string_util \<Rightarrow> ('r, 'v) engines \<Rightarrow> log_aggregate \<Rightarrow> 'v row list \<Rightarrow> 'v row list" where
  "aggregate_rows D E a rs =
     (let out = \<lambda>key rs'. \<lambda>b. if fst b = la_group_index a \<and> snd b < length key then key ! snd b
                else row_of (la_index a) (length (la_expressions a))
                       (\<lambda>i. aggregate_value D E rs' (la_expressions a ! i)) b
      in if la_grouping_sets a > 1 \<or> la_grouping_functions a \<noteq> 0 then en_grouping_sets E a rs
         else if la_groups a = [] then [out [] rs]
         else map (\<lambda>key. out key (filter (\<lambda>r. map (expr_value E r) (la_groups a) = key) rs))
                (remdups (map (\<lambda>r. map (expr_value E r) (la_groups a)) rs)))"

fun plan_rows :: "string_util \<Rightarrow> ('r, 'v) engines \<Rightarrow> plan \<Rightarrow> 'v row list" where
  "plan_rows D E (Get g) = get_rows E g"
| "plan_rows D E (Aggregate a children) = aggregate_rows D E a (concat (map (plan_rows D E) children))"
| "plan_rows D E (Projection i es children) =
     map (\<lambda>r. row_of i (length es) (\<lambda>c. expr_value E r (es ! c))) (concat (map (plan_rows D E) children))"
| "plan_rows D E (Operator op children) = en_operator E op (map (plan_rows D E) children)"

section \<open>When the rewrite is sound\<close>

definition plain_get :: "log_get \<Rightarrow> bool" where
  "plain_get g \<longleftrightarrow> lg_projection_ids g = [] \<and> (\<forall>b. lg_bind g = Some b \<longrightarrow> b_raw_where b = [])"

definition counts_the_group :: "log_aggregate \<Rightarrow> log_aggregate \<Rightarrow> bool" where
  "counts_the_group outer inner \<longleftrightarrow>
     (\<exists>name is_distinct modified ty display. la_expressions outer =
        [AggregateCall name is_distinct modified [ColumnRef ty (la_group_index inner) 0] display])"

fun plain_plan :: "string_util \<Rightarrow> plan \<Rightarrow> bool" where
  "plain_plan D (Get g) \<longleftrightarrow> plain_get g"
| "plain_plan D (Aggregate a children) \<longleftrightarrow> list_all (plain_plan D) children \<and>
     (case children of [Aggregate inner _] \<Rightarrow> count_over_groups D a \<longrightarrow> counts_the_group a inner | _ \<Rightarrow> True)"
| "plain_plan D (Projection i es children) \<longleftrightarrow> list_all (plain_plan D) children"
| "plain_plan D (Operator op children) \<longleftrightarrow> list_all (plain_plan D) children"

definition documented_bindings :: "(log_get \<Rightarrow> (nat \<times> nat) list) \<Rightarrow> bool" where
  "documented_bindings bindings \<longleftrightarrow>
     (\<forall>g. lg_projection_ids g = [] \<longrightarrow> bindings g = map (\<lambda>i. (lg_table_index g, i)) [0..<length (lg_column_ids g)])"


text \<open>
  What the two engines have in common: counts, distinct counts of anything but blobs, minima and
  maxima of numbers, dates, times and booleans; and that counting distinct values is counting groups.
\<close>

definition engines_agree :: "string_util \<Rightarrow> ('r, 'v) engines \<Rightarrow> bool" where
  "engines_agree D E \<longleftrightarrow>
     (\<forall>f vs. su_Lower D (f_sf_type f) \<noteq> ''base64'' \<longrightarrow>
        en_server E ''COUNT'' f vs = en_duck E ''count'' False vs \<and>
        en_server E ''COUNT_DISTINCT'' f vs = en_duck E ''count'' True vs \<and>
        (AggPushableMinMaxType (f_duckdb_type f) \<longrightarrow>
           en_server E (su_Upper D ''min'') f vs = en_duck E ''min'' False vs \<and>
           en_server E (su_Upper D ''max'') f vs = en_duck E ''max'' False vs)) \<and>
     (\<forall>vs. en_duck E ''count'' False (remdups vs) = en_duck E ''count'' True vs)"

lemma push_calls_nth:
  "push_calls D g b i es = Some pas \<Longrightarrow>
     length pas = length es \<and> (\<forall>k < length es. push_call D g b (i + k) (es ! k) = Some (pas ! k))"
proof (induction es arbitrary: i pas)
  case (Cons e es)
  then obtain pa pas' where pa: "push_call D g b i e = Some pa" and pas': "push_calls D g b (i + 1) es = Some pas'"
    and eq: "pas = pa # pas'" by (auto split: option.splits)
  note IH = Cons.IH [OF pas']
  show ?case
  proof (intro conjI allI impI)
    show "length pas = length (e # es)" using IH eq by simp
    fix k assume "k < length (e # es)"
    then show "push_call D g b (i + k) ((e # es) ! k) = Some (pas ! k)" using pa IH eq by (cases k) auto
  qed
qed simp

lemma aggregable_field_column:
  assumes "aggregable_field D g b e = Some f"
  obtains ty c where "e = ColumnRef ty (lg_table_index g) c" "c < length (lg_column_ids g)"
    "lg_column_ids g ! c < length (b_fields b)" "f = b_fields b ! (lg_column_ids g ! c)"
    "su_Lower D (f_sf_type f) \<noteq> ''base64''"
  using assms by (auto simp: aggregable_field_def Let_def split: bound_expr.splits if_splits)

text \<open>The column an aggregable expression reads is the field's values over the matching records.\<close>

lemma scan_column:
  assumes "aggregable_field D g b e = Some f" "b_pushed_aggregates b = []" "b_raw_where b = []"
  shows "map (\<lambda>r. expr_value E r e) (scan_rows E g b) =
         map (en_value E (f_name f)) (en_rows E (b_object b) (b_pushed_where b))"
  using assms(1)
proof (rule aggregable_field_column)
  fix ty c
  assume "e = ColumnRef ty (lg_table_index g) c" "c < length (lg_column_ids g)"
    "lg_column_ids g ! c < length (b_fields b)" "f = b_fields b ! (lg_column_ids g ! c)"
  with assms(2,3) show ?thesis by (simp add: scan_rows_def expr_value_def row_of_def combined_where_def o_def)
qed

lemma push_call_shape:
  assumes "push_call D g b i e = Some pa"
  obtains name is_distinct child display f where
    "e = AggregateCall name is_distinct False [child] display" "aggregable_field D g b child = Some f"
    "su_Lower D name = ''count'' \<or> su_Lower D name \<in> {''min'', ''max''} \<and> \<not> is_distinct \<and> AggPushableMinMaxType (f_duckdb_type f)"
    "pa_func pa = (if su_Lower D name = ''count'' then if is_distinct then ''COUNT_DISTINCT'' else ''COUNT'' else su_Upper D (su_Lower D name))"
    "pa_field pa = f_name f" "f_sf_type (pa_emit pa) = f_sf_type f"
    "su_Lower D name \<noteq> ''count'' \<longrightarrow> f_duckdb_type (pa_emit pa) = f_duckdb_type f"
proof -
  from assms obtain name is_distinct modified children display where
    e: "e = AggregateCall name is_distinct modified children display"
    by (cases e) (auto simp: push_call_def)
  from assms obtain child where c: "children = [child]"
    by (cases children; cases "tl children") (auto simp: push_call_def e Let_def split: if_splits)
  from assms obtain f where f: "aggregable_field D g b child = Some f"
    by (cases "aggregable_field D g b child") (auto simp: push_call_def e c Let_def split: if_splits)
  note u = assms [unfolded push_call_def e c Let_def bound_expr.case list.case f option.case]
  show ?thesis
  proof (rule that [of name is_distinct child display f, OF _ f])
    show "e = AggregateCall name is_distinct False [child] display" using u by (simp add: e c split: if_splits)
    show "su_Lower D name = ''count'' \<or> su_Lower D name \<in> {''min'', ''max''} \<and> \<not> is_distinct \<and> AggPushableMinMaxType (f_duckdb_type f)"
      using u by (simp split: if_splits) blast
    have pa: "pa = \<lparr> pa_func = (if su_Lower D name = ''count'' then if is_distinct then ''COUNT_DISTINCT'' else ''COUNT'' else su_Upper D (su_Lower D name)),
        pa_field = f_name f, pa_out_name = display,
        pa_emit = emit_field (''a'' @ show_nat i) (f_sf_type f) (if su_Lower D name = ''count'' then BIGINT else f_duckdb_type f) \<rparr>"
      using u by (simp only: split: if_splits) simp_all
    show "pa_func pa = (if su_Lower D name = ''count'' then if is_distinct then ''COUNT_DISTINCT'' else ''COUNT'' else su_Upper D (su_Lower D name))"
      by (simp add: pa)
    show "pa_field pa = f_name f" "f_sf_type (pa_emit pa) = f_sf_type f"
      "su_Lower D name \<noteq> ''count'' \<longrightarrow> f_duckdb_type (pa_emit pa) = f_duckdb_type f"
      by (simp_all add: pa emit_field_def)
  qed
qed

lemma push_call_value:
  assumes "push_call D g b i e = Some pa" and eng: "engines_agree D E"
    and b: "b_pushed_aggregates b = []" "b_raw_where b = []"
  shows "aggregate_value D E (scan_rows E g b) e =
         en_server E (pa_func pa) (pa_emit pa) (map (en_value E (pa_field pa)) (en_rows E (b_object b) (b_pushed_where b)))"
  using assms(1)
proof (rule push_call_shape)
  fix name is_distinct child display f
  assume e: "e = AggregateCall name is_distinct False [child] display" and f: "aggregable_field D g b child = Some f"
    and fn: "su_Lower D name = ''count'' \<or> su_Lower D name \<in> {''min'', ''max''} \<and> \<not> is_distinct \<and> AggPushableMinMaxType (f_duckdb_type f)"
    and pa: "pa_func pa = (if su_Lower D name = ''count'' then if is_distinct then ''COUNT_DISTINCT'' else ''COUNT'' else su_Upper D (su_Lower D name))"
      "pa_field pa = f_name f" "f_sf_type (pa_emit pa) = f_sf_type f"
      "su_Lower D name \<noteq> ''count'' \<longrightarrow> f_duckdb_type (pa_emit pa) = f_duckdb_type f"
  from f have nb: "su_Lower D (f_sf_type f) \<noteq> ''base64''" by (rule aggregable_field_column)
  show ?thesis
  proof (cases "su_Lower D name = ''count''")
    case True
    with nb eng pa show ?thesis
      by (cases is_distinct) (simp_all add: e aggregate_value_def scan_column [OF f b] engines_agree_def)
  next
    case False
    with fn have "su_Lower D name = ''min'' \<or> su_Lower D name = ''max''" "\<not> is_distinct" "AggPushableMinMaxType (f_duckdb_type f)" by auto
    with False nb eng pa show ?thesis
      by (auto simp: e aggregate_value_def scan_column [OF f b] engines_agree_def)
  qed
qed

lemma commit_get_rows:
  assumes "documented_bindings bindings" "plain_get g" "lg_function_name g = ''salesforce_scan''" "lg_no_table_filters g"
    "pas \<noteq> []" "commit_get bindings g b pas = (refs, g')"
  shows "plan_rows D E (Projection i refs [Get g']) =
         [row_of i (length pas) (\<lambda>c. en_server E (pa_func (pas ! c)) (pa_emit (pas ! c))
            (map (en_value E (pa_field (pas ! c))) (en_rows E (b_object b) (b_pushed_where b))))]"
  using assms
  by (auto simp: commit_get_def Let_def documented_bindings_def plain_get_def get_rows_def scan_rows_def expr_value_def
      row_of_def fun_eq_iff)

lemma pushable_scan_SomeD:
  "pushable_scan C g = Some b \<Longrightarrow> lg_function_name g = ''salesforce_scan'' \<and> lg_bind g = Some b \<and>
     b_pushed_aggregates b = [] \<and> b_residual_filter_count b = 0 \<and> lg_no_table_filters g \<and> \<not> pushdown_off C"
  by (simp add: pushable_scan_def split: if_splits option.splits)

lemma ungrouped_rows:
  "ungrouped a \<Longrightarrow> aggregate_rows D E a rs =
     [row_of (la_index a) (length (la_expressions a)) (\<lambda>i. aggregate_value D E rs (la_expressions a ! i))]"
  by (simp add: aggregate_rows_def ungrouped_def)

lemma TryRewriteCountAggregate_rows:
  assumes "TryRewriteCountAggregate D bindings C a children = Some (refs, g')" "list_all (plain_plan D) children"
    and hyps: "engines_agree D E" "documented_bindings bindings"
  shows "plan_rows D E (Projection (la_index a) refs [Get g']) = plan_rows D E (Aggregate a children)"
proof -
  from assms(1) have a: "ungrouped a" "la_expressions a \<noteq> []"
    by (simp_all add: TryRewriteCountAggregate_def split: if_splits)
  with assms(1) obtain g b pas where ch: "children = [Get g]" and b: "pushable_scan C g = Some b"
    and pas: "push_calls D g b 0 (la_expressions a) = Some pas" and c: "commit_get bindings g b pas = (refs, g')"
    by (auto simp: TryRewriteCountAggregate_def split: list.splits plan.splits option.splits)
  note bD = pushable_scan_SomeD [OF b]
  note nth = push_calls_nth [OF pas, simplified]
  have g: "plain_get g" using assms(2) ch by simp
  then have raw: "b_raw_where b = []" using bD by (simp add: plain_get_def)
  have "pas \<noteq> []" using nth a(2) by auto
  with bD have new: "plan_rows D E (Projection (la_index a) refs [Get g']) =
      [row_of (la_index a) (length pas) (\<lambda>c. en_server E (pa_func (pas ! c)) (pa_emit (pas ! c))
         (map (en_value E (pa_field (pas ! c))) (en_rows E (b_object b) (b_pushed_where b))))]"
    by (intro commit_get_rows [OF hyps(2) g _ _ _ c]) simp_all
  have "aggregate_value D E (scan_rows E g b) (la_expressions a ! k) = en_server E (pa_func (pas ! k)) (pa_emit (pas ! k))
         (map (en_value E (pa_field (pas ! k))) (en_rows E (b_object b) (b_pushed_where b)))" if "k < length pas" for k
    using push_call_value [OF _ hyps(1) _ raw, of g k "la_expressions a ! k" "pas ! k"] nth that bD by simp
  then show ?thesis
    unfolding new using bD nth by (simp add: ch ungrouped_rows [OF a(1)] get_rows_def row_of_def fun_eq_iff)
qed

lemma remdups_singletons: "map hd (remdups (map (\<lambda>x. [f x]) xs)) = remdups (map f xs)"
  by (induction xs) auto

lemma single_group_rows:
  assumes "la_groups a = [e]" "la_expressions a = []" "la_grouping_functions a = 0" "la_grouping_sets a \<le> 1"
  shows "map (\<lambda>r. r (la_group_index a, 0)) (aggregate_rows D E a rs) = remdups (map (\<lambda>r. expr_value E r e) rs)"
proof -
  have "map (\<lambda>r. r (la_group_index a, 0)) (aggregate_rows D E a rs) = map hd (remdups (map (\<lambda>r. [expr_value E r e]) rs))"
    using assms by (auto simp: aggregate_rows_def)
  then show ?thesis by (simp only: remdups_singletons)
qed

lemma TryRewriteV2CountDistinct_rows:
  assumes "TryRewriteV2CountDistinct D bindings C outer inner children = Some (refs, g')"
    "list_all (plain_plan D) children" "counts_the_group outer inner"
    and hyps: "engines_agree D E" "documented_bindings bindings"
  shows "plan_rows D E (Projection (la_index outer) refs [Get g']) = plan_rows D E (Aggregate outer [Aggregate inner children])"
proof -
  from assms(1) have o: "count_over_groups D outer" and i: "la_expressions inner = []" "la_grouping_functions inner = 0" "la_grouping_sets inner \<le> 1"
    by (simp_all add: TryRewriteV2CountDistinct_def split: if_splits)
  with assms(1) obtain e g b f where ch: "children = [Get g]" and e: "la_groups inner = [e]" and b: "pushable_scan C g = Some b"
    and f: "aggregable_field D g b e = Some f" and c: "commit_get bindings g b [distinct_aggregate f] = (refs, g')"
    by (auto simp: TryRewriteV2CountDistinct_def split: list.splits plan.splits option.splits)
  note bD = pushable_scan_SomeD [OF b]
  have g: "plain_get g" using assms(2) ch by simp
  then have raw: "b_raw_where b = []" using bD by (simp add: plain_get_def)
  let ?vs = "map (en_value E (f_name f)) (en_rows E (b_object b) (b_pushed_where b))"
  have new: "plan_rows D E (Projection (la_index outer) refs [Get g']) =
      [row_of (la_index outer) 1 (\<lambda>c. en_server E ''COUNT_DISTINCT'' (emit_field ''a0'' (f_sf_type f) BIGINT) ?vs)]"
    using commit_get_rows [OF hyps(2) g _ _ _ c, of D E "la_index outer"] bD
    by (simp add: distinct_aggregate_def row_of_def fun_eq_iff)
  have vs: "map (\<lambda>r. r (la_group_index inner, 0)) (plan_rows D E (Aggregate inner children)) = remdups ?vs"
    using bD scan_column [OF f _ raw, of E] by (simp add: ch single_group_rows [OF e i] get_rows_def)
  from f have "su_Lower D (f_sf_type f) \<noteq> ''base64''" by (rule aggregable_field_column)
  then have agree: "en_server E ''COUNT_DISTINCT'' (emit_field ''a0'' (f_sf_type f) BIGINT) ?vs = en_duck E ''count'' False (remdups ?vs)"
    using hyps(1) by (simp add: engines_agree_def emit_field_def)
  from assms(3) o obtain name ty display where
    "la_expressions outer = [AggregateCall name False False [ColumnRef ty (la_group_index inner) 0] display]" "su_Lower D name = ''count''"
    by (auto simp: counts_the_group_def count_over_groups_def)
  moreover from o have "ungrouped outer" by (simp add: count_over_groups_def)
  ultimately show ?thesis
    using vs unfolding new agree by (simp add: ungrouped_rows aggregate_value_def expr_value_def row_of_def fun_eq_iff)
qed

lemma rewrite_aggregate_rows:
  assumes "rewrite_aggregate D bindings C a children = Some p" "plain_plan D (Aggregate a children)"
    and hyps: "engines_agree D E" "documented_bindings bindings"
  shows "plan_rows D E p = plan_rows D E (Aggregate a children)"
proof (cases "TryRewriteCountAggregate D bindings C a children")
  case None
  with assms(1) obtain inner gs refs g' where ch: "children = [Aggregate inner gs]"
    and r: "TryRewriteV2CountDistinct D bindings C a inner gs = Some (refs, g')" and p: "p = Projection (la_index a) refs [Get g']"
    by (auto simp: rewrite_aggregate_def split: list.splits plan.splits)
  from r have "count_over_groups D a" by (simp add: TryRewriteV2CountDistinct_def split: if_splits)
  with assms(2) ch have "counts_the_group a inner" "list_all (plain_plan D) gs" by simp_all
  then show ?thesis unfolding p ch by (intro TryRewriteV2CountDistinct_rows [OF r] hyps)
next
  case (Some x)
  then show ?thesis
    using assms TryRewriteCountAggregate_rows [OF _ _ hyps] by (cases x) (auto simp: rewrite_aggregate_def)
qed

lemma Walk_children_rows:
  assumes "\<And>q. q \<in> set children \<Longrightarrow> plain_plan D q \<Longrightarrow> plan_rows D E (Walk D bindings C q) = plan_rows D E q"
    "list_all (plain_plan D) children"
  shows "map (plan_rows D E) (map (Walk D bindings C) children) = map (plan_rows D E) children"
  using assms by (simp add: list_all_iff)

text \<open>C8: The optimizer pass keeps the meaning of a plan. For engines that agree on counts of anything
  but blobs and on minima and maxima of ordered scalar types, the rows of the rewritten plan are the rows of the
  original, operator for operator, provided scans carry no raw filter and no projection map and every
  rewritten two-level count counts the grouped column.\<close>

theorem optimize_preserves:
  assumes "engines_agree D E" "documented_bindings bindings" "plain_plan D p"
  shows "plan_rows D E (SalesforceAggregatePushdownOptimize D bindings C p) = plan_rows D E p"
  unfolding SalesforceAggregatePushdownOptimize_def using assms(3)
proof (induction p)
  case (Aggregate a children)
  show ?case
  proof (cases "rewrite_aggregate D bindings C a children")
    case None
    with Aggregate Walk_children_rows [of children D E bindings C] show ?thesis by (simp del: map_map map_eq_conv)
  next
    case (Some q)
    with rewrite_aggregate_rows [OF Some Aggregate.prems assms(1,2)] show ?thesis by simp
  qed
next
  case (Projection i es children)
  with Walk_children_rows [of children D E bindings C] show ?case by (simp del: map_map map_eq_conv)
next
  case (Operator op children)
  with Walk_children_rows [of children D E bindings C] show ?case by (simp del: map_map map_eq_conv)
qed simp

section \<open>An instance\<close>

text \<open>Both engines with the SQL aggregates over integers; 0 stands for a record with a null field.\<close>

definition sql_aggregate :: "string \<Rightarrow> bool \<Rightarrow> int option list \<Rightarrow> int option" where
  "sql_aggregate name is_distinct vs =
     (let ws = (if is_distinct then remdups (map the (filter (\<lambda>v. v \<noteq> None) vs)) else map the (filter (\<lambda>v. v \<noteq> None) vs)) in
      if name = ''count'' then Some (int (length ws))
      else if ws = [] then None
      else if name = ''min'' then Some (fold min ws (hd ws))
      else if name = ''max'' then Some (fold max ws (hd ws)) else None)"

definition sql_engines :: "int list \<Rightarrow> (int, int) engines" where
  "sql_engines rows = \<lparr> en_rows = (\<lambda>_ _. rows), en_value = (\<lambda>_ r. if r = 0 then None else Some r), en_duck = sql_aggregate,
     en_server = (\<lambda>func _. if func = ''COUNT_DISTINCT'' then sql_aggregate ''count'' True
        else if func = ''COUNT'' then sql_aggregate ''count'' False
        else if func = ''MIN'' then sql_aggregate ''min'' False else sql_aggregate ''max'' False),
     en_expression = (\<lambda>_ _. Some 1), en_other_aggregate = (\<lambda>_ rs. Some (int (length rs))), en_grouping_sets = (\<lambda>_ _. []),
     en_operator = (\<lambda>_. concat), en_get = (\<lambda>_. []) \<rparr>"

lemma count_distinct_values:
  "length (map the (filter (\<lambda>v. v \<noteq> None) (remdups vs))) = length (remdups (map the (filter (\<lambda>v. v \<noteq> None) vs)))"
proof -
  have "the x \<in> the ` {v \<in> set vs. v \<noteq> None} \<longleftrightarrow> x \<in> set vs" if "x \<noteq> None" for x :: "'a option" and vs
    using that by (force simp: image_iff)
  then show ?thesis by (induction vs) auto
qed

lemma sql_engines_agree: "engines_agree ascii_su (sql_engines rows)"
proof -
  have "su_Upper ascii_su ''min'' = ''MIN''" "su_Upper ascii_su ''max'' = ''MAX''" by code_simp+
  then show ?thesis
    using count_distinct_values by (auto simp: engines_agree_def sql_engines_def sql_aggregate_def)
qed

definition column_bindings :: "log_get \<Rightarrow> (nat \<times> nat) list" where
  "column_bindings g = map (\<lambda>i. (lg_table_index g, i))
     (if lg_projection_ids g = [] then [0..<length (lg_column_ids g)] else lg_projection_ids g)"

lemma column_bindings_documented: "documented_bindings column_bindings"
  by (simp add: documented_bindings_def column_bindings_def)

definition sample_get :: log_get where
  "sample_get = \<lparr> lg_function_name = ''salesforce_scan'', lg_bind = Some sample_bind, lg_table_index = 0, lg_column_ids = [0],
     lg_no_table_filters = True, lg_projection_ids = [], lg_types = [VARCHAR], lg_names = [''Id''] \<rparr>"

definition sample_count :: "bool \<Rightarrow> bound_expr list \<Rightarrow> log_aggregate" where
  "sample_count is_distinct args = \<lparr> la_groups = [], la_grouping_sets = 0, la_grouping_functions = 0,
     la_expressions = [AggregateCall ''count'' is_distinct False args ''n''], la_group_index = 1, la_index = 2 \<rparr>"

definition sample_group :: log_aggregate where
  "sample_group = \<lparr> la_groups = [ColumnRef VARCHAR 0 0], la_grouping_sets = 1, la_grouping_functions = 0,
     la_expressions = [], la_group_index = 3, la_index = 4 \<rparr>"

definition sample_plan :: plan where
  "sample_plan = Operator ''cross product'' [
     Aggregate (sample_count True [ColumnRef VARCHAR 0 0]) [Get sample_get],
     Aggregate (sample_count False [ColumnRef VARCHAR 3 0]) [Aggregate sample_group [Get sample_get]]]"

lemma sample_plan_plain: "plain_plan ascii_su sample_plan"
  by (simp add: sample_plan_def plain_get_def sample_get_def sample_bind_def counts_the_group_def sample_count_def sample_group_def) blast

theorem optimize_preserves_witness:
  "(case SalesforceAggregatePushdownOptimize ascii_su column_bindings bare_context sample_plan of
      Operator _ [Projection i _ [Get g], Projection j _ [Get g']] \<Rightarrow> i = 2 \<and> j = 2 | _ \<Rightarrow> False) \<and>
   plan_rows ascii_su (sql_engines [5, 0, 7, 5]) (SalesforceAggregatePushdownOptimize ascii_su column_bindings bare_context sample_plan) =
   plan_rows ascii_su (sql_engines [5, 0, 7, 5]) sample_plan"
proof
  show "case SalesforceAggregatePushdownOptimize ascii_su column_bindings bare_context sample_plan of
      Operator _ [Projection i _ [Get g], Projection j _ [Get g']] \<Rightarrow> i = 2 \<and> j = 2 | _ \<Rightarrow> False" by code_simp
  show "plan_rows ascii_su (sql_engines [5, 0, 7, 5]) (SalesforceAggregatePushdownOptimize ascii_su column_bindings bare_context sample_plan) =
   plan_rows ascii_su (sql_engines [5, 0, 7, 5]) sample_plan"
    by (rule optimize_preserves [OF sql_engines_agree column_bindings_documented sample_plan_plain])
qed

text \<open>
  The two-level rewrite does not look at what the outer aggregate counts. Over groups that include the null one,
  counting a constant gives one more than the distinct count that replaces it.
\<close>

lemma nested_count_of_constant:
  defines "p \<equiv> Aggregate (sample_count False [OtherExpression ''1'']) [Aggregate sample_group [Get sample_get]]"
  shows "map (\<lambda>r. r (2, 0)) (plan_rows ascii_su (sql_engines [5, 0, 7, 5]) p) = [Some 3] \<and>
    map (\<lambda>r. r (2, 0)) (plan_rows ascii_su (sql_engines [5, 0, 7, 5])
      (SalesforceAggregatePushdownOptimize ascii_su column_bindings bare_context p)) = [Some 2]"
  unfolding p_def by code_simp

end
