(* ===== verification/SF_Aggregate.thy ===== *)
theory SF_Aggregate
  imports SF_Functions
begin

text \<open>
  The explicit aggregate (\<^verbatim>\<open>salesforce_aggregate.cpp\<close>): checks of the user's SOQL fragments, the
  split at top-level commas, the parser of one aggregate term, the bind that assembles the query,
  and the table function that runs it once and lists its rows.
\<close>

section \<open>Terms\<close>

definition kMaxArgLen :: nat where "kMaxArgLen = 4000"

definition IsAggregateFn :: "string \<Rightarrow> bool" where
  "IsAggregateFn fn \<longleftrightarrow> fn \<in> {''COUNT'', ''COUNT_DISTINCT'', ''SUM'', ''AVG'', ''MIN'', ''MAX''}"

definition ident_char :: "char \<Rightarrow> bool" where
  "ident_char c \<longleftrightarrow> isalnum c \<or> c = CHR ''_''"

definition IsIdentifier :: "string \<Rightarrow> bool" where
  "IsIdentifier s \<longleftrightarrow> (case s of [] \<Rightarrow> False | c # _ \<Rightarrow> (isupper c \<or> islower c \<or> c = CHR ''_'') \<and> list_all ident_char s)"

definition RejectUnsafe :: "string_util \<Rightarrow> string \<Rightarrow> string \<Rightarrow> unit result" where
  "RejectUnsafe D what v =
     (if length v > kMaxArgLen
      then Inl (BinderException (''salesforce_aggregate: '' @ what @ '' is too long (max 4000 chars).''))
      else if CHR '';'' \<in> set v
      then Inl (BinderException (''salesforce_aggregate: '' @ what @ '' must not contain '' @ [SQ] @ '';'' @ [SQ] @ ''.''))
      else if su_Contains D (su_Upper D v) ''SELECT''
      then Inl (BinderException (''salesforce_aggregate: '' @ what @ '' must not contain a nested SELECT.''))
      else Inr ())"

text \<open>The loop of \<^verbatim>\<open>SplitTopLevelCommas\<close>: the depth of parentheses and the part being read.\<close>

fun split_commas :: "nat \<Rightarrow> string \<Rightarrow> string \<Rightarrow> string list" where
  "split_commas depth cur [] = [cur]"
| "split_commas depth cur (c # s) =
     (if c = CHR ''('' then split_commas (depth + 1) (cur @ [c]) s
      else if c = CHR '')'' then split_commas (depth - 1) (cur @ [c]) s
      else if c = CHR '','' \<and> depth = 0 then cur # split_commas depth [] s
      else split_commas depth (cur @ [c]) s)"

definition SplitTopLevelCommas :: "string \<Rightarrow> string list" where
  "SplitTopLevelCommas s = split_commas 0 [] s"

fun close_paren :: "nat \<Rightarrow> string \<Rightarrow> nat option" where
  "close_paren depth [] = None"
| "close_paren depth (c # s) =
     (if c = CHR ''('' then map_option Suc (close_paren (depth + 1) s)
      else if c = CHR '')'' then (if depth - 1 = 0 then Some 0 else map_option Suc (close_paren (depth - 1) s))
      else map_option Suc (close_paren depth s))"

definition term_alias :: "string_util \<Rightarrow> string \<Rightarrow> string" where
  "term_alias D rest =
     (let a = Trimmed D rest
      in if length a \<ge> 3 \<and> su_Upper D (take 3 a) = ''AS '' then Trimmed D (drop 3 a) else a)"

text \<open>A term gives one column; the counter of terms without an alias is passed along.\<close>

definition ParseTerm :: "string_util \<Rightarrow> string \<Rightarrow> nat \<Rightarrow> (string \<times> nat) result" where
  "ParseTerm D term_raw unaliased =
     (let t = Trimmed D term_raw in
      if t = [] then Inl (BinderException ''salesforce_aggregate: empty aggregate term.'')
      else (case str_find t ''('' of
        None \<Rightarrow> Inl (BinderException (''salesforce_aggregate: '' @ [SQ] @ t @ [SQ] @ '' is not an aggregate '' @ emdash
                  @ '' each term must be MIN/MAX/SUM/AVG/COUNT/COUNT_DISTINCT(field).''))
      | Some lp \<Rightarrow>
          let fn = su_Upper D (Trimmed D (take lp t)) in
          if \<not> IsAggregateFn fn then Inl (BinderException
            (''salesforce_aggregate: '' @ [SQ] @ fn @ [SQ] @ '' is not a supported aggregate function ''
             @ ''(use MIN, MAX, SUM, AVG, COUNT, or COUNT_DISTINCT).''))
          else (case close_paren 0 (drop lp t) of
            None \<Rightarrow> Inl (BinderException (''salesforce_aggregate: unbalanced parentheses in '' @ [SQ] @ t @ [SQ] @ ''.''))
          | Some k \<Rightarrow>
              let alias = term_alias D (drop (lp + k + 1) t) in
              if alias = [] then Inr (''expr'' @ show_nat unaliased, unaliased + 1)
              else if \<not> IsIdentifier alias then Inl (BinderException
                (''salesforce_aggregate: alias '' @ [SQ] @ alias @ [SQ] @ '' is not a valid identifier.''))
              else Inr (alias, unaliased))))"

fun parse_terms :: "string_util \<Rightarrow> string list \<Rightarrow> nat \<Rightarrow> string list result" where
  "parse_terms D [] unaliased = Inr []"
| "parse_terms D (t # ts) unaliased =
     rbind (ParseTerm D t unaliased) (\<lambda>cu. rbind (parse_terms D ts (snd cu)) (\<lambda>cs. Inr (fst cu # cs)))"

section \<open>Bind\<close>

record AggBindData =
  ag_soql :: string
  ag_columns :: "string list"
  ag_config :: SalesforceConfig
  ag_token :: SalesforceTokenSet

fun group_fields_of :: "string_util \<Rightarrow> string list \<Rightarrow> string list result" where
  "group_fields_of D [] = Inr []"
| "group_fields_of D (g # gs) =
     (let field = Trimmed D g in
      if \<not> IsIdentifier field then Inl (BinderException
        (''salesforce_aggregate: group_by '' @ [SQ] @ field @ [SQ] @ '' must be a simple field ''
         @ ''identifier (no dotted fields, functions, ROLLUP/CUBE/HAVING).''))
      else rbind (group_fields_of D gs) (\<lambda>fs. Inr (field # fs)))"

definition agg_bind_soql :: "string list \<Rightarrow> string \<Rightarrow> string \<Rightarrow> string \<Rightarrow> string" where
  "agg_bind_soql group_fields aggregates object filt =
     (let group_clause = sep_by '', '' group_fields in
      ''SELECT '' @ (if group_fields = [] then [] else group_clause @ '', '') @ aggregates @ '' FROM '' @ object
      @ (if filt = [] then [] else '' WHERE '' @ filt)
      @ (if group_fields = [] then [] else '' GROUP BY '' @ group_clause))"

fun null_argument :: "nat \<Rightarrow> Value list \<Rightarrow> nat option" where
  "null_argument i [] = None"
| "null_argument i (v # vs) = (if v_IsNull v then Some i else null_argument (i + 1) vs)"

text \<open>The bind, first on the trimmed texts, then on the arguments.\<close>

definition agg_query ::
  "string_util \<Rightarrow> (string \<Rightarrow> attached option) \<Rightarrow> string \<Rightarrow> string \<Rightarrow> string \<Rightarrow> string \<Rightarrow> string \<Rightarrow> AggBindData result" where
  "agg_query D A alias object aggregates filt group_by =
     (if \<not> IsIdentifier object then Inl (BinderException
        (''salesforce_aggregate: object '' @ [SQ] @ object @ [SQ] @ '' is not a valid sObject name.''))
      else if aggregates = [] then Inl (BinderException
        (''salesforce_aggregate: '' @ [SQ] @ ''aggregates'' @ [SQ] @ '' must not be empty.''))
      else rbind (RejectUnsafe D ''aggregates'' aggregates) (\<lambda>_.
           rbind (if filt = [] then Inr () else RejectUnsafe D ''filter'' filt) (\<lambda>_.
           rbind (if group_by = [] then Inr []
                  else rbind (RejectUnsafe D ''group_by'' group_by) (\<lambda>_. group_fields_of D (SplitTopLevelCommas group_by))) (\<lambda>gf.
           rbind (parse_terms D (SplitTopLevelCommas aggregates) 0) (\<lambda>cols.
           rbind (GetSalesforceCatalogCredentials A alias) (\<lambda>ct.
           Inr \<lparr> ag_soql = agg_bind_soql gf aggregates object filt, ag_columns = gf @ cols,
                 ag_config = fst ct, ag_token = snd ct \<rparr>))))))"

definition AggBind :: "string_util \<Rightarrow> (string \<Rightarrow> attached option) \<Rightarrow> Value list \<Rightarrow> AggBindData result" where
  "AggBind D A args =
     (if length args < 3 \<or> length args > 5 then Inl (BinderException
        (''salesforce_aggregate(catalog, object, aggregates [, filter [, ''
         @ ''group_by]]) takes 3 to 5 arguments.''))
      else (case null_argument 0 args of
        Some i \<Rightarrow> Inl (BinderException (''salesforce_aggregate: argument '' @ show_nat (i + 1) @ '' must not be NULL.''))
      | None \<Rightarrow>
          let arg = (\<lambda>i. if i < length args then Trimmed D (v_ToString (args ! i)) else [])
          in agg_query D A (arg 0) (arg 1) (arg 2) (arg 3) (arg 4)))"

section \<open>The table function\<close>

record AggGlobalState =
  agg_fetched :: bool
  agg_records :: "string list"
  agg_cursor :: nat

definition AggInit :: AggGlobalState where
  "AggInit = \<lparr> agg_fetched = False, agg_records = [], agg_cursor = 0 \<rparr>"

definition agg_cell :: "string \<Rightarrow> string \<Rightarrow> cell" where
  "agg_cell record_json key =
     (case GetValue record_json key of (val, found, is_null) \<Rightarrow> if \<not> found \<or> is_null then CNull else CVarchar val)"

definition agg_row :: "AggBindData \<Rightarrow> string \<Rightarrow> cell list" where
  "agg_row b record_json = map (agg_cell record_json) (ag_columns b)"

definition agg_fetch :: "client_context \<Rightarrow> 'c external \<Rightarrow> AggBindData \<Rightarrow> ('c, string list) sess" where
  "agg_fetch C X b =
     (let query_all = (setting_text (x_su X) C ''sf_query_mode'' [] = ''queryall'') in
      bnd (session_do (\<lambda>_. SetQueryAll query_all (SetToken (ag_token b) (new_session (ag_config b))))) (\<lambda>_.
      bnd (globals_do (SetLastSoql (ag_soql b))) (\<lambda>_.
      bnd (globals_do (SetLastTransport ''rest'' (- 1)
             (if query_all then ''explicit aggregate (queryAll)'' else ''explicit aggregate''))) (\<lambda>_.
      bnd (Query X (ag_soql b)) (\<lambda>r. ret (fst r))))))"

definition agg_emit :: "AggBindData \<Rightarrow> nat \<Rightarrow> AggGlobalState \<Rightarrow> cell list list \<times> AggGlobalState" where
  "agg_emit b vector_size g =
     (case emit_rows (agg_row b) (agg_records g) vector_size (agg_cursor g) of
        (rows, i) \<Rightarrow> (rows, g \<lparr> agg_cursor := i \<rparr>))"

definition AggFunction ::
  "client_context \<Rightarrow> 'c external \<Rightarrow> AggBindData \<Rightarrow> nat \<Rightarrow> AggGlobalState \<Rightarrow> ('c, cell list list \<times> AggGlobalState) sess" where
  "AggFunction C X b vector_size g =
     bnd (if agg_fetched g then ret g
          else bnd (agg_fetch C X b) (\<lambda>recs. ret (g \<lparr> agg_fetched := True, agg_records := recs \<rparr>))) (\<lambda>g1.
     ret (agg_emit b vector_size g1))"

section \<open>Splitting\<close>

lemma split_commas_not_Nil: "split_commas d cur s \<noteq> []"
  by (induction d cur s rule: split_commas.induct) simp_all

lemma sep_by_Cons: "xs \<noteq> [] \<Longrightarrow> sep_by sep (x # xs) = x @ sep @ sep_by sep xs"
  by (cases xs) simp_all

lemma split_commas_join: "sep_by '','' (split_commas d cur s) = cur @ s"
proof (induction d cur s rule: split_commas.induct)
  case (2 d cur c s)
  then show ?case by (auto simp: sep_by_Cons split_commas_not_Nil)
qed simp

text \<open>No part has a comma at depth zero.\<close>

fun top_comma :: "nat \<Rightarrow> string \<Rightarrow> bool" where
  "top_comma depth [] = False"
| "top_comma depth (c # s) =
     (if c = CHR ''('' then top_comma (depth + 1) s
      else if c = CHR '')'' then top_comma (depth - 1) s
      else (c = CHR '','' \<and> depth = 0) \<or> top_comma depth s)"

fun paren_depth :: "nat \<Rightarrow> string \<Rightarrow> nat" where
  "paren_depth depth [] = depth"
| "paren_depth depth (c # s) =
     paren_depth (if c = CHR ''('' then depth + 1 else if c = CHR '')'' then depth - 1 else depth) s"

lemma top_comma_append: "top_comma d (s @ t) \<longleftrightarrow> top_comma d s \<or> top_comma (paren_depth d s) t"
  by (induction d s rule: top_comma.induct) auto

lemma paren_depth_append: "paren_depth d (s @ t) = paren_depth (paren_depth d s) t"
  by (induction s arbitrary: d) simp_all

lemma split_commas_parts:
  "\<not> top_comma 0 cur \<Longrightarrow> paren_depth 0 cur = d \<Longrightarrow> list_all (\<lambda>p. \<not> top_comma 0 p) (split_commas d cur s)"
proof (induction d cur s rule: split_commas.induct)
  case (2 d cur c s)
  then show ?case by (auto simp: top_comma_append paren_depth_append)
qed simp

section \<open>Identifiers\<close>

lemma show_nat_ident: "list_all ident_char (show_nat n)"
proof (induction n rule: show_nat.induct)
  case (1 n)
  have "ident_char (digit_char d)" if "d < 10" for d
    using that by (auto simp: ident_char_def isalnum_def isdigit_def digit_char_def)
  with 1 show ?case by (subst show_nat.simps) auto
qed

lemma IsIdentifier_ident: "IsIdentifier s \<Longrightarrow> list_all ident_char s"
  by (auto simp: IsIdentifier_def split: list.splits)

lemma ident_no_semicolon: "list_all ident_char s \<Longrightarrow> CHR '';'' \<notin> set s"
  by (auto simp: list_all_iff ident_char_def isalnum_def isdigit_def isupper_def islower_def)

lemma expr_ident: "IsIdentifier (''expr'' @ show_nat n)"
  using show_nat_ident [of n]
  by (auto simp: IsIdentifier_def ident_char_def isalnum_def isdigit_def isupper_def islower_def)

lemma ParseTerm_ident: "ParseTerm D t u = Inr (col, u') \<Longrightarrow> IsIdentifier col"
  using expr_ident [of u] by (auto simp: ParseTerm_def Let_def split: if_splits option.splits)

lemma parse_terms_ident:
  "parse_terms D ts u = Inr cols \<Longrightarrow> list_all IsIdentifier cols \<and> length cols = length ts"
proof (induction ts arbitrary: u cols)
  case (Cons t ts)
  then obtain col u' cs where "ParseTerm D t u = Inr (col, u')" "parse_terms D ts u' = Inr cs" "cols = col # cs"
    by (auto simp: rbind_def split: sum.splits)
  with Cons.IH ParseTerm_ident show ?case by auto
qed simp

lemma group_fields_ident:
  "group_fields_of D gs = Inr fs \<Longrightarrow> list_all IsIdentifier fs \<and> length fs = length gs"
proof (induction gs arbitrary: fs)
  case (Cons g gs)
  then show ?case by (auto simp: Let_def rbind_def split: if_splits sum.splits)
qed simp

lemma sep_by_set: "set (sep_by sep xs) \<subseteq> set sep \<union> (\<Union>x \<in> set xs. set x)"
  by (induction sep xs rule: sep_by.induct) auto

lemma RejectUnsafe_ok: "RejectUnsafe D what v = Inr u \<Longrightarrow>
    length v \<le> 4000 \<and> CHR '';'' \<notin> set v \<and> \<not> su_Contains D (su_Upper D v) ''SELECT''"
  by (auto simp: RejectUnsafe_def kMaxArgLen_def split: if_splits)

lemma agg_soql_no_semicolon:
  assumes "list_all IsIdentifier gf" and "IsIdentifier object" and "CHR '';'' \<notin> set aggregates" and "CHR '';'' \<notin> set filt"
  shows "CHR '';'' \<notin> set (agg_bind_soql gf aggregates object filt)"
proof -
  have "CHR '';'' \<notin> set (sep_by '', '' gf)"
    using assms(1) sep_by_set [of "'', ''" gf] ident_no_semicolon [OF IsIdentifier_ident] by (auto simp: list_all_iff)
  moreover have "CHR '';'' \<notin> set object" using assms(2) by (intro ident_no_semicolon IsIdentifier_ident)
  ultimately show ?thesis using assms(3,4) by (auto simp: agg_bind_soql_def Let_def)
qed

text \<open>
  The split at top-level commas loses nothing and splits everywhere it should: the parts joined
  with commas are the text again, and no part has a comma outside parentheses.
\<close>

theorem SplitTopLevelCommas_exact:
  "sep_by '','' (SplitTopLevelCommas s) = s \<and> list_all (\<lambda>p. \<not> top_comma 0 p) (SplitTopLevelCommas s)"
  using split_commas_join [of 0 "[]" s] split_commas_parts [of "[]" 0 s] by (simp add: SplitTopLevelCommas_def)

lemma group_part_ident:
  "(if group_by = [] then Inr []
    else rbind (RejectUnsafe D ''group_by'' group_by) (\<lambda>_. group_fields_of D (SplitTopLevelCommas group_by))) = Inr gf
   \<Longrightarrow> list_all IsIdentifier gf"
  by (auto simp: rbind_eq_Inr dest: group_fields_ident split: if_splits)

lemma agg_query_parts:
  assumes "agg_query D A alias object aggregates filt group_by = Inr b"
  obtains gf cols where "ag_soql b = agg_bind_soql gf aggregates object filt" "ag_columns b = gf @ cols"
    "IsIdentifier object" "list_all IsIdentifier gf" "list_all IsIdentifier cols"
    "length cols = length (SplitTopLevelCommas aggregates)"
    "CHR '';'' \<notin> set aggregates" "\<not> su_Contains D (su_Upper D aggregates) ''SELECT''"
    "CHR '';'' \<notin> set filt" "filt = [] \<or> \<not> su_Contains D (su_Upper D filt) ''SELECT''"
proof -
  from assms obtain gf cols ct where
    o: "IsIdentifier object" and r: "RejectUnsafe D ''aggregates'' aggregates = Inr ()"
    and f: "(if filt = [] then Inr () else RejectUnsafe D ''filter'' filt) = Inr ()"
    and g: "(if group_by = [] then Inr []
       else rbind (RejectUnsafe D ''group_by'' group_by) (\<lambda>_. group_fields_of D (SplitTopLevelCommas group_by))) = Inr gf"
    and p: "parse_terms D (SplitTopLevelCommas aggregates) 0 = Inr cols"
    and b: "b = \<lparr> ag_soql = agg_bind_soql gf aggregates object filt, ag_columns = gf @ cols, ag_config = fst ct, ag_token = snd ct \<rparr>"
    unfolding agg_query_def by (simp only: rbind_eq_Inr split: if_split_asm) auto
  from f have "CHR '';'' \<notin> set filt" "filt = [] \<or> \<not> su_Contains D (su_Upper D filt) ''SELECT''"
    using RejectUnsafe_ok [of D "''filter''" filt] by (auto split: if_splits)
  with RejectUnsafe_ok [OF r] o group_part_ident [OF g] parse_terms_ident [OF p] show thesis
    by (intro that [of gf cols]) (simp_all add: b)
qed

lemma agg_query_safe:
  assumes "agg_query D A alias object aggregates filt group_by = Inr b"
  shows "CHR '';'' \<notin> set (ag_soql b) \<and> list_all IsIdentifier (ag_columns b) \<and>
    (\<exists>gf. ag_soql b = agg_bind_soql gf aggregates object filt \<and> IsIdentifier object \<and>
       \<not> su_Contains D (su_Upper D aggregates) ''SELECT'' \<and> (filt = [] \<or> \<not> su_Contains D (su_Upper D filt) ''SELECT'') \<and>
       take (length gf) (ag_columns b) = gf \<and> length (ag_columns b) = length gf + length (SplitTopLevelCommas aggregates))"
proof -
  from assms obtain gf cols where p: "ag_soql b = agg_bind_soql gf aggregates object filt" "ag_columns b = gf @ cols"
    "IsIdentifier object" "list_all IsIdentifier gf" "list_all IsIdentifier cols"
    "length cols = length (SplitTopLevelCommas aggregates)"
    "CHR '';'' \<notin> set aggregates" "\<not> su_Contains D (su_Upper D aggregates) ''SELECT''"
    "CHR '';'' \<notin> set filt" "filt = [] \<or> \<not> su_Contains D (su_Upper D filt) ''SELECT''"
    by (rule agg_query_parts)
  then have "CHR '';'' \<notin> set (ag_soql b)" by (simp only: agg_soql_no_semicolon not_False_eq_True)
  with p show ?thesis by auto
qed

text \<open>
  C27: an accepted aggregate is one read-only query. Whatever the arguments, the SOQL of a bound
  aggregate has no statement separator and selects the group fields before the given terms from an
  identifier; it has one output column per group field and per top-level term, and every column
  name is an identifier; neither the terms nor the filter contain a nested SELECT.
\<close>

theorem AggBind_safe:
  assumes "AggBind D A args = Inr b"
  shows "CHR '';'' \<notin> set (ag_soql b) \<and> list_all IsIdentifier (ag_columns b) \<and>
    (\<exists>gf object filt. let aggregates = Trimmed D (v_ToString (args ! 2)) in
       ag_soql b = agg_bind_soql gf aggregates object filt \<and> IsIdentifier object \<and>
       \<not> su_Contains D (su_Upper D aggregates) ''SELECT'' \<and> (filt = [] \<or> \<not> su_Contains D (su_Upper D filt) ''SELECT'') \<and>
       take (length gf) (ag_columns b) = gf \<and>
       length (ag_columns b) = length gf + length (SplitTopLevelCommas aggregates))"
proof -
  let ?arg = "\<lambda>i. if i < length args then Trimmed D (v_ToString (args ! i)) else []"
  from assms have n: "3 \<le> length args" and q: "agg_query D A (?arg 0) (?arg 1) (?arg 2) (?arg 3) (?arg 4) = Inr b"
    by (auto simp: AggBind_def Let_def split: if_splits option.splits)
  from n have a: "?arg 2 = Trimmed D (v_ToString (args ! 2))" by simp
  from agg_query_safe [OF q] show ?thesis unfolding Let_def a by blast
qed

theorem AggBind_safe_witness:
  "case AggBind ascii_su sample_attached [varchar_option ''sf'', varchar_option ''Account'', varchar_option ''COUNT(Id), MAX(A) m'',
        varchar_option ''Name != null'', varchar_option ''Type''] of
     Inr b \<Rightarrow> CHR '';'' \<notin> set (ag_soql b) \<and> ag_columns b = [''Type'', ''expr0'', ''m'']
   | Inl e \<Rightarrow> False"
proof -
  let ?args = "[varchar_option ''sf'', varchar_option ''Account'', varchar_option ''COUNT(Id), MAX(A) m'',
        varchar_option ''Name != null'', varchar_option ''Type'']"
  have c: "case AggBind ascii_su sample_attached ?args of Inr b \<Rightarrow> ag_columns b = [''Type'', ''expr0'', ''m''] | Inl e \<Rightarrow> False"
    by code_simp
  then obtain b where b: "AggBind ascii_su sample_attached ?args = Inr b"
    by (cases "AggBind ascii_su sample_attached ?args") simp_all
  from AggBind_safe [OF b] c show ?thesis unfolding b by simp
qed

section \<open>The run\<close>

interpretation agg: row_cursor "agg_emit b" "\<lambda>g. map (agg_row b) (drop (agg_cursor g) (agg_records g))" for b
proof
  fix n g rows g'
  assume "agg_emit b n g = (rows, g')"
  then obtain i where "emit_rows (agg_row b) (agg_records g) n (agg_cursor g) = (rows, i)" "g' = g \<lparr> agg_cursor := i \<rparr>"
    by (auto simp: agg_emit_def split: prod.splits)
  then show "rows = take n (map (agg_row b) (drop (agg_cursor g) (agg_records g))) \<and>
      map (agg_row b) (drop (agg_cursor g') (agg_records g')) = drop n (map (agg_row b) (drop (agg_cursor g) (agg_records g)))"
    by (auto dest: list_cursor.emits)
qed

lemma AggFunction_fetched: "agg_fetched g \<Longrightarrow> AggFunction C X b n g s = (Inr (agg_emit b n g), s)"
  by (simp add: AggFunction_def sfm_simps)

lemma AggFunction_first:
  "agg_fetch C X b s = (Inr recs, s') \<Longrightarrow>
   AggFunction C X b n AggInit s = (Inr (agg_emit b n \<lparr> agg_fetched = True, agg_records = recs, agg_cursor = 0 \<rparr>), s')"
  by (simp add: AggFunction_def AggInit_def sfm_simps)

end
