(* ===== verification/SF_MetaGraph.thy ===== *)
theory SF_MetaGraph
  imports SF_MetaSource
begin

text \<open>
  The two functions of \<^verbatim>\<open>salesforce_metadata_engine.cpp\<close> that work on the metadata engine: the
  explanation of the last scan and the relationship graph, the depth-first walk over parent
  references and child relationships.
\<close>

section \<open>Query explain\<close>

record ExplainRow =
  ex_object :: string
  ex_field :: string
  ex_field_null :: bool
  ex_role :: string
  ex_resolved :: bool
  ex_resolved_null :: bool
  ex_filterable :: "bool option"
  ex_sortable :: "bool option"
  ex_relationship_name :: "string option"
  ex_reference_to :: "string list"
  ex_pushed :: bool
  ex_residual :: bool
  ex_reason :: string
  ex_guidance :: string

text \<open>A flag with its own null flag is an optional value; the reason and the guidance follow.\<close>

definition empty_explain :: ExplainRow where
  "empty_explain = \<lparr> ex_object = [], ex_field = [], ex_field_null = False, ex_role = [], ex_resolved = False,
     ex_resolved_null = False, ex_filterable = None, ex_sortable = None, ex_relationship_name = None,
     ex_reference_to = [], ex_pushed = False, ex_residual = False, ex_reason = [], ex_guidance = [] \<rparr>"

definition ExplainGuidance :: "string \<Rightarrow> string" where
  "ExplainGuidance reason =
     (if reason = ''pushed_to_soql'' then ''filtered server-side via SOQL''
      else if reason = ''projected'' then ''selected from Salesforce''
      else if reason = ''not_filterable'' then ''field not filterable; DuckDB filters residually (over-fetch)''
      else if reason = ''unsupported_operator'' then ''operator not expressible in SOQL; applied residually by DuckDB''
      else if reason = ''complex_expression'' then ''complex predicate (OR/NOT/cross-field); applied residually by DuckDB''
      else if reason = ''unresolved_field'' then ''field not found in object metadata''
      else if reason = ''relationship_traversed'' then ''single-hop parent relationship expanded into the SOQL SELECT''
      else if reason = ''count_pushdown'' then ''row count served by SELECT COUNT() '' @ emdash @ '' no records fetched''
      else if reason = ''count_not_pushed'' then ''not a count-only scan; records are fetched normally''
      else if reason = ''aggregate_pushdown'' then ''computed server-side by a single aggregate SOQL query - no records fetched''
      else ''metadata unavailable (catalog detached or engine error); annotation skipped'')"

definition explained :: "string \<Rightarrow> ExplainRow \<Rightarrow> ExplainRow" where
  "explained reason row = row \<lparr> ex_reason := reason, ex_guidance := ExplainGuidance reason \<rparr>"

definition nonempty_text :: "string \<Rightarrow> string option" where
  "nonempty_text s = (if s = [] then None else Some s)"

definition explain_reason :: "DiagExplainItem \<Rightarrow> SalesforceField \<Rightarrow> string" where
  "explain_reason item fld =
     (if it_role item = ''projection'' then ''projected''
      else if it_role item = ''aggregate'' then ''aggregate_pushdown''
      else if it_pushed item then ''pushed_to_soql''
      else if \<not> f_filterable fld then ''not_filterable'' else ''unsupported_operator'')"

text \<open>One captured item; \<open>desc\<close> is absent when the metadata could not be had.\<close>

definition explain_item :: "string_util \<Rightarrow> string \<Rightarrow> SalesforceDescribe option \<Rightarrow> DiagExplainItem \<Rightarrow> ExplainRow" where
  "explain_item D object desc item =
     (let row = empty_explain \<lparr> ex_object := object, ex_pushed := it_pushed item, ex_residual := it_residual item \<rparr> in
      if it_role item = ''relationship'' then
        explained ''relationship_traversed''
          (row \<lparr> ex_role := ''relationship'', ex_field := it_field item, ex_field_null := it_field item = [], ex_resolved := True,
                ex_relationship_name := nonempty_text (it_relationship_name item), ex_reference_to := it_reference_to item \<rparr>)
      else (case desc of
        None \<Rightarrow> explained ''metadata_unavailable''
          (row \<lparr> ex_field := it_field item, ex_field_null := \<not> it_field_known item, ex_role := it_role item, ex_resolved := False \<rparr>)
      | Some d \<Rightarrow>
          if \<not> it_field_known item then
            explained ''complex_expression'' (row \<lparr> ex_role := it_role item, ex_field_null := True, ex_resolved := False \<rparr>)
          else (case find (\<lambda>f. su_CIEquals D (f_name f) (it_field item)) (d_fields d) of
            None \<Rightarrow> explained ''unresolved_field'' (row \<lparr> ex_role := it_role item, ex_field := it_field item, ex_resolved := False \<rparr>)
          | Some fld \<Rightarrow> explained (explain_reason item fld)
              (row \<lparr> ex_role := it_role item, ex_field := it_field item, ex_resolved := True, ex_filterable := Some (f_filterable fld),
                    ex_sortable := Some (f_sortable fld), ex_relationship_name := nonempty_text (f_relationship_name fld),
                    ex_reference_to := f_reference_to fld \<rparr>))))"

definition count_row :: "DiagExplainSnapshot \<Rightarrow> ExplainRow" where
  "count_row snap = explained (if sn_count_pushdown snap then ''count_pushdown'' else ''count_not_pushed'')
     (empty_explain \<lparr> ex_object := sn_object snap, ex_role := ''count'', ex_field_null := True, ex_resolved_null := True,
        ex_pushed := sn_count_pushdown snap \<rparr>)"

definition transport_row :: "DiagExplainSnapshot \<Rightarrow> ExplainRow" where
  "transport_row snap = empty_explain \<lparr> ex_object := sn_object snap, ex_role := ''transport'', ex_field_null := True,
     ex_resolved_null := True, ex_reason := (if sn_transport snap = ''bulk'' then ''transport_bulk'' else ''transport_rest''),
     ex_guidance := (if sn_transport_reason snap = [] then ''transport selected'' else sn_transport_reason snap)
       @ (if sn_query_mode snap = ''queryAll'' then ''; queryAll (includes archived/deleted)'' else [])
       @ (if sn_est_rows snap \<ge> 0 then ''; est_rows='' @ show_int (sn_est_rows snap) else []) \<rparr>"

definition explain_describe ::
  "(string \<Rightarrow> attached option) \<Rightarrow> 'c external \<Rightarrow> DiagExplainSnapshot \<Rightarrow> ('c, SalesforceDescribe option) eng" where
  "explain_describe A X snap =
     (if sn_catalog_alias snap = [] \<or> sn_object snap = [] then ret None
      else catch_all (bnd (of_result (GetSalesforceCatalogMetadataEngine A (sn_catalog_alias snap))) (\<lambda>_.
                      bnd (GetObjectDescribe X (sn_object snap)) (\<lambda>d. ret (Some d)))) None)"

definition ExplainBind :: "(string \<Rightarrow> attached option) \<Rightarrow> 'c external \<Rightarrow> ('c, ExplainRow list) eng" where
  "ExplainBind A X =
     bnd (gets (\<lambda>s. DiagGetExplain (w_globals (ew_world s)))) (\<lambda>snap.
     if sn_object snap = [] \<and> sn_items snap = [] then ret []
     else bnd (explain_describe A X snap) (\<lambda>desc.
          ret (map (explain_item (x_su X) (sn_object snap) desc) (sn_items snap) @ [count_row snap]
               @ (if sn_transport snap = [] then [] else [transport_row snap]))))"

definition bool_cell :: "bool option \<Rightarrow> cell" where
  "bool_cell b = (case b of None \<Rightarrow> CNull | Some v \<Rightarrow> CBoolean v)"

definition explain_cells :: "ExplainRow \<Rightarrow> cell list" where
  "explain_cells r = [CVarchar (ex_object r), if ex_field_null r then CNull else CVarchar (ex_field r), CVarchar (ex_role r),
     if ex_resolved_null r then CNull else CBoolean (ex_resolved r), bool_cell (ex_filterable r), bool_cell (ex_sortable r),
     (case ex_relationship_name r of None \<Rightarrow> CNull | Some n \<Rightarrow> CVarchar n), varchar_list (ex_reference_to r),
     CBoolean (ex_pushed r), CBoolean (ex_residual r), CVarchar (ex_reason r), CVarchar (ex_guidance r)]"

definition explain_schema :: "(string \<times> LogicalType) list" where
  "explain_schema = [(''object_name'', VARCHAR), (''field_name'', VARCHAR), (''role'', VARCHAR), (''resolved'', BOOLEAN),
     (''filterable'', BOOLEAN), (''sortable'', BOOLEAN), (''relationship_name'', VARCHAR), (''reference_to'', LIST VARCHAR),
     (''pushed'', BOOLEAN), (''residual'', BOOLEAN), (''reason'', VARCHAR), (''guidance'', VARCHAR)]"

definition ExplainFunction :: "ExplainRow list \<Rightarrow> nat \<Rightarrow> nat \<Rightarrow> cell list list \<times> nat" where
  "ExplainFunction rows = emit_rows explain_cells rows"

interpretation query_explain: row_cursor "ExplainFunction rows" "\<lambda>cursor. map explain_cells (drop cursor rows)" for rows
  unfolding ExplainFunction_def by (rule list_cursor.row_cursor_axioms)

section \<open>The relationship graph\<close>

record RelEdgeRow =
  re_source_object :: string
  re_relationship_name :: string
  re_path :: string
  re_depth_level :: int
  re_target_object :: string
  re_target_null :: bool
  re_reference_to :: "string list"
  re_direction :: string
  re_relationship_type :: string
  re_status :: string
  re_caveat :: "string option"

definition join_path :: "string \<Rightarrow> string \<Rightarrow> string" where
  "join_path pre name = (if pre = [] then name else pre @ ''.'' @ name)"

text \<open>
  Where the walk stands: the object, the path to it, its depth, the ancestors (the object included)
  and how many levels are left below the depth limit.
\<close>

record walk_pos =
  wp_current :: string
  wp_path :: string
  wp_depth :: int
  wp_visited :: "string list"

definition descend :: "walk_pos \<Rightarrow> RelEdgeRow \<Rightarrow> string \<Rightarrow> walk_pos" where
  "descend p r target = \<lparr> wp_current = target, wp_path = re_path r, wp_depth = wp_depth p + 1, wp_visited = wp_visited p @ [target] \<rparr>"

definition on_path :: "string_util \<Rightarrow> walk_pos \<Rightarrow> string \<Rightarrow> bool" where
  "on_path D p target = list_ex (\<lambda>a. su_CIEquals D a target) (wp_visited p)"

text \<open>An edge is given as its row and, when the walk goes on through it, the object it leads to.\<close>

type_synonym edge = "RelEdgeRow \<times> string option"

definition edge_end :: "string \<Rightarrow> string \<Rightarrow> RelEdgeRow \<Rightarrow> edge" where
  "edge_end st caveat r = (r \<lparr> re_status := st, re_caveat := (if caveat = [] then None else Some caveat) \<rparr>, None)"

definition describable :: "'c external \<Rightarrow> string \<Rightarrow> ('c, bool) eng" where
  "describable X object = catch_all (bnd (GetObjectDescribe X object) (\<lambda>_. ret True)) False"

text \<open>A resolved edge: below the limit the target is described, and the walk goes on if that works.\<close>

definition resolved_edge :: "'c external \<Rightarrow> string \<Rightarrow> bool \<Rightarrow> string \<Rightarrow> RelEdgeRow \<Rightarrow> ('c, edge) eng" where
  "resolved_edge X caveat deeper target r =
     (if \<not> deeper then ret (r \<lparr> re_status := ''resolved'' \<rparr>, None)
      else bnd (describable X target) (\<lambda>ok.
           ret (if ok then (r \<lparr> re_status := ''resolved'' \<rparr>, Some target) else edge_end ''not_describable'' caveat r)))"

definition parent_row :: "walk_pos \<Rightarrow> SalesforceField \<Rightarrow> RelEdgeRow" where
  "parent_row p f = \<lparr> re_source_object = wp_current p, re_relationship_name = f_relationship_name f,
     re_path = join_path (wp_path p) (f_relationship_name f), re_depth_level = wp_depth p, re_target_object = [],
     re_target_null = False, re_reference_to = f_reference_to f, re_direction = ''parent'', re_relationship_type = ''reference'',
     re_status = [], re_caveat = None \<rparr>"

definition parent_edge :: "'c external \<Rightarrow> bool \<Rightarrow> walk_pos \<Rightarrow> SalesforceField \<Rightarrow> ('c, edge option) eng" where
  "parent_edge X deeper p f =
     (if f_relationship_name f = [] then ret None
      else let r = parent_row p f in
      if length (f_reference_to f) \<noteq> 1 then
        ret (Some (edge_end ''polymorphic'' ''multiple referenceTo targets; not traversed'' (r \<lparr> re_target_null := True \<rparr>)))
      else let target = f_reference_to f ! 0 in
      if su_CIEquals (x_su X) target (wp_current p) then
        ret (Some (edge_end ''self_reference'' [] (r \<lparr> re_target_object := target \<rparr>)))
      else if on_path (x_su X) p target then
        ret (Some (edge_end ''cyclic'' ''target already on the relationship path'' (r \<lparr> re_target_object := target \<rparr>)))
      else bnd (IsQueryable X target) (\<lambda>q.
        if \<not> q then ret (Some (edge_end ''not_queryable'' ''target not queryable in Describe Global'' (r \<lparr> re_target_null := True \<rparr>)))
        else bnd (resolved_edge X ''target Describe failed or unavailable'' deeper target (r \<lparr> re_target_object := target \<rparr>))
               (\<lambda>e. ret (Some e))))"

definition child_row :: "walk_pos \<Rightarrow> SalesforceChildRelationship \<Rightarrow> RelEdgeRow" where
  "child_row p cr = \<lparr> re_source_object = wp_current p, re_relationship_name = cr_relationship_name cr,
     re_path = join_path (wp_path p) (if cr_relationship_name cr = [] then ''child:'' @ cr_child_object cr else cr_relationship_name cr),
     re_depth_level = wp_depth p, re_target_object = cr_child_object cr, re_target_null = False,
     re_reference_to = (if cr_field cr = [] then [] else [cr_field cr]), re_direction = ''child'',
     re_relationship_type = ''childRelationship'', re_status = [], re_caveat = None \<rparr>"

definition child_edge :: "'c external \<Rightarrow> bool \<Rightarrow> walk_pos \<Rightarrow> SalesforceChildRelationship \<Rightarrow> ('c, edge option) eng" where
  "child_edge X deeper p cr =
     (let r = child_row p cr in
      if cr_relationship_name cr = [] then
        ret (Some (edge_end ''unnamed_child'' ''child relationship has no relationshipName; not SOQL-subquery-addressable'' r))
      else bnd (IsQueryable X (cr_child_object cr)) (\<lambda>q.
        if \<not> q then ret (Some (edge_end ''not_queryable'' ''child object not queryable in Describe Global'' r))
        else if on_path (x_su X) p (cr_child_object cr) then
          ret (Some (edge_end ''cyclic'' ''target already on the relationship path'' r))
        else bnd (resolved_edge X ''child Describe failed or unavailable'' deeper (cr_child_object cr) r) (\<lambda>e. ret (Some e))))"

text \<open>
  The loop of both walks over the relationships of the described object; \<open>left\<close> is
  \<^verbatim>\<open>max_depth - depth\<close>, so that \<^verbatim>\<open>depth < max_depth\<close> is \<open>left > 0\<close>. An object that cannot be described
  has no relationships.
\<close>

definition relationships_of :: "'c external \<Rightarrow> (SalesforceDescribe \<Rightarrow> 'r list) \<Rightarrow> string \<Rightarrow> ('c, 'r list) eng" where
  "relationships_of X sel object = catch_all (bnd (GetObjectDescribe X object) (\<lambda>d. ret (sel d))) []"

fun walk_edges ::
  "'c external \<Rightarrow> (SalesforceDescribe \<Rightarrow> 'r list) \<Rightarrow> (bool \<Rightarrow> walk_pos \<Rightarrow> 'r \<Rightarrow> ('c, edge option) eng) \<Rightarrow> nat \<Rightarrow> walk_pos \<Rightarrow> 'r list \<Rightarrow>
     ('c, RelEdgeRow list) eng" where
  "walk_edges X sel edge left p [] = ret []"
| "walk_edges X sel edge left p (x # xs) =
     bnd (edge (left > 0) p x) (\<lambda>e.
     bnd (case e of
            Some (r, Some target) \<Rightarrow>
              (case left of
                 0 \<Rightarrow> ret [r]
               | Suc l \<Rightarrow> bnd (relationships_of X sel target) (\<lambda>ys.
                          bnd (walk_edges X sel edge l (descend p r target) ys) (\<lambda>rows. ret (r # rows))))
          | Some (r, None) \<Rightarrow> ret [r]
          | None \<Rightarrow> ret []) (\<lambda>rows.
     bnd (walk_edges X sel edge left p xs) (\<lambda>rest. ret (rows @ rest))))"

definition RelGraphWalk :: "'c external \<Rightarrow> nat \<Rightarrow> walk_pos \<Rightarrow> ('c, RelEdgeRow list) eng" where
  "RelGraphWalk X left p = bnd (relationships_of X d_fields (wp_current p)) (walk_edges X d_fields (parent_edge X) left p)"

definition RelGraphChildWalk :: "'c external \<Rightarrow> nat \<Rightarrow> walk_pos \<Rightarrow> ('c, RelEdgeRow list) eng" where
  "RelGraphChildWalk X left p =
     bnd (relationships_of X d_child_relationships (wp_current p)) (walk_edges X d_child_relationships (child_edge X) left p)"

definition root_pos :: "string \<Rightarrow> walk_pos" where
  "root_pos object = \<lparr> wp_current = object, wp_path = [], wp_depth = 1, wp_visited = [object] \<rparr>"

definition graph_depth :: "Value list \<Rightarrow> int result" where
  "graph_depth inputs =
     (let d = (if length inputs \<ge> 3 \<and> \<not> v_IsNull (inputs ! 2) then v_IntGet (inputs ! 2) else 1) in
      if d < 1 then Inl (BinderException ''salesforce_relationship_graph: max_depth must be >= 1'')
      else Inr (if d > 4 then 4 else d))"

definition graph_direction :: "string_util \<Rightarrow> (string \<Rightarrow> Value option) \<Rightarrow> string result" where
  "graph_direction D named =
     (let include_children = (case given named ''include_children'' of Some v \<Rightarrow> v_BoolGet v | None \<Rightarrow> False) in
      case given named ''direction'' of
        None \<Rightarrow> Inr (if include_children then ''both'' else ''parent'')
      | Some v \<Rightarrow>
          let direction = su_Lower D (v_ToString v) in
          if direction \<noteq> ''parent'' \<and> direction \<noteq> ''child'' \<and> direction \<noteq> ''both'' then
            Inl (BinderException (''salesforce_relationship_graph: direction must be '' @ [SQ] @ ''parent'' @ [SQ] @ '', '' @ [SQ]
              @ ''child'' @ [SQ] @ '', or '' @ [SQ] @ ''both'' @ [SQ]))
          else Inr direction)"

definition RelGraphBind ::
  "(string \<Rightarrow> attached option) \<Rightarrow> 'c external \<Rightarrow> Value list \<Rightarrow> (string \<Rightarrow> Value option) \<Rightarrow> ('c, RelEdgeRow list) eng" where
  "RelGraphBind A X inputs named =
     (if length inputs < 2 \<or> v_IsNull (inputs ! 0) \<or> v_IsNull (inputs ! 1) then
        throw (BinderException (''salesforce_relationship_graph(catalog, object [, max_depth]) ''
          @ ''requires a non-NULL catalog alias and object name''))
      else bnd (of_result (graph_depth inputs)) (\<lambda>max_depth.
      let object = v_ToString (inputs ! 1) in
      bnd (of_result (GetSalesforceCatalogMetadataEngine A (v_ToString (inputs ! 0)))) (\<lambda>_.
      bnd (describable X object) (\<lambda>ok.
      if \<not> ok then throw (BinderException (''salesforce_relationship_graph: object '' @ [SQ] @ object @ [SQ] @ '' could not be described''))
      else bnd (of_result (graph_direction (x_su X) named)) (\<lambda>direction.
      let left = nat (max_depth - 1) in
      bnd (if direction = ''parent'' \<or> direction = ''both'' then RelGraphWalk X left (root_pos object) else ret []) (\<lambda>parents.
      bnd (if direction = ''child'' \<or> direction = ''both'' then RelGraphChildWalk X left (root_pos object) else ret []) (\<lambda>children.
      ret (parents @ children))))))))"

definition graph_cells :: "RelEdgeRow \<Rightarrow> cell list" where
  "graph_cells e = [CVarchar (re_source_object e), null_or (re_relationship_name e), CVarchar (re_path e), CInteger (re_depth_level e),
     if re_target_null e then CNull else CVarchar (re_target_object e), varchar_list (re_reference_to e), CVarchar (re_direction e),
     CVarchar (re_relationship_type e), CVarchar (re_status e), (case re_caveat e of None \<Rightarrow> CNull | Some c \<Rightarrow> CVarchar c)]"

definition graph_schema :: "(string \<times> LogicalType) list" where
  "graph_schema = [(''source_object'', VARCHAR), (''relationship_name'', VARCHAR), (''path'', VARCHAR), (''depth_level'', INTEGER),
     (''target_object'', VARCHAR), (''reference_to'', LIST VARCHAR), (''direction'', VARCHAR), (''relationship_type'', VARCHAR),
     (''status'', VARCHAR), (''caveat'', VARCHAR)]"

definition RelGraphFunction :: "RelEdgeRow list \<Rightarrow> nat \<Rightarrow> nat \<Rightarrow> cell list list \<times> nat" where
  "RelGraphFunction rows = emit_rows graph_cells rows"

interpretation relationship_graph: row_cursor "RelGraphFunction rows" "\<lambda>cursor. map graph_cells (drop cursor rows)" for rows
  unfolding RelGraphFunction_def by (rule list_cursor.row_cursor_axioms)

section \<open>Explanations never fail\<close>

definition explain_reasons :: "string list" where
  "explain_reasons = [''pushed_to_soql'', ''projected'', ''not_filterable'', ''unsupported_operator'', ''complex_expression'',
     ''unresolved_field'', ''relationship_traversed'', ''aggregate_pushdown'', ''metadata_unavailable'',
     ''count_pushdown'', ''count_not_pushed'', ''transport_bulk'', ''transport_rest'']"

lemma explain_item_keeps:
  "ex_pushed (explain_item D ob desc item) = it_pushed item" "ex_residual (explain_item D ob desc item) = it_residual item"
  "ex_object (explain_item D ob desc item) = ob"
  by (simp_all add: explain_item_def explained_def empty_explain_def Let_def split: option.splits)

lemma explain_item_reason: "ex_reason (explain_item D ob desc item) \<in> set explain_reasons"
  by (simp add: explain_item_def explained_def explain_reason_def explain_reasons_def Let_def split: option.splits)

lemma meta_row_reasons: "ex_reason (count_row snap) \<in> set explain_reasons" "ex_reason (transport_row snap) \<in> set explain_reasons"
  by (simp_all add: count_row_def transport_row_def explained_def explain_reasons_def)

lemma explain_cells_typed: "list_all2 cell_of (explain_cells r) (map snd explain_schema)"
  by (simp add: explain_cells_def explain_schema_def bool_cell_def varchar_list_def list_all_iff split: option.splits)

lemma catch_all_runs: "\<exists>v s'. catch_all m d s = (Inr v, s')"
  by (cases "m s"; cases "fst (m s)") (auto simp: catch_all_run)

lemma explain_describe_returns: "\<exists>desc s'. explain_describe A X snap s = (Inr desc, s')"
  by (simp add: explain_describe_def sfm_run catch_all_runs)

text \<open>C17: Explaining the last scan never fails. Whatever the server, the attached catalogs and the
  recorded scan are, the function returns: no row when nothing was scanned, otherwise one row
  per recorded item, in order and with the item's own pushed and residual flags, then the count
  row and, when the transport is known, the transport row. Every reason is one of the
  thirteen documented ones and every row has the announced types; a describe that fails only
  makes rows say so.\<close>

theorem explain_never_fails:
  "\<exists>rows s'. ExplainBind A X s = (Inr rows, s') \<and>
    (let snap = DiagGetExplain (w_globals (ew_world s)); n = length (sn_items snap) in
     if sn_object snap = [] \<and> n = 0 then rows = []
     else length rows = n + (if sn_transport snap = [] then 1 else 2) \<and>
       map (\<lambda>r. (ex_pushed r, ex_residual r)) (take n rows) = map (\<lambda>i. (it_pushed i, it_residual i)) (sn_items snap) \<and>
       ex_role (rows ! n) = ''count'' \<and>
       list_all (\<lambda>r. ex_object r = sn_object snap \<and> ex_reason r \<in> set explain_reasons \<and>
          list_all2 cell_of (explain_cells r) (map snd explain_schema)) rows)"
proof -
  let ?snap = "DiagGetExplain (w_globals (ew_world s))"
  obtain desc s' where d: "explain_describe A X ?snap s = (Inr desc, s')" using explain_describe_returns by blast
  show ?thesis
  proof (cases "sn_object ?snap = [] \<and> sn_items ?snap = []")
    case True
    then show ?thesis by (simp add: ExplainBind_def bnd_run sfm_run)
  next
    case False
    let ?rows = "map (explain_item (x_su X) (sn_object ?snap) desc) (sn_items ?snap) @ [count_row ?snap]
               @ (if sn_transport ?snap = [] then [] else [transport_row ?snap])"
    have "ExplainBind A X s = (Inr ?rows, s')" using False d by (auto simp: ExplainBind_def bnd_run sfm_run)
    moreover have "ex_role (count_row ?snap) = ''count''" "ex_object (count_row ?snap) = sn_object ?snap" "ex_object (transport_row ?snap) = sn_object ?snap"
      by (simp_all add: count_row_def transport_row_def explained_def empty_explain_def)
    moreover have "map (\<lambda>r. (ex_pushed r, ex_residual r)) (take (length (sn_items ?snap)) ?rows) = map (\<lambda>i. (it_pushed i, it_residual i)) (sn_items ?snap)"
      by (simp add: explain_item_keeps)
    ultimately show ?thesis
      using False by (auto simp: Let_def nth_append list_all_iff explain_item_keeps explain_item_reason meta_row_reasons explain_cells_typed)
  qed
qed

section \<open>The graph, specified\<close>

text \<open>
  What an edge should say, given the metadata: the documented status of a parent reference and of a
  child relationship. The walk goes on through an edge only when it is resolved, levels are left and
  the target can be described.
\<close>

definition resolved_spec ::
  "(string \<Rightarrow> SalesforceDescribe option) \<Rightarrow> string \<Rightarrow> bool \<Rightarrow> string \<Rightarrow> RelEdgeRow \<Rightarrow> edge" where
  "resolved_spec described caveat deeper target r =
     (if deeper \<and> described target = None then edge_end ''not_describable'' caveat r
      else (r \<lparr> re_status := ''resolved'' \<rparr>, if deeper then Some target else None))"

definition parent_spec ::
  "string_util \<Rightarrow> (string \<Rightarrow> SalesforceDescribe option) \<Rightarrow> string list \<Rightarrow> bool \<Rightarrow> walk_pos \<Rightarrow> SalesforceField \<Rightarrow> edge option" where
  "parent_spec D described listed deeper p f =
     (if f_relationship_name f = [] then None
      else Some (case f_reference_to f of
        [target] \<Rightarrow>
          if su_CIEquals D target (wp_current p) then
            edge_end ''self_reference'' [] ((parent_row p f) \<lparr> re_target_object := target \<rparr>)
          else if on_path D p target then
            edge_end ''cyclic'' ''target already on the relationship path'' ((parent_row p f) \<lparr> re_target_object := target \<rparr>)
          else if listed_name D listed target then
            resolved_spec described ''target Describe failed or unavailable'' deeper target ((parent_row p f) \<lparr> re_target_object := target \<rparr>)
          else edge_end ''not_queryable'' ''target not queryable in Describe Global'' ((parent_row p f) \<lparr> re_target_null := True \<rparr>)
      | _ \<Rightarrow> edge_end ''polymorphic'' ''multiple referenceTo targets; not traversed'' ((parent_row p f) \<lparr> re_target_null := True \<rparr>)))"

definition child_spec ::
  "string_util \<Rightarrow> (string \<Rightarrow> SalesforceDescribe option) \<Rightarrow> string list \<Rightarrow> bool \<Rightarrow> walk_pos \<Rightarrow> SalesforceChildRelationship \<Rightarrow> edge option" where
  "child_spec D described listed deeper p cr =
     Some (if cr_relationship_name cr = [] then
             edge_end ''unnamed_child'' ''child relationship has no relationshipName; not SOQL-subquery-addressable'' (child_row p cr)
           else if \<not> listed_name D listed (cr_child_object cr) then
             edge_end ''not_queryable'' ''child object not queryable in Describe Global'' (child_row p cr)
           else if on_path D p (cr_child_object cr) then
             edge_end ''cyclic'' ''target already on the relationship path'' (child_row p cr)
           else resolved_spec described ''child Describe failed or unavailable'' deeper (cr_child_object cr) (child_row p cr))"

text \<open>
  The edges below a position: those of its object, and those below every position one step
  further, as long as levels are left.
\<close>

definition rels_of :: "(string \<Rightarrow> SalesforceDescribe option) \<Rightarrow> (SalesforceDescribe \<Rightarrow> 'r list) \<Rightarrow> string \<Rightarrow> 'r list" where
  "rels_of described sel ob = (case described ob of None \<Rightarrow> [] | Some d \<Rightarrow> sel d)"

inductive graph_edge ::
  "(string \<Rightarrow> 'r list) \<Rightarrow> (bool \<Rightarrow> walk_pos \<Rightarrow> 'r \<Rightarrow> edge option) \<Rightarrow> nat \<Rightarrow> walk_pos \<Rightarrow> RelEdgeRow \<Rightarrow> bool"
  for rels spec where
  here: "x \<in> set (rels (wp_current p)) \<Longrightarrow> spec (left > 0) p x = Some (r, t) \<Longrightarrow> graph_edge rels spec left p r"
| below: "x \<in> set (rels (wp_current p)) \<Longrightarrow> spec True p x = Some (r', Some target) \<Longrightarrow>
    graph_edge rels spec l (descend p r' target) r \<Longrightarrow> graph_edge rels spec (Suc l) p r"

text \<open>The rows in the order of the walk.\<close>

fun walk_rows :: "(string \<Rightarrow> 'r list) \<Rightarrow> (bool \<Rightarrow> walk_pos \<Rightarrow> 'r \<Rightarrow> edge option) \<Rightarrow> nat \<Rightarrow> walk_pos \<Rightarrow> 'r list \<Rightarrow> RelEdgeRow list" where
  "walk_rows rels spec left p [] = []"
| "walk_rows rels spec left p (x # xs) =
     (case spec (left > 0) p x of
        None \<Rightarrow> []
      | Some (r, None) \<Rightarrow> [r]
      | Some (r, Some target) \<Rightarrow> r # (case left of 0 \<Rightarrow> [] | Suc l \<Rightarrow> walk_rows rels spec l (descend p r target) (rels target)))
     @ walk_rows rels spec left p xs"

lemma wp_current_descend [simp]: "wp_current (descend p r t) = t"
  by (simp add: descend_def)

definition row_from :: "(string \<Rightarrow> 'r list) \<Rightarrow> (bool \<Rightarrow> walk_pos \<Rightarrow> 'r \<Rightarrow> edge option) \<Rightarrow> nat \<Rightarrow> walk_pos \<Rightarrow> RelEdgeRow \<Rightarrow> 'r \<Rightarrow> bool" where
  "row_from rels spec left p r x \<longleftrightarrow>
     (\<exists>t. spec (left > 0) p x = Some (r, t)) \<or>
     (\<exists>r' t l. left = Suc l \<and> spec True p x = Some (r', Some t) \<and> r \<in> set (walk_rows rels spec l (descend p r' t) (rels t)))"

lemma set_walk_rows: "r \<in> set (walk_rows rels spec left p xs) \<longleftrightarrow> (\<exists>x \<in> set xs. row_from rels spec left p r x)"
proof (induction xs)
  case (Cons x xs)
  have "r \<in> set (walk_rows rels spec left p (x # xs)) \<longleftrightarrow> row_from rels spec left p r x \<or> r \<in> set (walk_rows rels spec left p xs)"
  proof (cases "spec (left > 0) p x")
    case None
    then show ?thesis by (cases left) (simp_all add: row_from_def)
  next
    case (Some e)
    obtain r' t where e: "e = (r', t)" by fastforce
    show ?thesis using Some unfolding e by (cases left; cases t) (auto simp: row_from_def)
  qed
  with Cons.IH show ?case by simp
qed simp

lemma walk_rows_exact: "r \<in> set (walk_rows rels spec left p (rels (wp_current p))) \<longleftrightarrow> graph_edge rels spec left p r"
proof
  show "r \<in> set (walk_rows rels spec left p (rels (wp_current p))) \<Longrightarrow> graph_edge rels spec left p r"
  proof (induction left arbitrary: p)
    case 0
    then show ?case unfolding set_walk_rows by (auto simp: row_from_def intro: here)
  next
    case (Suc l)
    from Suc.prems obtain x where "x \<in> set (rels (wp_current p))" "row_from rels spec (Suc l) p r x"
      unfolding set_walk_rows by blast
    then consider
      x t where "x \<in> set (rels (wp_current p))" "spec (Suc l > 0) p x = Some (r, t)"
    | x r' t where "x \<in> set (rels (wp_current p))" "spec True p x = Some (r', Some t)"
        "r \<in> set (walk_rows rels spec l (descend p r' t) (rels (wp_current (descend p r' t))))"
      unfolding wp_current_descend row_from_def by blast
    then show ?case
    proof cases
      case 1
      then show ?thesis by (rule here)
    next
      case 2
      from 2(1,2) Suc.IH [OF 2(3)] show ?thesis by (rule below)
    qed
  qed
  show "graph_edge rels spec left p r \<Longrightarrow> r \<in> set (walk_rows rels spec left p (rels (wp_current p)))"
  proof (induction rule: graph_edge.induct)
    case (here x p left r t)
    show ?case unfolding set_walk_rows using here by (auto simp: row_from_def)
  next
    case (below x p r' target l r)
    have "row_from rels spec (Suc l) p r x" using below(2,4) by (auto simp: row_from_def)
    then show ?case unfolding set_walk_rows using below(1) by blast
  qed
qed

definition metadata_part :: "(SalesforceDescribe \<Rightarrow> 'r list) \<Rightarrow> bool" where
  "metadata_part sel \<longleftrightarrow> (\<forall>d d'. same_metadata d d' \<longrightarrow> sel d' = sel d)"

lemma metadata_parts: "metadata_part d_fields" "metadata_part d_child_relationships"
  by (simp_all add: metadata_part_def same_metadata_def)

context metadata_source
begin

lemma describable_run: "I s \<Longrightarrow> \<exists>s'. describable X ob s = (Inr (described ob \<noteq> None), s') \<and> I s'"
proof (cases "described ob")
  case None
  moreover assume "I s"
  ultimately show ?thesis using describe_fails [of s ob] by (auto simp: describable_def bnd_run sfm_run catch_all_run)
next
  case (Some d)
  moreover assume "I s"
  ultimately show ?thesis using describe_works [of s ob d] by (auto simp: describable_def bnd_run sfm_run catch_all_run)
qed

lemma relationships_run:
  assumes "I s" and sel: "metadata_part sel"
  shows "\<exists>s'. relationships_of X sel ob s = (Inr (rels_of described sel ob), s') \<and> I s'"
proof (cases "described ob")
  case None
  with describe_fails [OF assms(1)] obtain e s' where "GetObjectDescribe X ob s = (Inl e, s')" "I s'" by blast
  with None show ?thesis by (simp add: relationships_of_def rels_of_def bnd_run sfm_run catch_all_run)
next
  case (Some d)
  with describe_works [OF assms(1)] obtain d' s' where "GetObjectDescribe X ob s = (Inr d', s')" "same_metadata d d'" "I s'" by blast
  with Some sel show ?thesis by (auto simp: metadata_part_def relationships_of_def rels_of_def bnd_run sfm_run catch_all_run)
qed

lemma resolved_run:
  "I s \<Longrightarrow> \<exists>s'. resolved_edge X caveat deeper target r s = (Inr (resolved_spec described caveat deeper target r), s') \<and> I s'"
  using describable_run [of s target]
  by (auto simp: resolved_edge_def resolved_spec_def bnd_run sfm_run)

lemma parent_run: "I s \<Longrightarrow> \<exists>s'. parent_edge X deeper p f s = (Inr (parent_spec (x_su X) described listed deeper p f), s') \<and> I s'"
proof -
  assume i: "I s"
  show ?thesis
  proof (cases "f_relationship_name f = [] \<or> length (f_reference_to f) \<noteq> 1")
    case True
    with i show ?thesis by (auto simp: parent_edge_def parent_spec_def Let_def sfm_run split: list.splits)
  next
    case False
    then obtain t where t: "f_reference_to f = [t]" by (cases "f_reference_to f") auto
    from IsQueryable_run [OF i, of t] obtain s1 where q: "IsQueryable X t s = (Inr (listed_name (x_su X) listed t), s1)" "I s1" by blast
    from resolved_run [OF q(2)] obtain s2 where
      "resolved_edge X ''target Describe failed or unavailable'' deeper t ((parent_row p f) \<lparr> re_target_object := t \<rparr>) s1 =
        (Inr (resolved_spec described ''target Describe failed or unavailable'' deeper t ((parent_row p f) \<lparr> re_target_object := t \<rparr>)), s2)" "I s2"
      by blast
    with False t q i show ?thesis by (simp add: parent_edge_def parent_spec_def Let_def bnd_run sfm_run)
  qed
qed

lemma child_run: "I s \<Longrightarrow> \<exists>s'. child_edge X deeper p cr s = (Inr (child_spec (x_su X) described listed deeper p cr), s') \<and> I s'"
proof -
  assume i: "I s"
  let ?t = "cr_child_object cr"
  from IsQueryable_run [OF i, of ?t] obtain s1 where q: "IsQueryable X ?t s = (Inr (listed_name (x_su X) listed ?t), s1)" "I s1" by blast
  from resolved_run [OF q(2)] obtain s2 where
    "resolved_edge X ''child Describe failed or unavailable'' deeper ?t (child_row p cr) s1 =
      (Inr (resolved_spec described ''child Describe failed or unavailable'' deeper ?t (child_row p cr)), s2)" "I s2"
    by blast
  with q i show ?thesis by (simp add: child_edge_def child_spec_def Let_def bnd_run sfm_run)
qed

lemma walk_run:
  assumes sel: "metadata_part sel"
    and edge: "\<And>s deeper p x. I s \<Longrightarrow> \<exists>s'. edge deeper p x s = (Inr (spec deeper p x), s') \<and> I s'"
    and "I s"
  shows "\<exists>s'. walk_edges X sel edge left p xs s = (Inr (walk_rows (rels_of described sel) spec left p xs), s') \<and> I s'"
  using \<open>I s\<close>
proof (induction left arbitrary: p xs s)
  case 0
  then show ?case
  proof (induction xs arbitrary: s)
    case (Cons x xs)
    from edge [OF Cons.prems] obtain s1 where e: "edge False p x s = (Inr (spec False p x), s1)" "I s1" by blast
    from Cons.IH [OF e(2)] e show ?case
      by (auto simp: bnd_run sfm_run split: option.splits)
  qed (simp add: sfm_run)
next
  case (Suc l)
  note deeper = Suc.IH
  from Suc.prems show ?case
  proof (induction xs arbitrary: s)
    case (Cons x xs)
    from edge [OF Cons.prems] obtain s1 where e: "edge True p x s = (Inr (spec True p x), s1)" "I s1" by blast
    show ?case
    proof (cases "\<exists>r t. spec True p x = Some (r, Some t)")
      case False
      with Cons.IH [OF e(2)] e show ?thesis by (auto simp: bnd_run sfm_run split: option.splits)
    next
      case True
      then obtain r t where rt: "spec True p x = Some (r, Some t)" by blast
      from relationships_run [OF e(2) sel] obtain s2 where
        s2: "relationships_of X sel t s1 = (Inr (rels_of described sel t), s2)" "I s2" by blast
      from deeper [OF s2(2)] obtain s3 where
        s3: "walk_edges X sel edge l (descend p r t) (rels_of described sel t) s2 =
          (Inr (walk_rows (rels_of described sel) spec l (descend p r t) (rels_of described sel t)), s3)" "I s3" by blast
      from Cons.IH [OF s3(2)] rt e s2 s3 show ?thesis by (auto simp: bnd_run sfm_run)
    qed
  qed (simp add: sfm_run)
qed

lemma parent_walk_run:
  assumes "I s"
  shows "\<exists>rows s'. RelGraphWalk X left p s = (Inr rows, s') \<and> I s' \<and>
    set rows = {r. graph_edge (rels_of described d_fields) (parent_spec (x_su X) described listed) left p r}"
proof -
  from relationships_run [OF assms metadata_parts(1)] obtain s1 where
    s1: "relationships_of X d_fields (wp_current p) s = (Inr (rels_of described d_fields (wp_current p)), s1)" "I s1" by blast
  from walk_run [OF metadata_parts(1) parent_run s1(2)] s1 show ?thesis
    by (fastforce simp: RelGraphWalk_def bnd_run walk_rows_exact)
qed

lemma child_walk_run:
  assumes "I s"
  shows "\<exists>rows s'. RelGraphChildWalk X left p s = (Inr rows, s') \<and> I s' \<and>
    set rows = {r. graph_edge (rels_of described d_child_relationships) (child_spec (x_su X) described listed) left p r}"
proof -
  from relationships_run [OF assms metadata_parts(2)] obtain s1 where
    s1: "relationships_of X d_child_relationships (wp_current p) s = (Inr (rels_of described d_child_relationships (wp_current p)), s1)" "I s1" by blast
  from walk_run [OF metadata_parts(2) child_run s1(2)] s1 show ?thesis
    by (fastforce simp: RelGraphChildWalk_def bnd_run walk_rows_exact)
qed

end

section \<open>The graph is the graph\<close>

lemma edge_rows_at:
  "parent_spec D described listed deeper p f = Some (r, t) \<Longrightarrow> re_depth_level r = wp_depth p"
  "child_spec D described listed deeper p cr = Some (r, t) \<Longrightarrow> re_depth_level r = wp_depth p"
  by (auto simp: parent_spec_def child_spec_def resolved_spec_def edge_end_def parent_row_def child_row_def
      split: if_splits list.splits)

lemma graph_edge_depth:
  assumes "graph_edge rels spec left p r" and "\<And>deeper p x r t. spec deeper p x = Some (r, t) \<Longrightarrow> re_depth_level r = wp_depth p"
  shows "wp_depth p \<le> re_depth_level r \<and> re_depth_level r \<le> wp_depth p + int left"
  using assms(1)
proof (induction rule: graph_edge.induct)
  case (here x p left r t)
  with assms(2) [OF here(2)] show ?case by simp
next
  case (below x p r' target l r)
  then show ?case by (simp add: descend_def)
qed

definition parent_graph :: "org \<Rightarrow> nat \<Rightarrow> string \<Rightarrow> RelEdgeRow set" where
  "parent_graph g left ob = {r. graph_edge (rels_of (org_described g) d_fields)
     (parent_spec ascii_su (org_described g) (org_listed g)) left (root_pos ob) r}"

definition child_graph :: "org \<Rightarrow> nat \<Rightarrow> string \<Rightarrow> RelEdgeRow set" where
  "child_graph g left ob = {r. graph_edge (rels_of (org_described g) d_child_relationships)
     (child_spec ascii_su (org_described g) (org_listed g)) left (root_pos ob) r}"

lemma graph_levels:
  "r \<in> parent_graph g left ob \<Longrightarrow> 1 \<le> re_depth_level r \<and> re_depth_level r \<le> 1 + int left"
  "r \<in> child_graph g left ob \<Longrightarrow> 1 \<le> re_depth_level r \<and> re_depth_level r \<le> 1 + int left"
  unfolding parent_graph_def child_graph_def
  using graph_edge_depth [OF _ edge_rows_at(1)] graph_edge_depth [OF _ edge_rows_at(2)]
  by (fastforce simp: root_pos_def)+

text \<open>C15: The relationship graph is complete and sound. On an org whose metadata is stable, the function
  returns, and its rows are exactly the edges the specification asks for: the parent
  references (the child relationships) of the object and, through every resolved edge whose
  target can be described and is not already on the path, of the objects below, down to the
  requested depth, each with its documented status. Levels are between 1 and that depth,
  which is at most 4.\<close>

theorem relationship_graph_exact:
  assumes "connected g s" "2 \<le> length inputs" "\<not> v_IsNull (inputs ! 0)" "\<not> v_IsNull (inputs ! 1)"
    "GetSalesforceCatalogMetadataEngine A (v_ToString (inputs ! 0)) = Inr ()" "graph_depth inputs = Inr d"
    "graph_direction ascii_su named = Inr direction" "org_described g (v_ToString (inputs ! 1)) \<noteq> None"
  shows "\<exists>rows s'. RelGraphBind A (directory_server g X) inputs named s = (Inr rows, s') \<and> connected g s' \<and>
    set rows = (if direction = ''child'' then {} else parent_graph g (nat (d - 1)) (v_ToString (inputs ! 1))) \<union>
      (if direction = ''parent'' then {} else child_graph g (nat (d - 1)) (v_ToString (inputs ! 1))) \<and>
    list_all (\<lambda>r. 1 \<le> re_depth_level r \<and> re_depth_level r \<le> d) rows \<and> d \<le> 4"
proof -
  let ?X = "directory_server g X" and ?ob = "v_ToString (inputs ! 1)" and ?left = "nat (d - 1)"
  from assms(6) have d: "1 \<le> d" "d \<le> 4" by (auto simp: graph_depth_def Let_def split: if_splits)
  from assms(7) have dir: "direction = ''parent'' \<or> direction = ''child'' \<or> direction = ''both''"
    by (auto simp: graph_direction_def Let_def split: option.splits if_splits)
  from directory.describable_run [OF assms(1), of X ?ob] assms(8) obtain s1 where
    s1: "describable ?X ?ob s = (Inr True, s1)" "connected g s1" by auto
  define pw where "pw = (if direction = ''parent'' \<or> direction = ''both'' then RelGraphWalk ?X ?left (root_pos ?ob) else ret [])"
  define cw where "cw = (if direction = ''child'' \<or> direction = ''both'' then RelGraphChildWalk ?X ?left (root_pos ?ob) else ret [])"
  obtain ps s2 where ps: "pw s1 = (Inr ps, s2)" "connected g s2"
    "set ps = (if direction = ''child'' then {} else parent_graph g ?left ?ob)"
    using directory.parent_walk_run [OF s1(2), of X ?left "root_pos ?ob"] s1(2) dir
    unfolding pw_def parent_graph_def directory_su by (auto simp: sfm_run)
  obtain cs s3 where cs: "cw s2 = (Inr cs, s3)" "connected g s3"
    "set cs = (if direction = ''parent'' then {} else child_graph g ?left ?ob)"
    using directory.child_walk_run [OF ps(2), of X ?left "root_pos ?ob"] ps(2) dir
    unfolding cw_def child_graph_def directory_su by (auto simp: sfm_run)
  have "RelGraphBind A ?X inputs named s = (Inr (ps @ cs), s3)"
    unfolding RelGraphBind_def Let_def
    using assms(2-7) s1(1) ps(1) cs(1) by (simp add: bnd_run sfm_run pw_def [symmetric] cw_def [symmetric])
  moreover have "1 \<le> re_depth_level r \<and> re_depth_level r \<le> d" if "r \<in> set (ps @ cs)" for r
    using that d graph_levels [of r g ?left ?ob] ps(3) cs(3) by (auto split: if_splits)
  ultimately show ?thesis using ps(3) cs(2,3) d by (auto simp: list_all_iff)
qed

definition reference_json :: "string \<Rightarrow> string \<Rightarrow> string list \<Rightarrow> json" where
  "reference_json nm rel targets = JObj [(''name'', JStr nm), (''type'', JStr ''reference''), (''relationshipName'', JStr rel),
     (''referenceTo'', JArr (map JStr targets))]"

definition sample_org :: org where
  "sample_org = \<lparr> org_token = \<lparr> access_token = ''t'', instance_url = ''https://x'' \<rparr>, org_version = ''v60.0'',
     org_listing = print_json (JObj [(''sobjects'', JArr [JObj [(''name'', JStr ''Account''), (''queryable'', JBool True)]])]),
     org_objects = [(''LEAD'', print_json (JObj [(''fields'', JArr [reference_json ''AccountId'' ''Account'' [''Account'']])])),
       (''Account'', print_json (JObj [(''fields'', JArr [reference_json ''LeadId'' ''Lead'' [''lead'']])]))] \<rparr>"

lemma sample_connected: "connected sample_org sample_engine_world"
  unfolding sample_engine_world_def by (rule new_engine_connected) (simp_all add: sample_org_def)

definition graph_args :: "Value list" where
  "graph_args = [varchar_option ''sf'', varchar_option ''Lead'', (varchar_option ''2'') \<lparr> v_IntGet := 2 \<rparr>]"

theorem relationship_graph_exact_witness:
  "\<exists>rows s'. RelGraphBind sample_attached (directory_server sample_org history_external) graph_args (\<lambda>_. None) sample_engine_world =
      (Inr rows, s') \<and> set rows = parent_graph sample_org 1 (v_ToString (graph_args ! 1))"
proof -
  have "2 \<le> length graph_args" "\<not> v_IsNull (graph_args ! 0)" "\<not> v_IsNull (graph_args ! 1)"
    "GetSalesforceCatalogMetadataEngine sample_attached (v_ToString (graph_args ! 0)) = Inr ()"
    "graph_depth graph_args = Inr 2" "graph_direction ascii_su (\<lambda>_. None) = Inr ''parent''"
    "org_described sample_org (v_ToString (graph_args ! 1)) \<noteq> None" by code_simp+
  from relationship_graph_exact [OF sample_connected this, of history_external] show ?thesis by auto
qed

end
