(* ===== verification/SF_Report.thy ===== *)
theory SF_Report
  imports SF_MetaSource
begin

text \<open>
  The report bridge (\<^verbatim>\<open>salesforce_report.cpp\<close>): the listing of report definitions, the sample of a tabular
  report, and the translation of a report into a candidate SOQL query with its explanation.
\<close>

section \<open>The listing\<close>

definition kReportsSoql :: string where
  "kReportsSoql = ''SELECT Id, Name, DeveloperName, FolderName, Format FROM Report''"

definition report_keys :: "string list" where
  "report_keys = [''Id'', ''Name'', ''DeveloperName'', ''FolderName'', ''Format'']"

record ReportsBindData =
  rp_config :: SalesforceConfig
  rp_token :: SalesforceTokenSet

record ReportsGlobalState =
  rp_fetched :: bool
  rp_records :: "string list"
  rp_cursor :: nat

definition ReportsBind :: "(string \<Rightarrow> attached option) \<Rightarrow> Value list \<Rightarrow> ReportsBindData result" where
  "ReportsBind A inputs =
     (if inputs = [] then Inl (BinderException (''salesforce_reports(catalog) requires the attached Salesforce catalog ''
        @ ''alias, e.g. salesforce_reports('' @ [SQ] @ ''sf'' @ [SQ] @ '')''))
      else if v_IsNull (inputs ! 0) then Inl (BinderException ''salesforce_reports: catalog alias must not be NULL.'')
      else rbind (GetSalesforceCatalogCredentials A (v_ToString (inputs ! 0))) (\<lambda>(config, tok).
           Inr \<lparr> rp_config = config, rp_token = tok \<rparr>))"

definition ReportsInit :: ReportsGlobalState where
  "ReportsInit = \<lparr> rp_fetched = False, rp_records = [], rp_cursor = 0 \<rparr>"

definition reports_cells :: "string \<Rightarrow> cell list" where
  "reports_cells rec = map (\<lambda>key. case GetValue rec key of (val, found, is_null) \<Rightarrow>
     if \<not> found \<or> is_null then CNull else CVarchar val) report_keys"

definition reports_emit :: "nat \<Rightarrow> ReportsGlobalState \<Rightarrow> cell list list \<times> ReportsGlobalState" where
  "reports_emit vector_size g =
     (case emit_rows reports_cells (rp_records g) vector_size (rp_cursor g) of (rows, i) \<Rightarrow> (rows, g \<lparr> rp_cursor := i \<rparr>))"

definition ReportsFunction ::
  "'c external \<Rightarrow> ReportsBindData \<Rightarrow> nat \<Rightarrow> ReportsGlobalState \<Rightarrow> ('c, cell list list \<times> ReportsGlobalState) sess" where
  "ReportsFunction X b vector_size g =
     bnd (if rp_fetched g then ret g
          else bnd (session_do (\<lambda>_. SetToken (rp_token b) (new_session (rp_config b)))) (\<lambda>_.
               bnd (globals_do (SetLastSoql kReportsSoql)) (\<lambda>_.
               bnd (Query X kReportsSoql) (\<lambda>r. ret (g \<lparr> rp_records := fst r, rp_fetched := True \<rparr>))))) (\<lambda>g1.
     ret (reports_emit vector_size g1))"

section \<open>The sample of a tabular report\<close>

definition kReportMaxRows :: int where "kReportMaxRows = 2000"

definition kReportGuidance :: string where
  "kReportGuidance = ''report result is a validation sample only (max 2000 rows, no pagination); ''
     @ ''scale via sf.<Object> scans, not this function''"

definition kReserved :: string where "kReserved = ''__sf_report_''"

definition reserved_columns :: "(string \<times> LogicalType) list" where
  "reserved_columns = [(''__sf_report_truncated'', BOOLEAN), (''__sf_report_all_data'', BOOLEAN),
     (''__sf_report_max_rows'', BIGINT), (''__sf_report_guidance'', VARCHAR)]"

record ReportBindData =
  rb_data_cols :: nat
  rb_rows :: "string list list"
  rb_truncated :: bool
  rb_all_data :: bool
  rb_has_all_data :: bool

definition column_name :: "string \<Rightarrow> string \<Rightarrow> string" where
  "column_name label api =
     (let n1 = (if label = [] then api else label);
          n2 = (if prefix kReserved n1 then api else n1)
      in if n2 = [] \<or> prefix kReserved n2 then ''col_'' @ api else n2)"

definition numbered :: "string \<Rightarrow> nat \<Rightarrow> string" where
  "numbered base n = base @ ''_'' @ show_nat n"

text \<open>The loop that numbers a name until it is not used; it ends because the used names are finitely many.\<close>

function unused_name :: "string list \<Rightarrow> string \<Rightarrow> nat \<Rightarrow> string \<Rightarrow> string" where
  "unused_name used base n name = (if name \<in> set used then unused_name used base (n + 1) (numbered base n) else name)"
  by pat_completeness auto

lemma numbered_inj: "numbered base m = numbered base n \<Longrightarrow> m = n"
  unfolding numbered_def using digits_val_show_nat by (metis same_append_eq)

lemma finite_numbered: "finite {k. n \<le> k \<and> numbered base k \<in> set used}"
proof -
  have "inj_on (numbered base) {k. n \<le> k \<and> numbered base k \<in> set used}" by (auto intro: inj_onI dest: numbered_inj)
  moreover have "numbered base ` {k. n \<le> k \<and> numbered base k \<in> set used} \<subseteq> set used" by auto
  ultimately show ?thesis by (meson finite_set inj_on_finite)
qed

termination unused_name
proof (relation "measure (\<lambda>(used, base, n, name). card {k. n \<le> k \<and> numbered base k \<in> set used} + of_bool (name \<in> set used))", goal_cases)
  case (2 used base n name)
  let ?S = "\<lambda>m. {k. m \<le> k \<and> numbered base k \<in> set used}"
  have "?S n = (if numbered base n \<in> set used then insert n (?S (n + 1)) else ?S (n + 1))"
    by (auto simp: le_eq_less_or_eq)
  moreover have "n \<notin> ?S (n + 1)" by simp
  ultimately have "card (?S (n + 1)) + of_bool (numbered base n \<in> set used) = card (?S n)"
    using finite_numbered [of "n + 1" base used] by simp
  with 2 show ?case by simp
qed simp

declare unused_name.simps [simp del]

fun report_names :: "string list \<Rightarrow> (string \<times> string) list \<Rightarrow> string list" where
  "report_names used [] = []"
| "report_names used ((label, api) # cols) =
     (let name = column_name label api; chosen = unused_name used name 2 name in chosen # report_names (chosen # used) cols)"

definition report_columns :: "string \<Rightarrow> (string \<times> string) list" where
  "report_columns bd =
     (let col_info = ExtractObject (ExtractObject bd ''reportExtendedMetadata'') ''detailColumnInfo'' in
      map (\<lambda>api. let info = ExtractObject col_info api in (if info = [] then [] else GetString info ''label'', api))
        (GetStringArray (ExtractObject bd ''reportMetadata'') ''detailColumns''))"

definition pad_row :: "nat \<Rightarrow> string list \<Rightarrow> string list" where
  "pad_row n vals = take n vals @ replicate (n - length vals) []"

definition report_bind_of :: "string \<Rightarrow> string \<Rightarrow> ((string \<times> LogicalType) list \<times> ReportBindData) result" where
  "report_bind_of report_id bd =
     (let tt = ExtractObject (ExtractObject bd ''factMap'') ''T!T'' in
      if tt = [] then Inl (BinderException (''salesforce_report: only tabular reports are supported in this cut ''
        @ ''(summary/matrix unsupported); report '' @ [SQ] @ report_id @ [SQ]))
      else let cols = report_columns bd in
        (case GetValue bd ''allData'' of (raw, found, is_null) \<Rightarrow>
         let has_all = found \<and> \<not> is_null; all_data = (raw = ''true'') in
         Inr (map (\<lambda>n. (n, VARCHAR)) (report_names [] cols) @ reserved_columns,
              \<lparr> rb_data_cols = length cols,
                rb_rows = map (\<lambda>row. pad_row (length cols) (map (\<lambda>c. GetString c ''label'') (GetObjectArray row ''dataCells'')))
                  (GetObjectArray tt ''rows''),
                rb_truncated = (if has_all then \<not> all_data else False), rb_all_data = all_data, rb_has_all_data = has_all \<rparr>)))"

definition ReportBind ::
  "(string \<Rightarrow> attached option) \<Rightarrow> 'c external \<Rightarrow> Value list \<Rightarrow> ('c, (string \<times> LogicalType) list \<times> ReportBindData) sess" where
  "ReportBind A X args =
     (if length args < 2 then throw (BinderException (''salesforce_report(catalog, report_id) requires the attached catalog ''
        @ ''alias and a report id, e.g. salesforce_report('' @ [SQ] @ ''sf'' @ [SQ] @ '', '' @ [SQ] @ ''00O...'' @ [SQ] @ '')''))
      else if v_IsNull (args ! 0) \<or> v_IsNull (args ! 1) then throw (BinderException ''salesforce_report: arguments must not be NULL.'')
      else bnd (of_result (GetSalesforceCatalogCredentials A (v_ToString (args ! 0)))) (\<lambda>(config, tok).
           bnd (session_do (\<lambda>_. SetToken tok (new_session config))) (\<lambda>_.
           bnd (RunReport X (v_ToString (args ! 1))) (\<lambda>bd.
           of_result (report_bind_of (v_ToString (args ! 1)) bd)))))"

definition report_cells :: "ReportBindData \<Rightarrow> string list \<Rightarrow> cell list" where
  "report_cells b vals = map (\<lambda>c. CVarchar (if c < length vals then vals ! c else [])) [0..<rb_data_cols b]
     @ [CBoolean (rb_truncated b), if rb_has_all_data b then CBoolean (rb_all_data b) else CNull, CBigint kReportMaxRows,
        CVarchar kReportGuidance]"

definition ReportFunction :: "ReportBindData \<Rightarrow> nat \<Rightarrow> nat \<Rightarrow> cell list list \<times> nat" where
  "ReportFunction b = emit_rows (report_cells b) (rb_rows b)"

interpretation report: row_cursor "ReportFunction b" "\<lambda>cursor. map (report_cells b) (drop cursor (rb_rows b))" for b
  unfolding ReportFunction_def by (rule list_cursor.row_cursor_axioms)

interpretation reports: row_cursor reports_emit "\<lambda>g. map reports_cells (drop (rp_cursor g) (rp_records g))"
proof
  fix n g rows g'
  assume "reports_emit n g = (rows, g')"
  then obtain i where "emit_rows reports_cells (rp_records g) n (rp_cursor g) = (rows, i)" "g' = g \<lparr> rp_cursor := i \<rparr>"
    by (auto simp: reports_emit_def split: prod.splits)
  then show "rows = take n (map reports_cells (drop (rp_cursor g) (rp_records g))) \<and>
      map reports_cells (drop (rp_cursor g') (rp_records g')) = drop n (map reports_cells (drop (rp_cursor g) (rp_records g)))"
    by (auto dest: list_cursor.emits)
qed

section \<open>Column names\<close>

lemma unused_name_fresh: "unused_name used base n name \<notin> set used"
proof (induction used base n name rule: unused_name.induct)
  case (1 used base n name)
  then show ?case by (simp add: unused_name.simps [of used base n name])
qed

lemma unused_name_shape: "unused_name used base n name = name \<or> (\<exists>k. unused_name used base n name = numbered base k)"
proof (induction used base n name rule: unused_name.induct)
  case (1 used base n name)
  then show ?case by (auto simp: unused_name.simps [of used base n name])
qed

lemma column_name_free: "column_name label api \<noteq> [] \<and> \<not> prefix kReserved (column_name label api)"
  by (auto simp: column_name_def Let_def kReserved_def)

lemma report_names_distinct: "distinct (report_names used cols) \<and> set (report_names used cols) \<inter> set used = {}"
proof (induction used cols rule: report_names.induct)
  case (2 used label api cols)
  then show ?case using unused_name_fresh by (auto simp: Let_def)
qed simp

lemma length_report_names [simp]: "length (report_names used cols) = length cols"
  by (induction used cols rule: report_names.induct) (simp_all add: Let_def)

lemma last_numbered: "isdigit (last (numbered base k))"
proof -
  have "last (numbered base k) = last (show_nat k)" by (simp add: numbered_def)
  moreover have "last (show_nat k) \<in> set (show_nat k)" by simp
  ultimately show ?thesis using show_nat_digits [of k] by (simp add: list_all_iff)
qed

lemma report_name_not_reserved: "n \<in> set (report_names used cols) \<Longrightarrow> n \<notin> fst ` set reserved_columns"
proof (induction used cols rule: report_names.induct)
  case (2 used label api cols)
  let ?c = "column_name label api"
  have free: "unused_name used ?c 2 ?c \<notin> fst ` set reserved_columns"
    using unused_name_shape [of used ?c 2 ?c]
  proof
    assume "unused_name used ?c 2 ?c = ?c"
    with column_name_free [of label api] show ?thesis by (auto simp: reserved_columns_def kReserved_def)
  next
    assume "\<exists>k. unused_name used ?c 2 ?c = numbered ?c k"
    then have "isdigit (last (unused_name used ?c 2 ?c))" using last_numbered by auto
    moreover have "\<forall>r \<in> fst ` set reserved_columns. \<not> isdigit (last r)" by code_simp
    ultimately show ?thesis by blast
  qed
  show ?case
  proof (cases "n = unused_name used ?c 2 ?c")
    case False
    with "2.prems" have "n \<in> set (report_names (unused_name used ?c 2 ?c # used) cols)" by (simp add: Let_def)
    then show ?thesis by (rule "2.IH" [OF refl refl])
  qed (use free in simp)
qed simp

text \<open>C20: The columns of a report sample are usable. Whatever labels and API names the report has, empty,
  repeated or shadowing the extension's own, the column names are pairwise different and none is
  one of the four diagnostic columns; every row has one cell per column, of the
  announced type, however many cells the server sent.\<close>

theorem report_columns_distinct:
  assumes "report_bind_of report_id bd = Inr (cols, b)"
  shows "distinct (map fst cols) \<and> length cols = rb_data_cols b + 4 \<and> drop (rb_data_cols b) cols = reserved_columns \<and>
    list_all2 cell_of (report_cells b vals) (map snd cols)"
proof -
  from assms obtain cs where cols: "cols = map (\<lambda>n. (n, VARCHAR)) (report_names [] cs) @ reserved_columns"
    and n: "rb_data_cols b = length cs"
    by (auto simp: report_bind_of_def Let_def split: if_splits prod.splits)
  have "distinct (map fst reserved_columns)" by code_simp
  then have "distinct (map fst cols)"
    using report_names_distinct [of "[]" cs] report_name_not_reserved [of _ "[]" cs] by (auto simp: cols o_def)
  moreover have "list_all2 cell_of (map (\<lambda>c. CVarchar (f c)) [0..<length cs]) (map snd (map (\<lambda>n. (n, VARCHAR)) (report_names [] cs)))" for f
    by (simp add: list_all2_conv_all_nth)
  ultimately show ?thesis
    by (simp add: cols n report_cells_def list_all2_append) (simp add: reserved_columns_def)
qed

definition sample_report :: string where
  "sample_report = print_json (JObj [(''reportMetadata'', JObj [(''detailColumns'', JArr [JStr ''A'', JStr ''B'', JStr ''__sf_report_x''])]),
     (''factMap'', JObj [(''T!T'', JObj [(''rows'', JArr [])])]),
     (''reportExtendedMetadata'', JObj [(''detailColumnInfo'', JObj [(''A'', JObj [(''label'', JStr ''Name'')]), (''B'', JObj [(''label'', JStr ''Name'')])])])])"

theorem report_columns_distinct_witness:
  "case report_bind_of ''00O'' sample_report of
     Inl e \<Rightarrow> False | Inr (cols, b) \<Rightarrow> map fst (take 3 cols) = [''Name'', ''Name_2'', ''col___sf_report_x''] \<and> distinct (map fst cols)"
proof -
  have "case report_bind_of ''00O'' sample_report of Inl e \<Rightarrow> False | Inr (cols, b) \<Rightarrow>
     map fst (take 3 cols) = [''Name'', ''Name_2'', ''col___sf_report_x'']" by code_simp
  then obtain cols b where r: "report_bind_of ''00O'' sample_report = Inr (cols, b)"
    and n: "map fst (take 3 cols) = [''Name'', ''Name_2'', ''col___sf_report_x'']" by (auto split: sum.splits)
  from report_columns_distinct [OF r] n show ?thesis unfolding r by simp
qed

text \<open>The prefix itself is not kept free: a repeated column called \<^verbatim>\<open>__sf_report\<close> is numbered into it.\<close>

lemma numbered_into_prefix:
  "report_names [] [(''__sf_report'', ''A''), (''__sf_report'', ''B'')] = [''__sf_report'', ''__sf_report_2'']"
  by code_simp

section \<open>Pieces of the translation\<close>

record ReportFilter =
  rf_field :: string
  rf_op :: string
  rf_value :: string

definition SafeOperator :: "string \<Rightarrow> (string \<times> bool) option" where
  "SafeOperator op =
     (if op = ''equals'' then Some (''='', False)
      else if op = ''notEqual'' then Some (''!='', False)
      else if op = ''lessThan'' then Some (''<'', False)
      else if op = ''greaterThan'' then Some (''>'', False)
      else if op = ''contains'' then Some (''LIKE'', True)
      else None)"

fun soql_str_loop :: "string \<Rightarrow> string" where
  "soql_str_loop [] = [SQ]"
| "soql_str_loop (c # s) = (if c = BSL \<or> c = SQ then BSL # c # soql_str_loop s else c # soql_str_loop s)"

definition SoqlStr :: "string \<Rightarrow> string" where
  "SoqlStr s = SQ # soql_str_loop s"

fun numeric_loop :: "bool \<Rightarrow> bool \<Rightarrow> string \<Rightarrow> bool" where
  "numeric_loop digit dot [] = digit"
| "numeric_loop digit dot (c # s) =
     (if isdigit c then numeric_loop True dot s
      else if c = CHR ''.'' \<and> \<not> dot then numeric_loop digit True s
      else False)"

definition IsNumericLiteral :: "string \<Rightarrow> bool" where
  "IsNumericLiteral s =
     (case s of
        [] \<Rightarrow> False
      | c # r \<Rightarrow> numeric_loop False False (if c = CHR ''-'' \<or> c = CHR ''+'' then r else s))"

definition IsAmbiguousLiteral :: "string_util \<Rightarrow> string \<Rightarrow> bool" where
  "IsAmbiguousLiteral D v =
     (let l = su_Lower D v in
      l = ''true'' \<or> l = ''false'' \<or> l = ''null'' \<or>
      length v \<ge> 8 \<and> v ! 4 = CHR ''-'' \<and> isdigit (v ! 0) \<and> isdigit (v ! 1) \<and> isdigit (v ! 2) \<and> isdigit (v ! 3))"

definition valid_seg :: "string \<Rightarrow> bool" where
  "valid_seg seg = (case seg of [] \<Rightarrow> False | c0 # _ \<Rightarrow>
     (isupper c0 \<or> islower c0) \<and> list_all (\<lambda>c. isupper c \<or> islower c \<or> isdigit c \<or> c = CHR ''_'') seg)"

fun safe_id_loop :: "string \<Rightarrow> string \<Rightarrow> bool" where
  "safe_id_loop seg [] = valid_seg seg"
| "safe_id_loop seg (c # s) = (if c = CHR ''.'' then valid_seg seg \<and> safe_id_loop [] s else safe_id_loop (seg @ [c]) s)"

definition IsSafeIdentifier :: "string \<Rightarrow> bool" where
  "IsSafeIdentifier s = (s \<noteq> [] \<and> safe_id_loop [] s)"

fun blank_tokens :: "string \<Rightarrow> string \<Rightarrow> string list" where
  "blank_tokens t [] = (if t = [] then [] else [t])"
| "blank_tokens t (c # s) =
     (if c = CHR '' '' \<or> c = TAB then (if t = [] then blank_tokens [] s else t # blank_tokens [] s)
      else blank_tokens (t @ [c]) s)"

definition index_token :: "nat \<Rightarrow> string \<Rightarrow> bool" where
  "index_token nfilters tok \<longleftrightarrow> list_all isdigit tok \<and>
     (case stoi tok of None \<Rightarrow> False | Some i \<Rightarrow> 1 \<le> i \<and> nat i \<le> nfilters)"

fun conjunction_tokens :: "string_util \<Rightarrow> nat \<Rightarrow> bool \<Rightarrow> string list \<Rightarrow> bool" where
  "conjunction_tokens D nfilters even_pos [] = True"
| "conjunction_tokens D nfilters even_pos (tok # toks) =
     ((if even_pos then index_token nfilters tok else su_CIEquals D tok ''AND'') \<and> conjunction_tokens D nfilters (\<not> even_pos) toks)"

definition BooleanFilterAndOnly :: "string_util \<Rightarrow> string \<Rightarrow> nat \<Rightarrow> bool" where
  "BooleanFilterAndOnly D bf nfilters =
     (bf = [] \<or> (let toks = blank_tokens [] bf in toks \<noteq> [] \<and> odd (length toks) \<and> conjunction_tokens D nfilters True toks))"

definition report_type_objects :: "(string \<times> string) list" where
  "report_type_objects = [(''ContactList'', ''Contact''), (''AccountList'', ''Account''), (''OpportunityList'', ''Opportunity'')]"

definition BuiltinReportTypeObject :: "string_util \<Rightarrow> string \<Rightarrow> string" where
  "BuiltinReportTypeObject D report_type =
     (case find (\<lambda>m. su_CIEquals D report_type (fst m)) report_type_objects of Some m \<Rightarrow> snd m | None \<Rightarrow> [])"

text \<open>The first segment of a dotted name, if it has one and it is not empty.\<close>

definition dotted_prefix :: "string \<Rightarrow> string option" where
  "dotted_prefix tok = (case str_find tok ''.'' of Some d \<Rightarrow> if d > 0 then Some (take d tok) else None | None \<Rightarrow> None)"

definition add_prefix :: "string \<Rightarrow> string list \<Rightarrow> string list" where
  "add_prefix tok ps = (case dotted_prefix tok of Some p \<Rightarrow> List.insert p ps | None \<Rightarrow> ps)"

definition member_prefix :: "string \<Rightarrow> string list \<Rightarrow> string list" where
  "member_prefix memb ps =
     (case str_find memb (quoted ''fullyQualifiedName'') of
        None \<Rightarrow> ps
      | Some fqn \<Rightarrow>
          if str_find_at memb '':'' fqn = None then ps
          else (case GetValue memb ''fullyQualifiedName'' of (v, found, is_null) \<Rightarrow>
                if found \<and> \<not> is_null then add_prefix v ps else ps))"

text \<open>The walk over the members of the columns object, on the text from the position \<^verbatim>\<open>i\<close> on.\<close>

function member_loop :: "string \<Rightarrow> string list \<Rightarrow> string list" where
  "member_loop s ps =
     (case str_find s [DQ] of
        None \<Rightarrow> ps
      | Some key_open \<Rightarrow>
          (case str_find_at s [DQ] (key_open + 1) of
             None \<Rightarrow> ps
           | Some key_close \<Rightarrow>
               (case (str_find_at s ''{'' key_close, str_find_at s '','' key_close) of
                  (None, None) \<Rightarrow> ps
                | (None, Some comma) \<Rightarrow> member_loop (drop (comma + 1) s) ps
                | (Some brace, Some comma) \<Rightarrow>
                    if comma < brace then member_loop (drop (comma + 1) s) ps
                    else (let n = brace_span 0 (drop brace s) in
                          member_loop (drop (brace + n) s) (member_prefix (take n (drop brace s)) ps))
                | (Some brace, None) \<Rightarrow>
                    (let n = brace_span 0 (drop brace s) in
                     member_loop (drop (brace + n) s) (member_prefix (take n (drop brace s)) ps)))))"
  by pat_completeness auto

lemma str_find_at_less: "str_find_at s [c] i = Some j \<Longrightarrow> j < length s"
  by (auto simp: str_find_at_def dest!: str_find_SomeD split: if_splits)

lemma brace_span_pos: "i < length s \<Longrightarrow> 0 < brace_span d (drop i s)"
  by (cases "drop i s") auto

lemma member_loop_shorter:
  "Some j = str_find_at s [c] i \<Longrightarrow> length s - (j + brace_span d (drop j s)) < length s"
  "Some j = str_find_at s [c] i \<Longrightarrow> length s - Suc j < length s"
  using str_find_at_less [of s c i j] brace_span_pos [of j s d] by auto

termination member_loop
proof (relation "measure (length \<circ> fst)", goal_cases)
  case 1
  show ?case by simp
qed (auto simp: member_loop_shorter)

declare member_loop.simps [simp del]

definition sole :: "string list \<Rightarrow> string" where
  "sole ps = (case ps of [p] \<Rightarrow> p | _ \<Rightarrow> [])"

definition FirstCategoryUniqueObject :: "string \<Rightarrow> string" where
  "FirstCategoryUniqueObject bd =
     (case GetObjectArray bd ''categories'' of
        [] \<Rightarrow> []
      | c # _ \<Rightarrow> let columns_json = ExtractObject c ''columns'' in
          if columns_json = [] then [] else sole (member_loop columns_json []))"

definition DominantColumnPrefix :: "string list \<Rightarrow> ReportFilter list \<Rightarrow> string" where
  "DominantColumnPrefix columns filters = sole (fold add_prefix (columns @ map rf_field filters) [])"

definition token_entry :: "string_util \<Rightarrow> string \<Rightarrow> (string \<times> string \<times> string) option" where
  "token_entry D e =
     (case str_find e '':'' of
        None \<Rightarrow> None
      | Some colon \<Rightarrow>
          (case str_find_at e ''='' colon of
             None \<Rightarrow> None
           | Some eq \<Rightarrow>
               if eq \<le> colon + 1 then None
               else Some (Trimmed D (take colon e), Trimmed D (take (eq - colon - 1) (drop (colon + 1) e)), Trimmed D (drop (eq + 1) e))))"

definition ResolveReportTokenCandidate :: "string_util \<Rightarrow> client_context \<Rightarrow> string \<Rightarrow> string \<Rightarrow> string" where
  "ResolveReportTokenCandidate D C base token =
     (case TryGetCurrentSetting C ''sf_mock_report_token_map'' of
        None \<Rightarrow> []
      | Some v \<Rightarrow>
          if v_IsNull v \<or> v_ToString v = [] then []
          else (case find (\<lambda>(e_obj, e_tok, e_field). su_CIEquals D base e_obj \<and> su_CIEquals D token e_tok)
                       (List.map_filter (token_entry D) (su_Split D (v_ToString v) (CHR '';''))) of
                  Some (e_obj, e_tok, e_field) \<Rightarrow> e_field
                | None \<Rightarrow> []))"

end
