(* ===== verification/SF_ReportSoql.thy ===== *)
theory SF_ReportSoql
  imports SF_Report
begin

text \<open>
  \<^verbatim>\<open>salesforce_report_soql\<close> (\<^verbatim>\<open>salesforce_report.cpp\<close>): the translation of a report into a candidate query. Its steps
  work on one record, the bind data with the local variables of \<^verbatim>\<open>ReportSoqlBind\<close>.
\<close>

section \<open>State\<close>

record ReportSoqlBindData =
  rq_report_id :: string
  rq_report_name :: string
  rq_report_type :: string
  rq_base_object :: string
  rq_columns :: "string list"
  rq_filters :: "ReportFilter list"
  rq_soql :: string
  rq_translatable :: bool
  rq_caveats :: string
  rq_resolved_by :: string
  rq_blocked_by :: string
  rq_unresolved_columns :: "string list"
  rq_unresolved_filters :: "string list"

record report_work =
  wk_bind :: ReportSoqlBindData
  wk_caveats :: "string list"
  wk_wildcard :: bool
  wk_fields :: "string list"
  wk_clauses :: "string list"

definition block_reasons :: "string list" where
  "block_reasons = [''report_shape'', ''cross_filter'', ''base_object'', ''projected_field'', ''relationship'', ''filter_field'',
     ''filterability'', ''operator'', ''literal'', ''boolean_filter'']"

definition block_rank :: "string \<Rightarrow> int" where
  "block_rank r =
     (if r = ''report_shape'' then 1 else if r = ''cross_filter'' then 2 else if r = ''base_object'' then 3
      else if r = ''projected_field'' then 4 else if r = ''relationship'' then 5 else if r = ''filter_field'' then 6
      else if r = ''filterability'' then 7 else if r = ''operator'' then 8 else if r = ''literal'' then 9
      else if r = ''boolean_filter'' then 10 else 99)"

definition set_block :: "string \<Rightarrow> ReportSoqlBindData \<Rightarrow> ReportSoqlBindData" where
  "set_block reason b = b \<lparr> rq_translatable := False,
     rq_blocked_by := (if rq_blocked_by b = [] \<or> block_rank reason < block_rank (rq_blocked_by b) then reason else rq_blocked_by b) \<rparr>"

definition on_bind :: "(ReportSoqlBindData \<Rightarrow> ReportSoqlBindData) \<Rightarrow> report_work \<Rightarrow> report_work" where
  "on_bind f w = w \<lparr> wk_bind := f (wk_bind w) \<rparr>"

definition caveat :: "string \<Rightarrow> report_work \<Rightarrow> report_work" where
  "caveat c w = w \<lparr> wk_caveats := wk_caveats w @ [c] \<rparr>"

text \<open>The two lines most failures share: a block and a caveat.\<close>

definition blocked :: "string \<Rightarrow> string \<Rightarrow> report_work \<Rightarrow> report_work" where
  "blocked reason c w = caveat c (on_bind (set_block reason) w)"

definition quote_text :: "string \<Rightarrow> string" where
  "quote_text s = [SQ] @ s @ [SQ]"

section \<open>What the report says\<close>

definition report_filter_of :: "string \<Rightarrow> ReportFilter" where
  "report_filter_of f = \<lparr> rf_field = GetString f ''column'', rf_op = GetString f ''operator'', rf_value = GetString f ''value'' \<rparr>"

definition ingredients :: "string \<Rightarrow> string \<Rightarrow> ReportSoqlBindData" where
  "ingredients report_id metadata =
     \<lparr> rq_report_id = report_id, rq_report_name = GetString metadata ''name'',
       rq_report_type = GetString (ExtractObject metadata ''reportType'') ''type'', rq_base_object = [],
       rq_columns = GetStringArray metadata ''detailColumns'', rq_filters = map report_filter_of (GetObjectArray metadata ''reportFilters''),
       rq_soql = [], rq_translatable = True, rq_caveats = [], rq_resolved_by = ''unresolved'', rq_blocked_by = [],
       rq_unresolved_columns = [], rq_unresolved_filters = [] \<rparr>"

definition check_shape :: "string_util \<Rightarrow> string \<Rightarrow> report_work \<Rightarrow> report_work" where
  "check_shape D metadata w =
     (let format = GetString metadata ''reportFormat'';
          w1 = (if su_CIEquals D format ''TABULAR'' then w
                else blocked ''report_shape'' (''report format '' @ quote_text format @ '' is not translatable in this cut (summary/matrix and ''
                       @ ''grouped/aggregated reports are unsupported)'') w)
      in if GetObjectArray metadata ''crossFilters'' = [] then w1
         else blocked ''cross_filter'' (''report has cross filters (semi-/anti-join) which are not '' @ ''supported in this cut'') w1)"

section \<open>The base object\<close>

type_synonym base_candidate = "string \<times> string"

definition base_candidates :: "string_util \<Rightarrow> string \<Rightarrow> ReportSoqlBindData \<Rightarrow> base_candidate list" where
  "base_candidates D bd b =
     (let rt = rq_report_type b in
      (case str_rfind rt (CHR ''$'') of
         Some dollar \<Rightarrow> [(drop (dollar + 1) rt, ''custom_entity_suffix'')]
       | None \<Rightarrow>
           (let meta_obj = FirstCategoryUniqueObject bd; mapped = BuiltinReportTypeObject D rt in
            (if meta_obj = [] then [] else [(meta_obj, ''report_type_metadata'')])
            @ (if mapped = [] then [] else [(mapped, ''builtin_report_type_map'')])))
      @ (let pfx = DominantColumnPrefix (rq_columns b) (rq_filters b) in if pfx = [] then [] else [(pfx, ''column_prefix'')]))"

definition first_safe :: "string \<Rightarrow> base_candidate list \<Rightarrow> string" where
  "first_safe rt cands = (case find (\<lambda>c. IsSafeIdentifier (fst c)) cands of Some c \<Rightarrow> fst c | None \<Rightarrow> rt)"

fun pick_base :: "'c external \<Rightarrow> base_candidate list \<Rightarrow> ('c, base_candidate option) eng" where
  "pick_base X [] = ret None"
| "pick_base X (c # cs) =
     (if IsSafeIdentifier (fst c)
      then bnd (IsQueryable X (fst c)) (\<lambda>q. if q then ret (Some c) else pick_base X cs)
      else pick_base X cs)"

definition base_label :: "string \<Rightarrow> string" where
  "base_label by_s =
     (if by_s = ''custom_entity_suffix'' then ''CustomEntity suffix (custom_entity_suffix)''
      else if by_s = ''builtin_report_type_map'' then ''builtin report type map (builtin_report_type_map)''
      else ''column prefix (column_prefix, low confidence)'')"

definition accept_base :: "base_candidate \<Rightarrow> report_work \<Rightarrow> report_work" where
  "accept_base c w =
     (let rt = rq_report_type (wk_bind w);
          w1 = caveat (''base object resolved from '' @ base_label (snd c) @ '': '' @ quote_text rt @ '' -> '' @ quote_text (fst c))
                 (on_bind (\<lambda>b. b \<lparr> rq_base_object := fst c,
                    rq_resolved_by := (if snd c = ''column_prefix'' then ''column_prefix_hint'' else snd c) \<rparr>) w)
      in if snd c = ''column_prefix'' then
           blocked ''base_object'' (''base object inferred from column prefix only; '' @ ''not enough to guarantee the report root object'') w1
         else w1)"

text \<open>The validated base object (none when it was not validated), and the work so far.\<close>

definition resolve_base ::
  "'c external \<Rightarrow> string \<Rightarrow> report_work \<Rightarrow> ('c, string option \<times> report_work) eng" where
  "resolve_base X bd w =
     (let cands = base_candidates (x_su X) bd (wk_bind w); rt = rq_report_type (wk_bind w);
          w1 = on_bind (\<lambda>b. b \<lparr> rq_base_object := first_safe rt cands \<rparr>) w in
      if \<not> rq_translatable (wk_bind w1) then ret (None, w1)
      else if cands = [] then ret (None, blocked ''base_object'' (''could not derive a base object from report type '' @ quote_text rt) w1)
      else bnd (catch_all (bnd (pick_base X cands) (\<lambda>r. ret (Some r))) None) (\<lambda>got.
        ret (case got of
               None \<Rightarrow> (None, blocked ''base_object'' (''could not validate the base object against the org '' @ ''describe'') w1)
             | Some None \<Rightarrow> (None, blocked ''base_object'' (''base object could not be resolved to a queryable ''
                               @ ''object in Describe Global (report type '' @ quote_text rt @ '')'') w1)
             | Some (Some c) \<Rightarrow> (Some (fst c), accept_base c w1))))"

section \<open>Fields\<close>

text \<open>
  A token to a field: the text for the query, whether it can be filtered and the related
  object it is on (empty for the base), if it resolves; and whether a relationship was tried.
\<close>

definition resolve_field ::
  "client_context \<Rightarrow> 'c external \<Rightarrow> string \<Rightarrow> string \<Rightarrow> ('c, (string \<times> bool \<times> string) option \<times> bool) eng" where
  "resolve_field C X base token =
     (case str_find token ''.'' of
        None \<Rightarrow>
          bnd (ResolveField X base token) (\<lambda>r.
          case r of
            Some (out, fl) \<Rightarrow> ret (Some (out, fl, []), False)
          | None \<Rightarrow>
              let cand = ResolveReportTokenCandidate (x_su X) C base token in
              if cand = [] then ret (None, False)
              else bnd (ResolveField X base cand) (\<lambda>r2. ret (map_option (\<lambda>(out, fl). (out, fl, [])) r2, False)))
      | Some d \<Rightarrow>
          let pre = take d token; rest = drop (d + 1) token; rel = (\<not> su_CIEquals (x_su X) pre base) in
          if str_find rest ''.'' \<noteq> None then ret (None, rel)
          else if \<not> rel then bnd (ResolveField X base rest) (\<lambda>r. ret (map_option (\<lambda>(out, fl). (out, fl, [])) r, rel))
          else bnd (ResolveRelationship X base pre) (\<lambda>rr.
               case rr of
                 None \<Rightarrow> ret (None, rel)
               | Some (target, real_rel) \<Rightarrow>
                   bnd (ResolveField X target rest) (\<lambda>r.
                   ret (map_option (\<lambda>(real, fl). (real_rel @ ''.'' @ real, fl, target)) r, rel))))"

definition unresolved_column :: "string \<Rightarrow> string \<Rightarrow> bool \<Rightarrow> report_work \<Rightarrow> report_work" where
  "unresolved_column base c was_rel w =
     caveat (''column '' @ quote_text c @ '' does not resolve to a field on '' @ quote_text base)
       (on_bind (\<lambda>b. (set_block (if was_rel then ''relationship'' else ''projected_field'') b)
          \<lparr> rq_unresolved_columns := rq_unresolved_columns b @ [c] \<rparr>) w)"

fun project_columns :: "client_context \<Rightarrow> 'c external \<Rightarrow> string \<Rightarrow> string list \<Rightarrow> report_work \<Rightarrow> ('c, report_work) eng" where
  "project_columns C X base [] w = ret w"
| "project_columns C X base (c # cs) w =
     bnd (resolve_field C X base c) (\<lambda>(r, was_rel).
     project_columns C X base cs
       (case r of
          None \<Rightarrow> unresolved_column base c was_rel w
        | Some (f, fl, rel_obj) \<Rightarrow> w \<lparr> wk_fields := wk_fields w @ [f] \<rparr>))"

definition check_columns :: "report_work \<Rightarrow> report_work" where
  "check_columns w =
     (if wk_fields w = [] \<and> rq_columns (wk_bind w) = []
      then blocked ''projected_field'' ''report has no projectable columns'' w else w)"

definition unresolved_filter :: "string \<Rightarrow> string \<Rightarrow> bool \<Rightarrow> report_work \<Rightarrow> report_work" where
  "unresolved_filter base c was_rel w =
     caveat (''filter field '' @ quote_text c @ '' does not resolve to a field on '' @ quote_text base)
       (on_bind (\<lambda>b. (set_block (if was_rel then ''relationship'' else ''filter_field'') b)
          \<lparr> rq_unresolved_filters := rq_unresolved_filters b @ [c] \<rparr>) w)"

definition add_clause :: "string \<Rightarrow> report_work \<Rightarrow> report_work" where
  "add_clause c w = w \<lparr> wk_clauses := wk_clauses w @ [c] \<rparr>"

text \<open>A filter whose field was resolved.\<close>

definition filter_clause ::
  "string_util \<Rightarrow> string \<Rightarrow> ReportFilter \<Rightarrow> string \<times> bool \<Rightarrow> string \<times> bool \<times> string \<Rightarrow> report_work \<Rightarrow> report_work" where
  "filter_clause D base f op out w =
     (case (op, out) of ((soql_op, is_like), (fld, fl, rel_obj)) \<Rightarrow>
      if \<not> fl then blocked ''filterability''
        (''filter field '' @ quote_text (rf_field f) @ (if rel_obj \<noteq> [] then '' is not filterable on related object '' @ quote_text rel_obj
           else '' is not filterable on '' @ quote_text base)) w
      else if is_like then (add_clause (fld @ '' LIKE '' @ SoqlStr (''%'' @ rf_value f @ ''%'')) w) \<lparr> wk_wildcard := True \<rparr>
      else if IsNumericLiteral (rf_value f) then add_clause (fld @ '' '' @ soql_op @ '' '' @ rf_value f) w
      else if IsAmbiguousLiteral D (rf_value f) then blocked ''literal''
        (''filter value '' @ quote_text (rf_value f) @ '' (date/boolean/null) is not auto-translated; write '' @ ''the SOQL literal manually'') w
      else add_clause (fld @ '' '' @ soql_op @ '' '' @ SoqlStr (rf_value f)) w)"

fun translate_filters ::
  "client_context \<Rightarrow> 'c external \<Rightarrow> string option \<Rightarrow> ReportFilter list \<Rightarrow> report_work \<Rightarrow> ('c, report_work) eng" where
  "translate_filters C X base [] w = ret w"
| "translate_filters C X base (f # fs) w =
     (case SafeOperator (rf_op f) of
        None \<Rightarrow> translate_filters C X base fs (blocked ''operator'' (''unsupported filter operator '' @ quote_text (rf_op f)) w)
      | Some op \<Rightarrow>
          (case base of
             None \<Rightarrow> translate_filters C X base fs w
           | Some ob \<Rightarrow>
               bnd (resolve_field C X ob (rf_field f)) (\<lambda>(r, was_rel).
               translate_filters C X base fs
                 (case r of
                    None \<Rightarrow> unresolved_filter ob (rf_field f) was_rel w
                  | Some out \<Rightarrow> filter_clause (x_su X) ob f op out w))))"

section \<open>The bind\<close>

definition check_logic :: "string_util \<Rightarrow> string \<Rightarrow> report_work \<Rightarrow> report_work" where
  "check_logic D metadata w =
     (let bool_filter = GetString metadata ''reportBooleanFilter'' in
      if BooleanFilterAndOnly D bool_filter (length (rq_filters (wk_bind w))) then w
      else blocked ''boolean_filter'' (''report filter logic '' @ quote_text bool_filter
             @ '' uses OR/NOT/grouping (or an out-of-range index) that '' @ ''is not supported in this cut'') w)"

definition candidate_soql :: "string \<Rightarrow> report_work \<Rightarrow> string" where
  "candidate_soql base w = ''SELECT '' @ sep_by '', '' (wk_fields w) @ '' FROM '' @ base
     @ (if wk_clauses w = [] then [] else '' WHERE '' @ sep_by '' AND '' (wk_clauses w))"

definition finish_report :: "string option \<Rightarrow> report_work \<Rightarrow> ReportSoqlBindData" where
  "finish_report base w =
     (let w1 = (if wk_wildcard w then caveat (''contains was mapped to a broad LIKE '' @ quote_text ''%...%'' @ '' wildcard, ''
                  @ ''which can be slow/non-selective on large objects'') w else w);
          w2 = (if rq_translatable (wk_bind w1) then
                  caveat (''candidate SOQL is best-effort and NOT an equivalence '' @ ''contract: base object and field API names are derived ''
                    @ ''from report metadata '' @ emdash @ '' validate against a '' @ ''salesforce_report() sample before scaling'')
                    (on_bind (\<lambda>b. b \<lparr> rq_soql := candidate_soql (case base of Some ob \<Rightarrow> ob | None \<Rightarrow> []) w1 \<rparr>) w1)
                else w1);
          b = (wk_bind w2) \<lparr> rq_caveats := sep_by ''; '' (wk_caveats w2) \<rparr>
      in b \<lparr> rq_blocked_by := (if rq_translatable b \<or> rq_blocked_by b = [] then ''none'' else rq_blocked_by b) \<rparr>)"

definition translate_report :: "client_context \<Rightarrow> 'c external \<Rightarrow> string \<Rightarrow> string \<Rightarrow> ('c, ReportSoqlBindData) eng" where
  "translate_report C X report_id bd =
     (let metadata = ExtractObject bd ''reportMetadata'';
          w0 = check_shape (x_su X) metadata
                 \<lparr> wk_bind = ingredients report_id metadata, wk_caveats = [], wk_wildcard = False, wk_fields = [], wk_clauses = [] \<rparr> in
      bnd (resolve_base X bd w0) (\<lambda>(base, w1).
      bnd (case base of
             None \<Rightarrow> ret w1
           | Some ob \<Rightarrow> bnd (project_columns C X ob (rq_columns (wk_bind w1)) w1) (\<lambda>w. ret (check_columns w))) (\<lambda>w2.
      bnd (translate_filters C X base (rq_filters (wk_bind w2)) w2) (\<lambda>w3.
      ret (finish_report base (check_logic (x_su X) metadata w3))))))"

text \<open>The report is described with a session of its own, on the catalog's credentials.\<close>

definition own_session :: "SalesforceConfig \<Rightarrow> SalesforceTokenSet \<Rightarrow> ('c, 'a) sess \<Rightarrow> ('c, 'a) eng" where
  "own_session config tok m = (\<lambda>s.
     case m ((ew_world s) \<lparr> w_session := SetToken tok (new_session config) \<rparr>) of (r, w) \<Rightarrow> (r, s \<lparr> ew_world := w \<rparr>))"

definition ReportSoqlBind ::
  "(string \<Rightarrow> attached option) \<Rightarrow> client_context \<Rightarrow> 'c external \<Rightarrow> Value list \<Rightarrow> ('c, ReportSoqlBindData) eng" where
  "ReportSoqlBind A C X args =
     (if length args < 2 then throw (BinderException (''salesforce_report_soql(catalog, report_id) requires the attached ''
        @ ''catalog alias and a report id''))
      else if v_IsNull (args ! 0) \<or> v_IsNull (args ! 1) then throw (BinderException ''salesforce_report_soql: arguments must not be NULL.'')
      else bnd (of_result (GetSalesforceCatalogCredentials A (v_ToString (args ! 0)))) (\<lambda>(config, tok).
           bnd (of_result (GetSalesforceCatalogMetadataEngine A (v_ToString (args ! 0)))) (\<lambda>_.
           bnd (own_session config tok (DescribeReport X (v_ToString (args ! 1)))) (\<lambda>bd.
           translate_report C X (v_ToString (args ! 1)) bd))))"

section \<open>The row\<close>

definition report_soql_schema :: "(string \<times> LogicalType) list" where
  "report_soql_schema = [(''report_id'', VARCHAR), (''report_name'', VARCHAR), (''report_type'', VARCHAR), (''base_object'', VARCHAR),
     (''columns'', LIST VARCHAR), (''filters'', LIST (STRUCT [(''field'', VARCHAR), (''op'', VARCHAR), (''value'', VARCHAR)])),
     (''soql'', VARCHAR), (''translatable'', BOOLEAN), (''caveats'', VARCHAR), (''base_object_resolved_by'', VARCHAR),
     (''translation_status'', VARCHAR), (''blocked_by'', VARCHAR), (''unresolved_columns'', LIST VARCHAR),
     (''unresolved_filters'', LIST VARCHAR), (''confidence'', DOUBLE)]"

definition filter_cell :: "ReportFilter \<Rightarrow> cell" where
  "filter_cell f = CStruct [CVarchar (rf_field f), CVarchar (rf_op f), CVarchar (rf_value f)]"

definition report_soql_cells :: "ReportSoqlBindData \<Rightarrow> cell list" where
  "report_soql_cells b = [CVarchar (rq_report_id b), CVarchar (rq_report_name b), CVarchar (rq_report_type b), CVarchar (rq_base_object b),
     varchar_list (rq_columns b), CList (map filter_cell (rq_filters b)),
     if rq_translatable b then CVarchar (rq_soql b) else CNull, CBoolean (rq_translatable b), CVarchar (rq_caveats b),
     CVarchar (rq_resolved_by b), CVarchar (if rq_translatable b then ''full'' else ''none''), CVarchar (rq_blocked_by b),
     varchar_list (rq_unresolved_columns b), varchar_list (rq_unresolved_filters b),
     CFixed DOUBLE (if rq_translatable b then ''1.0'' else ''0.0'')]"

definition ReportSoqlFunction :: "ReportSoqlBindData \<Rightarrow> bool \<Rightarrow> cell list list \<times> bool" where
  "ReportSoqlFunction b emitted = (if emitted then ([], emitted) else ([report_soql_cells b], True))"

lemma report_soql_cells_typed: "list_all2 cell_of (report_soql_cells b) (map snd report_soql_schema)"
  by (simp add: report_soql_cells_def report_soql_schema_def varchar_list_def filter_cell_def list_all_iff)

section \<open>The verdict, specified\<close>

text \<open>
  What a stable org makes of a token, and from that the reasons a report is not translated for,
  in no particular order.
\<close>

definition spec_field :: "string_util \<Rightarrow> (string \<Rightarrow> SalesforceDescribe option) \<Rightarrow> string \<Rightarrow> string \<Rightarrow> (string \<times> bool) option" where
  "spec_field D described ob tok =
     (case described ob of
        None \<Rightarrow> None
      | Some d \<Rightarrow> map_option (\<lambda>fld. (f_name fld, f_filterable fld)) (first_field D (d_fields d) (token_candidates D tok)))"

definition spec_relationship ::
  "string_util \<Rightarrow> (string \<Rightarrow> SalesforceDescribe option) \<Rightarrow> string list \<Rightarrow> string \<Rightarrow> string \<Rightarrow> (string \<times> string) option" where
  "spec_relationship D described listed ob rel =
     (case described ob of
        None \<Rightarrow> None
      | Some d \<Rightarrow>
          (case relationship_named D (d_fields d) rel of
             None \<Rightarrow> None
           | Some fld \<Rightarrow> (case f_reference_to fld of
               [target] \<Rightarrow> if listed_name D listed target then Some (target, f_relationship_name fld) else None
             | _ \<Rightarrow> None)))"

definition base_field :: "(string \<times> bool) option \<Rightarrow> (string \<times> bool \<times> string) option" where
  "base_field r = map_option (\<lambda>(out, fl). (out, fl, [])) r"

definition field_spec ::
  "string_util \<Rightarrow> client_context \<Rightarrow> (string \<Rightarrow> SalesforceDescribe option) \<Rightarrow> string list \<Rightarrow> string \<Rightarrow> string \<Rightarrow>
     (string \<times> bool \<times> string) option \<times> bool" where
  "field_spec D C described listed base token =
     (case str_find token ''.'' of
        None \<Rightarrow>
          (case spec_field D described base token of
             Some r \<Rightarrow> (base_field (Some r), False)
           | None \<Rightarrow> let cand = ResolveReportTokenCandidate D C base token in
               (if cand = [] then None else base_field (spec_field D described base cand), False))
      | Some i \<Rightarrow>
          let pre = take i token; rest = drop (i + 1) token in
          if str_find rest ''.'' \<noteq> None then (None, \<not> su_CIEquals D pre base)
          else if su_CIEquals D pre base then (base_field (spec_field D described base rest), False)
          else (case spec_relationship D described listed base pre of
                  None \<Rightarrow> None
                | Some (target, real_rel) \<Rightarrow>
                    map_option (\<lambda>(real, fl). (real_rel @ ''.'' @ real, fl, target)) (spec_field D described target rest), True))"

text \<open>One column and one filter, given what their tokens resolve to.\<close>

definition column_step ::
  "string \<Rightarrow> (string \<Rightarrow> (string \<times> bool \<times> string) option \<times> bool) \<Rightarrow> string \<Rightarrow> report_work \<Rightarrow> report_work" where
  "column_step base spec c w =
     (case spec c of
        (None, was_rel) \<Rightarrow> unresolved_column base c was_rel w
      | (Some (f, fl, rel_obj), _) \<Rightarrow> w \<lparr> wk_fields := wk_fields w @ [f] \<rparr>)"

definition filter_step ::
  "string_util \<Rightarrow> string option \<Rightarrow> (string \<Rightarrow> string \<Rightarrow> (string \<times> bool \<times> string) option \<times> bool) \<Rightarrow> ReportFilter \<Rightarrow> report_work \<Rightarrow> report_work" where
  "filter_step D base spec f w =
     (case SafeOperator (rf_op f) of
        None \<Rightarrow> blocked ''operator'' (''unsupported filter operator '' @ quote_text (rf_op f)) w
      | Some op \<Rightarrow>
          (case base of
             None \<Rightarrow> w
           | Some ob \<Rightarrow>
               (case spec ob (rf_field f) of
                  (None, was_rel) \<Rightarrow> unresolved_filter ob (rf_field f) was_rel w
                | (Some out, _) \<Rightarrow> filter_clause D ob f op out w)))"

section \<open>Blocks\<close>

text \<open>The reasons raised so far: the one kept is among them and none has a lower rank.\<close>

definition blocks_ok :: "ReportSoqlBindData \<Rightarrow> string list \<Rightarrow> bool" where
  "blocks_ok b bl \<longleftrightarrow> set bl \<subseteq> set block_reasons \<and> (rq_translatable b \<longleftrightarrow> bl = []) \<and>
     (if bl = [] then rq_blocked_by b = []
      else rq_blocked_by b \<in> set bl \<and> (\<forall>r \<in> set bl. block_rank (rq_blocked_by b) \<le> block_rank r))"

lemma blocks_ok_set_block:
  assumes "blocks_ok b bl" "r \<in> set block_reasons"
  shows "blocks_ok (set_block r b) (bl @ [r])"
proof -
  have "[] \<notin> set block_reasons" by (simp add: block_reasons_def)
  with assms(1) have "bl \<noteq> [] \<Longrightarrow> rq_blocked_by b \<noteq> []" unfolding blocks_ok_def by auto
  then show ?thesis
    using assms unfolding blocks_ok_def set_block_def
    by (cases "bl = []"; cases "block_rank r < block_rank (rq_blocked_by b)") fastforce+
qed

definition frame :: "ReportSoqlBindData \<Rightarrow> string \<times> string \<times> string list \<times> ReportFilter list \<times> string \<times> string" where
  "frame b = (rq_report_type b, rq_base_object b, rq_columns b, rq_filters b, rq_soql b, rq_resolved_by b)"

text \<open>The parts of the work that the steps add to.\<close>

record tally =
  ta_frame :: "string \<times> string \<times> string list \<times> ReportFilter list \<times> string \<times> string"
  ta_blocks :: "string list"
  ta_fields :: "string list"
  ta_clauses :: "string list"

definition tallied :: "report_work \<Rightarrow> tally \<Rightarrow> bool" where
  "tallied w ta \<longleftrightarrow> frame (wk_bind w) = ta_frame ta \<and> blocks_ok (wk_bind w) (ta_blocks ta) \<and>
     wk_fields w = ta_fields ta \<and> wk_clauses w = ta_clauses ta"

lemma tallied_caveat [simp]: "tallied (caveat c w) ta = tallied w ta"
  by (simp add: tallied_def caveat_def)

lemma tallied_wildcard [simp]: "tallied (w \<lparr> wk_wildcard := x \<rparr>) ta = tallied w ta"
  by (simp add: tallied_def)

lemma tallied_block:
  assumes "tallied w ta" "r \<in> set block_reasons" "frame b = frame (wk_bind w)"
    "rq_translatable b = rq_translatable (set_block r (wk_bind w))" "rq_blocked_by b = rq_blocked_by (set_block r (wk_bind w))"
  shows "tallied (w \<lparr> wk_bind := b \<rparr>) (ta \<lparr> ta_blocks := ta_blocks ta @ [r] \<rparr>)"
  using assms blocks_ok_set_block [of "wk_bind w" "ta_blocks ta" r] by (simp add: tallied_def blocks_ok_def)

lemma tallied_steps:
  assumes "tallied w ta"
  shows "r \<in> set block_reasons \<Longrightarrow> tallied (blocked r c w) (ta \<lparr> ta_blocks := ta_blocks ta @ [r] \<rparr>)"
    "tallied (unresolved_column base col was_rel w)
      (ta \<lparr> ta_blocks := ta_blocks ta @ [if was_rel then ''relationship'' else ''projected_field''] \<rparr>)"
    "tallied (unresolved_filter base col was_rel w)
      (ta \<lparr> ta_blocks := ta_blocks ta @ [if was_rel then ''relationship'' else ''filter_field''] \<rparr>)"
    "tallied (add_clause c w) (ta \<lparr> ta_clauses := ta_clauses ta @ [c] \<rparr>)"
    "tallied (w \<lparr> wk_fields := wk_fields w @ [c] \<rparr>) (ta \<lparr> ta_fields := ta_fields ta @ [c] \<rparr>)"
proof -
  show "r \<in> set block_reasons \<Longrightarrow> tallied (blocked r c w) (ta \<lparr> ta_blocks := ta_blocks ta @ [r] \<rparr>)"
    unfolding blocked_def tallied_caveat on_bind_def
    by (rule tallied_block [OF assms]) (simp_all add: frame_def set_block_def)
  show "tallied (unresolved_column base col was_rel w)
      (ta \<lparr> ta_blocks := ta_blocks ta @ [if was_rel then ''relationship'' else ''projected_field''] \<rparr>)"
    unfolding unresolved_column_def tallied_caveat on_bind_def
    by (rule tallied_block [OF assms]) (simp_all add: frame_def set_block_def block_reasons_def)
  show "tallied (unresolved_filter base col was_rel w)
      (ta \<lparr> ta_blocks := ta_blocks ta @ [if was_rel then ''relationship'' else ''filter_field''] \<rparr>)"
    unfolding unresolved_filter_def tallied_caveat on_bind_def
    by (rule tallied_block [OF assms]) (simp_all add: frame_def set_block_def block_reasons_def)
qed (use assms in \<open>simp_all add: tallied_def add_clause_def\<close>)

text \<open>What a column and a filter add.\<close>

definition column_blocks :: "(string \<Rightarrow> (string \<times> bool \<times> string) option \<times> bool) \<Rightarrow> string \<Rightarrow> string list" where
  "column_blocks spec c = (case spec c of (None, was_rel) \<Rightarrow> [if was_rel then ''relationship'' else ''projected_field''] | _ \<Rightarrow> [])"

definition column_fields :: "(string \<Rightarrow> (string \<times> bool \<times> string) option \<times> bool) \<Rightarrow> string \<Rightarrow> string list" where
  "column_fields spec c = (case fst (spec c) of None \<Rightarrow> [] | Some (f, _) \<Rightarrow> [f])"

definition filter_blocks ::
  "string_util \<Rightarrow> string option \<Rightarrow> (string \<Rightarrow> string \<Rightarrow> (string \<times> bool \<times> string) option \<times> bool) \<Rightarrow> ReportFilter \<Rightarrow> string list" where
  "filter_blocks D base spec f =
     (case (SafeOperator (rf_op f), base) of
        (None, _) \<Rightarrow> [''operator'']
      | (Some _, None) \<Rightarrow> []
      | (Some (_, is_like), Some ob) \<Rightarrow>
          (case spec ob (rf_field f) of
             (None, was_rel) \<Rightarrow> [if was_rel then ''relationship'' else ''filter_field'']
           | (Some (_, fl, _), _) \<Rightarrow>
               if \<not> fl then [''filterability'']
               else if \<not> is_like \<and> \<not> IsNumericLiteral (rf_value f) \<and> IsAmbiguousLiteral D (rf_value f) then [''literal''] else []))"

definition filter_texts ::
  "string_util \<Rightarrow> string option \<Rightarrow> (string \<Rightarrow> string \<Rightarrow> (string \<times> bool \<times> string) option \<times> bool) \<Rightarrow> ReportFilter \<Rightarrow> string list" where
  "filter_texts D base spec f =
     (case (SafeOperator (rf_op f), base) of
        (Some (soql_op, is_like), Some ob) \<Rightarrow>
          (case fst (spec ob (rf_field f)) of
             Some (fld, True, _) \<Rightarrow>
               if is_like then [fld @ '' LIKE '' @ SoqlStr (''%'' @ rf_value f @ ''%'')]
               else if IsNumericLiteral (rf_value f) then [fld @ '' '' @ soql_op @ '' '' @ rf_value f]
               else if IsAmbiguousLiteral D (rf_value f) then []
               else [fld @ '' '' @ soql_op @ '' '' @ SoqlStr (rf_value f)]
           | _ \<Rightarrow> [])
      | _ \<Rightarrow> [])"

lemma column_step_tallied:
  assumes "tallied w ta"
  shows "tallied (column_step base spec c w)
    (ta \<lparr> ta_blocks := ta_blocks ta @ column_blocks spec c, ta_fields := ta_fields ta @ column_fields spec c \<rparr>)"
proof (cases "spec c")
  case (Pair r was_rel)
  then show ?thesis
    using tallied_steps [OF assms] by (cases r) (auto simp: column_step_def column_blocks_def column_fields_def)
qed

lemma columns_tallied:
  "tallied w ta \<Longrightarrow> tallied (fold (column_step base spec) cs w)
    (ta \<lparr> ta_blocks := ta_blocks ta @ concat (map (column_blocks spec) cs), ta_fields := ta_fields ta @ concat (map (column_fields spec) cs) \<rparr>)"
proof (induction cs arbitrary: w ta)
  case (Cons c cs)
  from Cons.IH [OF column_step_tallied [OF Cons.prems, of base spec c]] show ?case by simp
qed simp

lemma filter_step_tallied:
  assumes "tallied w ta"
  shows "tallied (filter_step D base spec f w)
    (ta \<lparr> ta_blocks := ta_blocks ta @ filter_blocks D base spec f, ta_clauses := ta_clauses ta @ filter_texts D base spec f \<rparr>)"
proof (cases "SafeOperator (rf_op f)")
  case None
  then show ?thesis
    using tallied_steps(1) [OF assms, of "''operator''"] by (simp add: filter_step_def filter_blocks_def filter_texts_def block_reasons_def)
next
  case (Some op)
  obtain soql_op is_like where op: "op = (soql_op, is_like)" by fastforce
  show ?thesis
  proof (cases base)
    case None
    with Some op assms show ?thesis by (simp add: filter_step_def filter_blocks_def filter_texts_def)
  next
    case ob: (Some ob)
    obtain r was_rel where r: "spec ob (rf_field f) = (r, was_rel)" by fastforce
    show ?thesis
    proof (cases r)
      case None
      with Some op ob r tallied_steps(3) [OF assms, of ob "rf_field f" was_rel] show ?thesis
        by (simp add: filter_step_def filter_blocks_def filter_texts_def)
    next
      case out: (Some out)
      obtain fld fl rel_obj where o: "out = (fld, fl, rel_obj)" using prod_cases3 by blast
      have "tallied (filter_clause D ob f op out w)
        (ta \<lparr> ta_blocks := ta_blocks ta @ filter_blocks D base spec f, ta_clauses := ta_clauses ta @ filter_texts D base spec f \<rparr>)"
        using tallied_steps(1) [OF assms, of "''filterability''"] tallied_steps(1) [OF assms, of "''literal''"] tallied_steps(4) [OF assms]
        by (simp add: filter_clause_def filter_blocks_def filter_texts_def Some op ob r out o block_reasons_def)
      then show ?thesis by (simp add: filter_step_def Some ob r out)
    qed
  qed
qed

lemma filters_tallied:
  "tallied w ta \<Longrightarrow> tallied (fold (filter_step D base spec) fs w)
    (ta \<lparr> ta_blocks := ta_blocks ta @ concat (map (filter_blocks D base spec) fs), ta_clauses := ta_clauses ta @ concat (map (filter_texts D base spec) fs) \<rparr>)"
proof (induction fs arbitrary: w ta)
  case (Cons f fs)
  from Cons.IH [OF filter_step_tallied [OF Cons.prems, of D base spec f]] show ?case by simp
qed simp

section \<open>The verdict\<close>

text \<open>Every reason a report has for not being translated, and the query it has otherwise.\<close>

definition chosen_base :: "string_util \<Rightarrow> string list \<Rightarrow> string \<Rightarrow> base_candidate option" where
  "chosen_base D listed bd =
     find (\<lambda>c. IsSafeIdentifier (fst c) \<and> listed_name D listed (fst c))
       (base_candidates D bd (ingredients [] (ExtractObject bd ''reportMetadata'')))"

definition shape_reasons :: "string_util \<Rightarrow> string \<Rightarrow> string list" where
  "shape_reasons D metadata =
     (if su_CIEquals D (GetString metadata ''reportFormat'') ''TABULAR'' then [] else [''report_shape''])
     @ (if GetObjectArray metadata ''crossFilters'' = [] then [] else [''cross_filter''])"

definition base_reasons :: "base_candidate option \<Rightarrow> string list" where
  "base_reasons c = (case c of None \<Rightarrow> [''base_object''] | Some (_, how) \<Rightarrow> if how = ''column_prefix'' then [''base_object''] else [])"

definition report_reasons ::
  "string_util \<Rightarrow> client_context \<Rightarrow> (string \<Rightarrow> SalesforceDescribe option) \<Rightarrow> string list \<Rightarrow> string \<Rightarrow> string list" where
  "report_reasons D C described listed bd =
     (let metadata = ExtractObject bd ''reportMetadata''; b = ingredients [] metadata; shape = shape_reasons D metadata;
          base = (if shape = [] then chosen_base D listed bd else None); spec = field_spec D C described listed
      in shape @ (if shape = [] then base_reasons base else [])
         @ (case base of
              None \<Rightarrow> []
            | Some (ob, _) \<Rightarrow> concat (map (column_blocks (spec ob)) (rq_columns b)) @ (if rq_columns b = [] then [''projected_field''] else []))
         @ concat (map (filter_blocks D (map_option fst base) spec) (rq_filters b))
         @ (if BooleanFilterAndOnly D (GetString metadata ''reportBooleanFilter'') (length (rq_filters b)) then [] else [''boolean_filter'']))"

definition expected_soql ::
  "string_util \<Rightarrow> client_context \<Rightarrow> (string \<Rightarrow> SalesforceDescribe option) \<Rightarrow> string list \<Rightarrow> string \<Rightarrow> string \<Rightarrow> string" where
  "expected_soql D C described listed bd ob =
     (let b = ingredients [] (ExtractObject bd ''reportMetadata''); spec = field_spec D C described listed;
          clauses = concat (map (filter_texts D (Some ob) spec) (rq_filters b))
      in ''SELECT '' @ sep_by '', '' (concat (map (column_fields (spec ob)) (rq_columns b))) @ '' FROM '' @ ob
         @ (if clauses = [] then [] else '' WHERE '' @ sep_by '' AND '' clauses))"

lemma tallied_check:
  assumes "tallied w ta" "r \<in> set block_reasons"
  shows "tallied (if ok then w else blocked r c w) (ta \<lparr> ta_blocks := ta_blocks ta @ (if ok then [] else [r]) \<rparr>)"
  using assms(1) tallied_steps(1) [OF assms] by (cases ok) (simp_all add: tallied_def)

lemma shape_tallied:
  assumes "tallied w ta"
  shows "tallied (check_shape D metadata w) (ta \<lparr> ta_blocks := ta_blocks ta @ shape_reasons D metadata \<rparr>)"
proof -
  let ?w = "if su_CIEquals D (GetString metadata ''reportFormat'') ''TABULAR'' then w
      else blocked ''report_shape'' (''report format '' @ quote_text (GetString metadata ''reportFormat'') @ '' is not translatable in this cut (summary/matrix and ''
        @ ''grouped/aggregated reports are unsupported)'') w"
  have "''report_shape'' \<in> set block_reasons" "''cross_filter'' \<in> set block_reasons" by (simp_all add: block_reasons_def)
  from tallied_check [OF tallied_check [OF assms this(1)] this(2)] show ?thesis
    unfolding check_shape_def shape_reasons_def Let_def append_assoc by simp
qed

lemma logic_tallied:
  assumes "tallied w ta" "rq_filters (wk_bind w) = fs"
  shows "tallied (check_logic D metadata w) (ta \<lparr> ta_blocks := ta_blocks ta @
    (if BooleanFilterAndOnly D (GetString metadata ''reportBooleanFilter'') (length fs) then [] else [''boolean_filter'']) \<rparr>)"
  unfolding check_logic_def Let_def assms(2) by (rule tallied_check [OF assms(1)]) (simp add: block_reasons_def)

lemma columns_checked_tallied:
  assumes "tallied w ta" "rq_columns (wk_bind w) = cs" "cs = [] \<Longrightarrow> wk_fields w = []"
  shows "tallied (check_columns w) (ta \<lparr> ta_blocks := ta_blocks ta @ (if cs = [] then [''projected_field''] else []) \<rparr>)"
  using assms tallied_steps(1) [OF assms(1), of "''projected_field''"] by (cases "cs = []") (simp_all add: check_columns_def block_reasons_def tallied_def)

lemma finish_report_verdict:
  assumes "tallied w ta" "ta_frame ta = (rt, bo, cs, fs, [], how)"
  shows "(rq_translatable (finish_report base w) \<longleftrightarrow> ta_blocks ta = []) \<and>
    (if ta_blocks ta = []
     then rq_blocked_by (finish_report base w) = ''none'' \<and>
       rq_soql (finish_report base w) = ''SELECT '' @ sep_by '', '' (ta_fields ta) @ '' FROM '' @ (case base of Some ob \<Rightarrow> ob | None \<Rightarrow> [])
         @ (if ta_clauses ta = [] then [] else '' WHERE '' @ sep_by '' AND '' (ta_clauses ta))
     else rq_soql (finish_report base w) = [] \<and> rq_blocked_by (finish_report base w) \<in> set (ta_blocks ta) \<and>
       (\<forall>r \<in> set (ta_blocks ta). block_rank (rq_blocked_by (finish_report base w)) \<le> block_rank r))"
proof -
  have "[] \<notin> set block_reasons" by (simp add: block_reasons_def)
  with assms show ?thesis
    by (auto simp: finish_report_def tallied_def blocks_ok_def frame_def on_bind_def caveat_def candidate_soql_def Let_def)
qed

lemma tallied_frame:
  "tallied w ta \<Longrightarrow> frame b = fr \<Longrightarrow> rq_translatable b = rq_translatable (wk_bind w) \<Longrightarrow> rq_blocked_by b = rq_blocked_by (wk_bind w) \<Longrightarrow>
     tallied (w \<lparr> wk_bind := b \<rparr>) (ta \<lparr> ta_frame := fr \<rparr>)"
  by (simp add: tallied_def blocks_ok_def)

text \<open>What the rest of the bind reads of the ingredients does not change.\<close>

definition reads :: "ReportSoqlBindData \<Rightarrow> string \<times> string list \<times> ReportFilter list \<times> string" where
  "reads b = (rq_report_type b, rq_columns b, rq_filters b, rq_soql b)"

lemma base_candidates_cong: "reads b = reads b' \<Longrightarrow> base_candidates D bd b = base_candidates D bd b'"
  by (simp add: base_candidates_def reads_def)

definition tallied_on :: "ReportSoqlBindData \<Rightarrow> report_work \<Rightarrow> string list \<Rightarrow> string list \<Rightarrow> string list \<Rightarrow> bool" where
  "tallied_on b0 w bl flds cls \<longleftrightarrow> reads (wk_bind w) = reads b0 \<and> blocks_ok (wk_bind w) bl \<and> wk_fields w = flds \<and> wk_clauses w = cls"

lemma tallied_on_iff:
  "tallied_on b0 w bl flds cls \<longleftrightarrow> reads (wk_bind w) = reads b0 \<and>
     tallied w \<lparr> ta_frame = frame (wk_bind w), ta_blocks = bl, ta_fields = flds, ta_clauses = cls \<rparr>"
  by (auto simp: tallied_on_def tallied_def)

lemma reads_of_frame: "frame b = frame b' \<Longrightarrow> reads b = reads b'"
  by (simp add: frame_def reads_def)

text \<open>A step that is tallied and keeps the frame.\<close>

lemma tallied_onI:
  assumes "tallied_on b0 w bl flds cls"
    "\<And>ta. tallied w ta \<Longrightarrow> tallied w' (ta \<lparr> ta_blocks := ta_blocks ta @ bl', ta_fields := ta_fields ta @ flds', ta_clauses := ta_clauses ta @ cls' \<rparr>)"
  shows "tallied_on b0 w' (bl @ bl') (flds @ flds') (cls @ cls')"
proof -
  from assms(1) have w: "reads (wk_bind w) = reads b0"
    "tallied w \<lparr> ta_frame = frame (wk_bind w), ta_blocks = bl, ta_fields = flds, ta_clauses = cls \<rparr>" by (simp_all add: tallied_on_iff)
  from assms(2) [OF w(2)] have "tallied w' \<lparr> ta_frame = frame (wk_bind w), ta_blocks = bl @ bl', ta_fields = flds @ flds', ta_clauses = cls @ cls' \<rparr>" by simp
  with w(1) show ?thesis by (auto simp: tallied_on_def tallied_def dest: reads_of_frame)
qed

lemma blocked_on:
  "tallied_on b0 w bl flds cls \<Longrightarrow> r \<in> set block_reasons \<Longrightarrow> tallied_on b0 (blocked r c w) (bl @ [r]) flds cls"
  using tallied_onI [where w = w and w' = "blocked r c w" and bl' = "[r]" and flds' = "[]" and cls' = "[]"] tallied_steps(1) [of w _ r c] by simp

lemma on_bind_on:
  "tallied_on b0 w bl flds cls \<Longrightarrow> reads (f (wk_bind w)) = reads (wk_bind w) \<Longrightarrow> rq_translatable (f (wk_bind w)) = rq_translatable (wk_bind w) \<Longrightarrow>
     rq_blocked_by (f (wk_bind w)) = rq_blocked_by (wk_bind w) \<Longrightarrow> tallied_on b0 (on_bind f w) bl flds cls"
  by (simp add: tallied_on_def on_bind_def blocks_ok_def)

lemma caveat_on [simp]: "tallied_on b0 (caveat c w) = tallied_on b0 w"
  by (simp add: fun_eq_iff tallied_on_def caveat_def)

lemma accept_base_on:
  assumes "tallied_on b0 w bl flds cls"
  shows "tallied_on b0 (accept_base c w) (bl @ base_reasons (Some c)) flds cls"
proof -
  obtain ob how where c: "c = (ob, how)" by fastforce
  let ?f = "\<lambda>b. b \<lparr> rq_base_object := ob, rq_resolved_by := (if how = ''column_prefix'' then ''column_prefix_hint'' else how) \<rparr>"
  have "tallied_on b0 (on_bind ?f w) bl flds cls" by (rule on_bind_on [OF assms]) (simp_all add: reads_def)
  then have cav: "tallied_on b0 (caveat m (on_bind ?f w)) bl flds cls" for m by simp
  show ?thesis
  proof (cases "how = ''column_prefix''")
    case True
    with blocked_on [OF cav, of "''base_object''"] show ?thesis
      unfolding accept_base_def c Let_def by (simp only: fst_conv snd_conv if_True base_reasons_def option.case prod.case) (simp add: block_reasons_def)
  next
    case False
    with cav show ?thesis unfolding accept_base_def c Let_def by (simp add: base_reasons_def)
  qed
qed

lemma columns_on:
  "tallied_on b0 w bl flds cls \<Longrightarrow> tallied_on b0 (fold (column_step base spec) cs w) (bl @ concat (map (column_blocks spec) cs))
     (flds @ concat (map (column_fields spec) cs)) cls"
  using tallied_onI [where w = w and w' = "fold (column_step base spec) cs w" and bl' = "concat (map (column_blocks spec) cs)"
      and flds' = "concat (map (column_fields spec) cs)" and cls' = "[]"] columns_tallied [of w _ base spec cs] by simp

lemma filters_on:
  "tallied_on b0 w bl flds cls \<Longrightarrow> tallied_on b0 (fold (filter_step D base spec) fs w) (bl @ concat (map (filter_blocks D base spec) fs))
     flds (cls @ concat (map (filter_texts D base spec) fs))"
  using tallied_onI [where w = w and w' = "fold (filter_step D base spec) fs w" and bl' = "concat (map (filter_blocks D base spec) fs)"
      and flds' = "[]" and cls' = "concat (map (filter_texts D base spec) fs)"] filters_tallied [of w _ D base spec fs] by simp

lemma shape_on: "tallied_on b0 w bl flds cls \<Longrightarrow> tallied_on b0 (check_shape D metadata w) (bl @ shape_reasons D metadata) flds cls"
  using tallied_onI [where w = w and w' = "check_shape D metadata w" and bl' = "shape_reasons D metadata" and flds' = "[]" and cls' = "[]"]
    shape_tallied [of w _ D metadata] by simp

lemma logic_on:
  assumes "tallied_on b0 w bl flds cls"
  shows "tallied_on b0 (check_logic D metadata w) (bl @
     (if BooleanFilterAndOnly D (GetString metadata ''reportBooleanFilter'') (length (rq_filters b0)) then [] else [''boolean_filter''])) flds cls"
proof -
  have "rq_filters (wk_bind w) = rq_filters b0" using assms by (simp add: tallied_on_def reads_def)
  from tallied_onI [OF assms, where flds' = "[]" and cls' = "[]"] logic_tallied [OF _ this, of _ D metadata] show ?thesis by simp
qed

lemma columns_checked_on:
  assumes "tallied_on b0 w bl flds cls" "rq_columns b0 = [] \<Longrightarrow> flds = []"
  shows "tallied_on b0 (check_columns w) (bl @ (if rq_columns b0 = [] then [''projected_field''] else [])) flds cls"
proof -
  have "rq_columns (wk_bind w) = rq_columns b0" "rq_columns b0 = [] \<Longrightarrow> wk_fields w = []"
    using assms by (simp_all add: tallied_on_def reads_def)
  from tallied_onI [OF assms(1), where flds' = "[]" and cls' = "[]"] columns_checked_tallied [OF _ this] show ?thesis by simp
qed

lemma finish_report_on:
  assumes "tallied_on b0 w bl flds cls" "rq_soql b0 = []"
  shows "(rq_translatable (finish_report base w) \<longleftrightarrow> bl = []) \<and>
    (if bl = []
     then rq_blocked_by (finish_report base w) = ''none'' \<and>
       rq_soql (finish_report base w) = ''SELECT '' @ sep_by '', '' flds @ '' FROM '' @ (case base of Some ob \<Rightarrow> ob | None \<Rightarrow> [])
         @ (if cls = [] then [] else '' WHERE '' @ sep_by '' AND '' cls)
     else rq_soql (finish_report base w) = [] \<and> rq_blocked_by (finish_report base w) \<in> set bl \<and>
       (\<forall>r \<in> set bl. block_rank (rq_blocked_by (finish_report base w)) \<le> block_rank r))"
proof -
  from assms have t: "tallied w \<lparr> ta_frame = frame (wk_bind w), ta_blocks = bl, ta_fields = flds, ta_clauses = cls \<rparr>"
    and "rq_soql (wk_bind w) = []" by (auto simp: tallied_on_iff reads_def)
  then obtain rt bo cs fs how where "frame (wk_bind w) = (rt, bo, cs, fs, [], how)" by (simp add: frame_def)
  with finish_report_verdict [OF t, of rt bo cs fs how base] show ?thesis by (cases "bl = []") simp_all
qed

lemma chosen_base_SomeD: "chosen_base D listed bd = Some c \<Longrightarrow> IsSafeIdentifier (fst c) \<and> listed_name D listed (fst c)"
  unfolding chosen_base_def by (induction "base_candidates D bd (ingredients [] (ExtractObject bd ''reportMetadata''))") (auto simp: find_Some_iff)

text \<open>Every queryable object can be described.\<close>

definition closed_org :: "string_util \<Rightarrow> (string \<Rightarrow> SalesforceDescribe option) \<Rightarrow> string list \<Rightarrow> bool" where
  "closed_org D described listed \<longleftrightarrow> (\<forall>ob. listed_name D listed ob \<longrightarrow> described ob \<noteq> None)"

context metadata_source
begin

lemma ResolveField_spec:
  "I s \<Longrightarrow> described ob \<noteq> None \<Longrightarrow> \<exists>s'. ResolveField X ob tok s = (Inr (spec_field (x_su X) described ob tok), s') \<and> I s'"
  using ResolveField_run [of s ob _ tok] by (auto simp: spec_field_def)

lemma ResolveRelationship_spec:
  "I s \<Longrightarrow> described ob \<noteq> None \<Longrightarrow>
     \<exists>s'. ResolveRelationship X ob rel s = (Inr (spec_relationship (x_su X) described listed ob rel), s') \<and> I s'"
  using ResolveRelationship_run [of s ob _ rel] by (auto simp: spec_relationship_def)

lemma spec_relationship_listed:
  "spec_relationship (x_su X) described listed ob rel = Some (target, nm) \<Longrightarrow> listed_name (x_su X) listed target"
  by (auto simp: spec_relationship_def split: option.splits list.splits if_splits)

lemma resolve_field_run:
  assumes i: "I s" and base: "described base \<noteq> None" and cl: "closed_org (x_su X) described listed"
  shows "\<exists>s'. resolve_field C X base tok s = (Inr (field_spec (x_su X) C described listed base tok), s') \<and> I s'"
proof (cases "str_find tok ''.''")
  case None
  from ResolveField_spec [OF i base, of tok] obtain s1 where
    s1: "ResolveField X base tok s = (Inr (spec_field (x_su X) described base tok), s1)" "I s1" by blast
  let ?cand = "ResolveReportTokenCandidate (x_su X) C base tok"
  from ResolveField_spec [OF s1(2) base, of ?cand] obtain s2 where
    "ResolveField X base ?cand s1 = (Inr (spec_field (x_su X) described base ?cand), s2)" "I s2" by blast
  with None s1 show ?thesis
    by (cases "spec_field (x_su X) described base tok")
       (auto simp: resolve_field_def field_spec_def base_field_def Let_def bnd_run sfm_run split: prod.splits)
next
  case (Some n)
  let ?pre = "take n tok" and ?rest = "drop (n + 1) tok"
  from ResolveField_spec [OF i base, of ?rest] obtain s1 where
    s1: "ResolveField X base ?rest s = (Inr (spec_field (x_su X) described base ?rest), s1)" "I s1" by blast
  from ResolveRelationship_spec [OF i base, of ?pre] obtain s2 where
    s2: "ResolveRelationship X base ?pre s = (Inr (spec_relationship (x_su X) described listed base ?pre), s2)" "I s2" by blast
  show ?thesis
  proof (cases "str_find ?rest ''.'' \<noteq> None \<or> su_CIEquals (x_su X) ?pre base")
    case True
    with Some s1 i show ?thesis
      by (auto simp: resolve_field_def field_spec_def base_field_def Let_def bnd_run sfm_run)
  next
    case False
    show ?thesis
    proof (cases "spec_relationship (x_su X) described listed base ?pre")
      case None
      with False Some s2 show ?thesis by (auto simp: resolve_field_def field_spec_def Let_def bnd_run sfm_run)
    next
      case rel: (Some tr)
      obtain target nm where tr: "tr = (target, nm)" by fastforce
      from spec_relationship_listed rel tr cl have "described target \<noteq> None" by (auto simp: closed_org_def)
      from ResolveField_spec [OF s2(2) this, of ?rest] obtain s3 where
        "ResolveField X target ?rest s2 = (Inr (spec_field (x_su X) described target ?rest), s3)" "I s3" by blast
      with False Some rel tr s2 show ?thesis by (auto simp: resolve_field_def field_spec_def Let_def bnd_run sfm_run)
    qed
  qed
qed

lemma project_columns_run:
  assumes "I s" "described base \<noteq> None" "closed_org (x_su X) described listed"
  shows "\<exists>s'. project_columns C X base cs w s = (Inr (fold (column_step base (field_spec (x_su X) C described listed base)) cs w), s') \<and> I s'"
  using assms(1)
proof (induction cs arbitrary: s w)
  case (Cons c cs)
  from resolve_field_run [OF Cons.prems assms(2,3)] obtain s1 where
    s1: "resolve_field C X base c s = (Inr (field_spec (x_su X) C described listed base c), s1)" "I s1" by blast
  from Cons.IH [OF s1(2)] s1(1) show ?case
    by (auto simp: bnd_run column_step_def split: prod.splits)
qed (simp add: sfm_run)

lemma translate_filters_run:
  assumes "I s" "\<And>ob. base = Some ob \<Longrightarrow> described ob \<noteq> None" "closed_org (x_su X) described listed"
  shows "\<exists>s'. translate_filters C X base fs w s =
    (Inr (fold (filter_step (x_su X) base (\<lambda>ob. field_spec (x_su X) C described listed ob)) fs w), s') \<and> I s'"
  using assms(1)
proof (induction fs arbitrary: s w)
  case (Cons f fs)
  show ?case
  proof (cases "SafeOperator (rf_op f) = None \<or> base = None")
    case True
    with Cons.IH [OF Cons.prems] show ?thesis by (auto simp: filter_step_def split: option.splits)
  next
    case False
    then obtain op ob where o: "SafeOperator (rf_op f) = Some op" "base = Some ob" by auto
    from resolve_field_run [OF Cons.prems assms(2) [OF o(2)] assms(3)] obtain s1 where
      s1: "resolve_field C X ob (rf_field f) s = (Inr (field_spec (x_su X) C described listed ob (rf_field f)), s1)" "I s1" by blast
    from Cons.IH [OF s1(2)] s1(1) o show ?thesis
      by (auto simp: bnd_run filter_step_def split: prod.splits)
  qed
qed (simp add: sfm_run)

lemma pick_base_run:
  "I s \<Longrightarrow> \<exists>s'. pick_base X cs s = (Inr (find (\<lambda>c. IsSafeIdentifier (fst c) \<and> listed_name (x_su X) listed (fst c)) cs), s') \<and> I s'"
proof (induction cs arbitrary: s)
  case (Cons c cs)
  from IsQueryable_run [OF Cons.prems, of "fst c"] obtain s1 where
    s1: "IsQueryable X (fst c) s = (Inr (listed_name (x_su X) listed (fst c)), s1)" "I s1" by blast
  from Cons.IH [OF Cons.prems] Cons.IH [OF s1(2)] s1 show ?case by (auto simp: bnd_run sfm_run)
qed (simp add: sfm_run)

lemma resolve_base_run:
  assumes "I s" "tallied_on b0 w bl flds cls"
    and picked_def: "picked = find (\<lambda>c. IsSafeIdentifier (fst c) \<and> listed_name (x_su X) listed (fst c)) (base_candidates (x_su X) bd b0)"
  shows "\<exists>w' s'. resolve_base X bd w s = (Inr (if bl = [] then map_option fst picked else None, w'), s') \<and> I s' \<and>
    tallied_on b0 w' (bl @ (if bl = [] then base_reasons picked else [])) flds cls"
proof -
  let ?cands = "base_candidates (x_su X) bd b0"
  have cands: "base_candidates (x_su X) bd (wk_bind w) = ?cands"
    using assms(2) by (intro base_candidates_cong) (simp add: tallied_on_def)
  let ?w = "on_bind (\<lambda>b. b \<lparr> rq_base_object := first_safe (rq_report_type (wk_bind w)) ?cands \<rparr>) w"
  have on: "tallied_on b0 ?w bl flds cls" by (rule on_bind_on [OF assms(2)]) (simp_all add: reads_def)
  then have tr: "rq_translatable (wk_bind ?w) \<longleftrightarrow> bl = []" by (simp add: tallied_on_def blocks_ok_def)
  note bo = blocked_on [OF on, of "''base_object''"]
  show ?thesis
  proof (cases "bl = [] \<and> ?cands \<noteq> []")
    case False
    then show ?thesis
      using assms(1) on bo tr by (auto simp: resolve_base_def cands Let_def sfm_run picked_def base_reasons_def block_reasons_def)
  next
    case True
    from pick_base_run [OF assms(1), of ?cands] obtain s1 where s1: "pick_base X ?cands s = (Inr picked, s1)" "I s1"
      unfolding picked_def by blast
    show ?thesis
    proof (cases picked)
      case None
      with True s1 bo tr show ?thesis
        by (simp add: resolve_base_def cands Let_def bnd_run sfm_run catch_all_run base_reasons_def block_reasons_def)
    next
      case (Some c)
      with True s1 tr accept_base_on [OF on, of c] show ?thesis
        by (simp add: resolve_base_def cands Let_def bnd_run sfm_run catch_all_run)
    qed
  qed
qed

lemma columns_phase_run:
  fixes C :: client_context
  assumes "I s" "closed_org (x_su X) described listed" "tallied_on b0 w bl [] []"
    "\<And>c. base = Some c \<Longrightarrow> described c \<noteq> None"
  defines "spec \<equiv> field_spec (x_su X) C described listed"
  shows "\<exists>w' s'. (case base of None \<Rightarrow> ret w
      | Some ob \<Rightarrow> bnd (project_columns C X ob (rq_columns (wk_bind w)) w) (\<lambda>w. ret (check_columns w))) s = (Inr w', s') \<and> I s' \<and>
    tallied_on b0 w'
      (bl @ (case base of None \<Rightarrow> [] | Some ob \<Rightarrow> concat (map (column_blocks (spec ob)) (rq_columns b0)) @
         (if rq_columns b0 = [] then [''projected_field''] else [])))
      (case base of None \<Rightarrow> [] | Some ob \<Rightarrow> concat (map (column_fields (spec ob)) (rq_columns b0))) []"
proof (cases base)
  case None
  with assms(1,3) show ?thesis by (simp add: sfm_run)
next
  case (Some ob)
  let ?w = "fold (column_step ob (spec ob)) (rq_columns b0) w"
  have cols: "rq_columns (wk_bind w) = rq_columns b0" using assms(3) by (simp add: tallied_on_def reads_def)
  from project_columns_run [OF assms(1) assms(4) [OF Some] assms(2)] obtain s1 where
    "project_columns C X ob (rq_columns b0) w s = (Inr ?w, s1)" "I s1" unfolding spec_def by blast
  moreover have "tallied_on b0 (check_columns ?w) (bl @ concat (map (column_blocks (spec ob)) (rq_columns b0)) @
      (if rq_columns b0 = [] then [''projected_field''] else [])) (concat (map (column_fields (spec ob)) (rq_columns b0))) []"
    using columns_checked_on [OF columns_on [OF assms(3), of ob "spec ob" "rq_columns b0"]] by simp
  ultimately show ?thesis by (simp add: Some cols bnd_run sfm_run)
qed

lemma translate_report_run:
  fixes C :: client_context and bd :: string
  assumes "I s" "closed_org (x_su X) described listed"
  defines "reasons \<equiv> report_reasons (x_su X) C described listed bd" and "picked \<equiv> chosen_base (x_su X) listed bd"
  shows "\<exists>b s'. translate_report C X report_id bd s = (Inr b, s') \<and> I s' \<and> (rq_translatable b \<longleftrightarrow> reasons = []) \<and>
    (if reasons = [] then rq_blocked_by b = ''none'' \<and> picked \<noteq> None \<and>
       rq_soql b = expected_soql (x_su X) C described listed bd (fst (the picked))
     else rq_soql b = [] \<and> rq_blocked_by b \<in> set reasons \<and> (\<forall>r \<in> set reasons. block_rank (rq_blocked_by b) \<le> block_rank r))"
proof -
  let ?md = "ExtractObject bd ''reportMetadata''" and ?D = "x_su X"
  let ?b0 = "ingredients [] ?md" and ?spec = "field_spec ?D C described listed" and ?shape = "shape_reasons ?D ?md"
  let ?w0 = "\<lparr> wk_bind = ingredients report_id ?md, wk_caveats = [], wk_wildcard = False, wk_fields = [], wk_clauses = [] \<rparr>"
  have "tallied_on ?b0 ?w0 [] [] []" by (simp add: tallied_on_def reads_def ingredients_def blocks_ok_def)
  then have 0: "tallied_on ?b0 (check_shape ?D ?md ?w0) ?shape [] []" using shape_on [of ?b0 ?w0 "[]"] by simp
  let ?base = "if ?shape = [] then map_option fst picked else None"
  from resolve_base_run [OF assms(1) 0, of picked bd] obtain w1 s1 where
    1: "resolve_base X bd (check_shape ?D ?md ?w0) s = (Inr (?base, w1), s1)" "I s1"
      "tallied_on ?b0 w1 (?shape @ (if ?shape = [] then base_reasons picked else [])) [] []"
    unfolding picked_def chosen_base_def by blast
  have base: "described c \<noteq> None" if "?base = Some c" for c
    using that assms(2) chosen_base_SomeD [of ?D listed bd] unfolding picked_def closed_org_def by (auto split: if_splits)
  from columns_phase_run [where base = "?base" and C = C, OF 1(2) assms(2) 1(3) base] obtain w2 s2 where
    2: "(case ?base of None \<Rightarrow> ret w1
      | Some ob \<Rightarrow> bnd (project_columns C X ob (rq_columns (wk_bind w1)) w1) (\<lambda>w. ret (check_columns w))) s1 = (Inr w2, s2)" "I s2"
      "tallied_on ?b0 w2 ((?shape @ (if ?shape = [] then base_reasons picked else [])) @
         (case ?base of None \<Rightarrow> [] | Some ob \<Rightarrow> concat (map (column_blocks (?spec ob)) (rq_columns ?b0)) @
            (if rq_columns ?b0 = [] then [''projected_field''] else [])))
         (case ?base of None \<Rightarrow> [] | Some ob \<Rightarrow> concat (map (column_fields (?spec ob)) (rq_columns ?b0))) []" by blast
  have fs: "rq_filters (wk_bind w2) = rq_filters ?b0" using 2(3) by (simp add: tallied_on_def reads_def)
  let ?w3 = "fold (filter_step ?D ?base ?spec) (rq_filters ?b0) w2"
  from translate_filters_run [OF 2(2) base assms(2)] obtain s3 where
    3: "translate_filters C X ?base (rq_filters ?b0) w2 s2 = (Inr ?w3, s3)" "I s3" by blast
  let ?w4 = "check_logic ?D ?md ?w3"
  note 4 = logic_on [OF filters_on [OF 2(3), of ?D ?base ?spec "rq_filters ?b0"], of ?D ?md]
  have run: "translate_report C X report_id bd s = (Inr (finish_report ?base ?w4), s3)"
    unfolding translate_report_def Let_def using 1(1) 2(1) 3(1) fs by (simp add: bnd_run sfm_run)
  let ?bl = "(((?shape @ (if ?shape = [] then base_reasons picked else [])) @
         (case ?base of None \<Rightarrow> [] | Some ob \<Rightarrow> concat (map (column_blocks (?spec ob)) (rq_columns ?b0)) @
            (if rq_columns ?b0 = [] then [''projected_field''] else []))) @ concat (map (filter_blocks ?D ?base ?spec) (rq_filters ?b0))) @
     (if BooleanFilterAndOnly ?D (GetString ?md ''reportBooleanFilter'') (length (rq_filters ?b0)) then [] else [''boolean_filter''])"
  have reasons: "?bl = reasons"
  proof (cases "?shape = []")
    case True
    then show ?thesis by (cases picked) (auto simp: reasons_def report_reasons_def Let_def picked_def)
  qed (simp add: reasons_def report_reasons_def Let_def)
  have "picked \<noteq> None \<and> ?shape = []" if "reasons = []"
    using that unfolding reasons [symmetric] by (cases picked) (auto simp: base_reasons_def)
  with finish_report_on [OF 4, of ?base, unfolded reasons] run 3(2) show ?thesis
    by (auto simp: expected_soql_def Let_def ingredients_def)
qed

end

text \<open>C9: The verdict on a report is exact. On an org whose metadata is stable and whose queryable objects can be
  described, the translation returns, and a report is translated exactly when none of the documented reasons
  applies: its format, cross filters, base object, each column, each filter's operator, field,
  filterability and value, and the filter logic. The query is then the one its parts
  spell, over a base object that is a plain identifier and queryable. Otherwise there is no query, and
  the reason reported is one that applies, with the lowest rank of all that do.\<close>

theorem report_verdict_exact:
  assumes "connected g s" "closed_org ascii_su (org_described g) (org_listed g)"
  shows "\<exists>b s'. translate_report C (directory_server g X) report_id bd s = (Inr b, s') \<and>
    (let reasons = report_reasons ascii_su C (org_described g) (org_listed g) bd in
     (rq_translatable b \<longleftrightarrow> reasons = []) \<and>
     (if reasons = []
      then rq_blocked_by b = ''none'' \<and> (case chosen_base ascii_su (org_listed g) bd of
          None \<Rightarrow> False
        | Some (ob, how) \<Rightarrow> IsSafeIdentifier ob \<and> listed_name ascii_su (org_listed g) ob \<and>
            rq_soql b = expected_soql ascii_su C (org_described g) (org_listed g) bd ob)
      else rq_soql b = [] \<and> rq_blocked_by b \<in> set reasons \<and>
        list_all (\<lambda>r. block_rank (rq_blocked_by b) \<le> block_rank r) reasons))"
proof -
  have cl: "closed_org (x_su (directory_server g X)) (org_described g) (org_listed g)" using assms(2) by simp
  let ?D = "x_su (directory_server g X)"
  let ?rs = "report_reasons ascii_su C (org_described g) (org_listed g) bd"
  obtain b s' where r: "translate_report C (directory_server g X) report_id bd s = (Inr b, s')"
    "rq_translatable b \<longleftrightarrow> ?rs = []"
    "if ?rs = [] then rq_blocked_by b = ''none'' \<and> chosen_base ascii_su (org_listed g) bd \<noteq> None \<and>
       rq_soql b = expected_soql ascii_su C (org_described g) (org_listed g) bd (fst (the (chosen_base ascii_su (org_listed g) bd)))
     else rq_soql b = [] \<and> rq_blocked_by b \<in> set ?rs \<and> (\<forall>r \<in> set ?rs. block_rank (rq_blocked_by b) \<le> block_rank r)"
    using directory.translate_report_run [OF assms(1) cl, of C report_id bd] unfolding directory_su by blast
  show ?thesis
  proof (cases "?rs = []")
    case True
    with r(3) obtain ob how where "chosen_base ascii_su (org_listed g) bd = Some (ob, how)" by (auto simp: split_paired_all)
    with r True chosen_base_SomeD [of ascii_su "org_listed g" bd] show ?thesis by (auto simp: Let_def)
  next
    case False
    with r show ?thesis by (simp add: Let_def list_all_iff)
  qed
qed

definition report_org :: org where
  "report_org = \<lparr> org_token = \<lparr> access_token = ''t'', instance_url = ''https://x'' \<rparr>, org_version = ''v60.0'',
     org_listing = print_json (JObj [(''sobjects'', JArr [JObj [(''name'', JStr ''Account''), (''queryable'', JBool True)]])]),
     org_objects = [(''Account'', print_json (JObj [(''fields'', JArr [JObj [(''name'', JStr ''Name''), (''filterable'', JBool True)]])]))] \<rparr>"

definition sample_report_describe :: string where
  "sample_report_describe = print_json (JObj [(''reportMetadata'', JObj [(''reportFormat'', JStr ''TABULAR''),
     (''reportType'', JObj [(''type'', JStr ''AccountList'')]), (''detailColumns'', JArr [JStr ''NAME'']),
     (''reportFilters'', JArr [JObj [(''column'', JStr ''NAME''), (''operator'', JStr ''equals''), (''value'', JStr ''Acme'')]])])])"

lemma report_org_listed: "org_listed report_org = [''Account'']"
  by code_simp

lemma report_org_closed: "closed_org ascii_su (org_described report_org) (org_listed report_org)"
proof -
  have "org_described report_org ob \<noteq> None" if "map tolower ''Account'' = map tolower ob" for ob
    using that unfolding org_described_def report_org_def by simp
  then show ?thesis unfolding closed_org_def report_org_listed by (simp add: listed_name_def ascii_su_def)
qed

lemma report_org_connected: "connected report_org sample_engine_world"
  unfolding sample_engine_world_def by (rule new_engine_connected) (simp_all add: report_org_def)

theorem report_verdict_exact_witness:
  "\<exists>b s'. translate_report bare_context (directory_server report_org history_external) ''00O'' sample_report_describe sample_engine_world = (Inr b, s') \<and>
    rq_translatable b \<and> rq_soql b = ''SELECT Name FROM Account WHERE Name = '' @ quote_text ''Acme''"
proof -
  have r: "report_reasons ascii_su bare_context (org_described report_org) (org_listed report_org) sample_report_describe = []" by code_simp
  have c: "chosen_base ascii_su (org_listed report_org) sample_report_describe = Some (''Account'', ''builtin_report_type_map'')" by code_simp
  have "expected_soql ascii_su bare_context (org_described report_org) (org_listed report_org) sample_report_describe ''Account'' =
      ''SELECT Name FROM Account WHERE Name = '' @ quote_text ''Acme''" by code_simp
  with report_verdict_exact [OF report_org_connected report_org_closed, of bare_context history_external "''00O''" sample_report_describe] r c
  show ?thesis by (auto simp: Let_def)
qed

section \<open>Literals and logic\<close>

text \<open>The report bridge quotes text exactly as the pushdown does, so the literal reads back as the text.\<close>

lemma SoqlStr_eq: "SoqlStr s = SoqlString s"
proof -
  have "soql_str_loop s = concat (map soql_escape_char s) @ [SQ]" by (induction s) (simp_all add: soql_escape_char_def)
  then show ?thesis by (simp add: SoqlStr_def SoqlString_def)
qed

lemma split_on_char_not_Nil: "split_on_char sep s \<noteq> []"
  by (cases s) (auto split: list.splits)

lemma safe_id_loop_split: "safe_id_loop seg s = (case split_on_char (CHR ''.'') s of w # ws \<Rightarrow> valid_seg (seg @ w) \<and> list_all valid_seg ws | [] \<Rightarrow> False)"
proof (induction s arbitrary: seg)
  case (Cons c s)
  then show ?case using split_on_char_not_Nil [of "CHR ''.''" s] by (cases "split_on_char (CHR ''.'') s") auto
qed simp

lemma IsSafeIdentifier_iff: "IsSafeIdentifier s \<longleftrightarrow> list_all valid_seg (split_on_char (CHR ''.'') s)"
proof (cases s)
  case (Cons c cs)
  then show ?thesis unfolding IsSafeIdentifier_def safe_id_loop_split by (auto split: list.splits)
qed (simp add: IsSafeIdentifier_def valid_seg_def)

text \<open>An identifier has no blank, quote, parenthesis or comma: it cannot change the query around it.\<close>

lemma safe_identifier_chars:
  assumes "IsSafeIdentifier s" "c \<in> set s"
  shows "isupper c \<or> islower c \<or> isdigit c \<or> c = CHR ''_'' \<or> c = CHR ''.''"
proof -
  have "set s \<subseteq> {CHR ''.''} \<union> \<Union> (set ` set (split_on_char (CHR ''.'') s))"
  proof (induction s)
    case (Cons a s)
    obtain w ws where w: "split_on_char (CHR ''.'') s = w # ws" using split_on_char_not_Nil by (meson list.exhaust)
    with Cons.IH have "set s \<subseteq> {CHR ''.''} \<union> (set w \<union> \<Union> (set ` set ws))" by simp
    then show ?case by (cases "a = CHR ''.''") (use w in \<open>simp_all, blast+\<close>)
  qed simp
  moreover have "valid_seg w \<Longrightarrow> d \<in> set w \<Longrightarrow> isupper d \<or> islower d \<or> isdigit d \<or> d = CHR ''_''" for w d
    by (cases w) (auto simp: valid_seg_def list_all_iff)
  ultimately show ?thesis using assms by (auto simp: IsSafeIdentifier_iff list_all_iff)
qed

text \<open>Filter logic that leaves a filter out is accepted, although every filter becomes a conjunct.\<close>

lemma partial_logic_accepted: "BooleanFilterAndOnly ascii_su ''1'' 2"
  by code_simp

text \<open>A base found in the report type's metadata is announced as a column prefix.\<close>

lemma metadata_base_label: "base_label ''report_type_metadata'' = base_label ''column_prefix''"
  by (simp add: base_label_def)

end
