(* ===== verification/SF_Extension.thy ===== *)
theory SF_Extension
  imports SF_Database SF_AggOpt SF_Aggregate SF_MetaGraph SF_ReportSoql
begin

text \<open>
  Loading the extension (\<^verbatim>\<open>LoadInternal\<close> of \<^verbatim>\<open>salesforce_extension.cpp\<close>) and the constructors of
  its functions (the \<^verbatim>\<open>GetSalesforce...Function\<close> of every file). A function is its name, its
  positional arguments, its named parameters, its optional further arguments and whether
  projections and filters are pushed into it; its callbacks are the operations of the other
  theories. The loader is the record of what was registered with DuckDB, in order. Descriptions and
  examples, which DuckDB only displays, are left out.

  Shown: the registered defaults are the values the code falls back to, so that no operation of
  the extension can tell a fresh instance from one without settings; and what the documented
  parameters of the functions and the functions themselves have in common.
\<close>

section \<open>Functions\<close>

record sf_function =
  fn_name :: string
  fn_arguments :: "LogicalType list"
  fn_named_parameters :: "(string \<times> LogicalType) list"
  fn_varargs :: "LogicalType option"
  fn_projection_pushdown :: bool
  fn_filter_pushdown :: bool
  fn_is_scalar :: bool

definition table_function :: "string \<Rightarrow> LogicalType list \<Rightarrow> sf_function" where
  "table_function nm args = \<lparr> fn_name = nm, fn_arguments = args, fn_named_parameters = [], fn_varargs = None,
     fn_projection_pushdown = False, fn_filter_pushdown = False, fn_is_scalar = False \<rparr>"

definition scalar_function :: "string \<Rightarrow> LogicalType list \<Rightarrow> sf_function" where
  "scalar_function nm args = (table_function nm args) \<lparr> fn_is_scalar := True \<rparr>"

definition GetSalesforceAggregateFunction :: sf_function where
  "GetSalesforceAggregateFunction = (table_function ''salesforce_aggregate'' [VARCHAR, VARCHAR, VARCHAR])
     \<lparr> fn_varargs := Some VARCHAR \<rparr>"

definition GetSalesforceBulkResumeFunction :: sf_function where
  "GetSalesforceBulkResumeFunction = table_function ''salesforce_bulk_resume'' [VARCHAR, VARCHAR]"

definition GetSalesforceDeletedIdsFunction :: sf_function where
  "GetSalesforceDeletedIdsFunction = (table_function ''salesforce_deleted_ids'' [VARCHAR, VARCHAR])
     \<lparr> fn_named_parameters := [(''since'', VARCHAR), (''until'', VARCHAR), (''source'', VARCHAR)] \<rparr>"

definition GetSalesforceDescribeFunction :: sf_function where
  "GetSalesforceDescribeFunction = (table_function ''salesforce_describe'' [VARCHAR])
     \<lparr> fn_named_parameters := [(''client_id'', VARCHAR), (''client_secret'', VARCHAR),
        (''refresh_token'', VARCHAR), (''login_url'', VARCHAR), (''api_version'', VARCHAR)] \<rparr>"

definition GetSalesforceQueryCostFunction :: sf_function where
  "GetSalesforceQueryCostFunction = table_function ''salesforce_query_cost'' []"

definition GetSalesforcePicklistValuesFunction :: sf_function where
  "GetSalesforcePicklistValuesFunction = table_function ''salesforce_picklist_values'' [VARCHAR, VARCHAR, VARCHAR]"

definition GetSalesforceRecordTypesFunction :: sf_function where
  "GetSalesforceRecordTypesFunction = table_function ''salesforce_record_types'' [VARCHAR, VARCHAR]"

definition GetSalesforceMetadataFieldsFunction :: sf_function where
  "GetSalesforceMetadataFieldsFunction = table_function ''salesforce_metadata_fields'' [VARCHAR, VARCHAR]"

definition GetSalesforceMetadataObjectsFunction :: sf_function where
  "GetSalesforceMetadataObjectsFunction = table_function ''salesforce_metadata_objects'' [VARCHAR]"

definition GetSalesforceQueryExplainFunction :: sf_function where
  "GetSalesforceQueryExplainFunction = table_function ''salesforce_query_explain'' []"

definition GetSalesforceRelationshipGraphFunction :: sf_function where
  "GetSalesforceRelationshipGraphFunction = (table_function ''salesforce_relationship_graph'' [VARCHAR, VARCHAR])
     \<lparr> fn_named_parameters := [(''include_children'', BOOLEAN),
        (''direction'', VARCHAR)], fn_varargs := Some INTEGER \<rparr>"

definition GetSalesforceUrlEncodeFunction :: sf_function where
  "GetSalesforceUrlEncodeFunction = scalar_function ''sf_url_encode'' [VARCHAR]"

definition GetSalesforceQueryFunction :: sf_function where
  "GetSalesforceQueryFunction = (table_function ''salesforce_query'' [VARCHAR])
     \<lparr> fn_named_parameters := [(''client_id'', VARCHAR), (''client_secret'', VARCHAR),
        (''refresh_token'', VARCHAR), (''login_url'', VARCHAR), (''api_version'', VARCHAR)] \<rparr>"

definition GetSalesforceLastQuotaFunction :: sf_function where
  "GetSalesforceLastQuotaFunction = table_function ''salesforce_last_quota'' []"

definition GetSalesforceRelationshipsFunction :: sf_function where
  "GetSalesforceRelationshipsFunction = table_function ''salesforce_relationships'' []"

definition GetSalesforceReportsFunction :: sf_function where
  "GetSalesforceReportsFunction = table_function ''salesforce_reports'' [VARCHAR]"

definition GetSalesforceReportFunction :: sf_function where
  "GetSalesforceReportFunction = table_function ''salesforce_report'' [VARCHAR, VARCHAR]"

definition GetSalesforceReportSoqlFunction :: sf_function where
  "GetSalesforceReportSoqlFunction = table_function ''salesforce_report_soql'' [VARCHAR, VARCHAR]"

definition GetSalesforceScanFunction :: sf_function where
  "GetSalesforceScanFunction = (table_function ''salesforce_scan'' [])
     \<lparr> fn_projection_pushdown := True, fn_filter_pushdown := True \<rparr>"

definition GetSalesforceScanUserFunction :: sf_function where
  "GetSalesforceScanUserFunction = (table_function ''salesforce_scan'' [VARCHAR, VARCHAR])
     \<lparr> fn_named_parameters := [(''filter'', VARCHAR), (''query_mode'', VARCHAR), (''transport'', VARCHAR),
        (''chunks'', BIGINT)], fn_projection_pushdown := True, fn_filter_pushdown := True \<rparr>"

definition GetSalesforceLastSoqlFunction :: sf_function where
  "GetSalesforceLastSoqlFunction = table_function ''salesforce_last_soql'' []"

definition GetSalesforceLastScanPagesFunction :: sf_function where
  "GetSalesforceLastScanPagesFunction = table_function ''salesforce_last_scan_pages'' []"

definition GetSalesforceLastBulkCreateBodyFunction :: sf_function where
  "GetSalesforceLastBulkCreateBodyFunction = table_function ''salesforce_last_bulk_create_body'' []"

definition GetSalesforceLastTransportFunction :: sf_function where
  "GetSalesforceLastTransportFunction = table_function ''salesforce_last_transport'' []"

definition GetSalesforceDescribeCallsFunction :: sf_function where
  "GetSalesforceDescribeCallsFunction = table_function ''salesforce_describe_calls'' []"

definition GetSalesforceToolingCallsFunction :: sf_function where
  "GetSalesforceToolingCallsFunction = table_function ''salesforce_tooling_calls'' []"

definition GetSalesforceGlobalDescribeCallsFunction :: sf_function where
  "GetSalesforceGlobalDescribeCallsFunction = table_function ''salesforce_global_describe_calls'' []"

definition GetSalesforceRefreshMetadataFunction :: sf_function where
  "GetSalesforceRefreshMetadataFunction = (table_function ''salesforce_refresh_metadata'' [VARCHAR])
     \<lparr> fn_varargs := Some VARCHAR \<rparr>"

definition GetSalesforceDecodeFunction :: sf_function where
  "GetSalesforceDecodeFunction = table_function ''salesforce_decode'' [VARCHAR, VARCHAR]"

section \<open>What is registered\<close>

record described_function =
  df_function :: sf_function
  df_parameter_names :: "string list"
  df_categories :: "string list"

definition described :: "sf_function \<Rightarrow> string list \<Rightarrow> string list \<Rightarrow> described_function" where
  "described fn params cats = \<lparr> df_function = fn, df_parameter_names = params, df_categories = cats \<rparr>"

record extension_option =
  eo_name :: string
  eo_type :: LogicalType
  eo_default :: Value

definition extension_option :: "string \<Rightarrow> LogicalType \<Rightarrow> Value \<Rightarrow> extension_option" where
  "extension_option nm ty v = \<lparr> eo_name = nm, eo_type = ty, eo_default = v \<rparr>"

text \<open>DuckDB's \<^verbatim>\<open>Value::BIGINT\<close> and \<^verbatim>\<open>Value::BOOLEAN\<close>, as the code observes them.\<close>

definition bigint_value :: "int \<Rightarrow> Value" where
  "bigint_value n = \<lparr> v_IsNull = False, v_type = BIGINT, v_ToString = show_int n, v_StringGet = show_int n,
     v_BoolGet = (n \<noteq> 0), v_IntGet = n \<rparr>"

definition boolean_value :: "bool \<Rightarrow> Value" where
  "boolean_value b = \<lparr> v_IsNull = False, v_type = BOOLEAN, v_ToString = (if b then ''true'' else ''false''),
     v_StringGet = (if b then ''true'' else ''false''), v_BoolGet = b, v_IntGet = (if b then 1 else 0) \<rparr>"

record extension_loader =
  ld_storage :: "string list"
  ld_optimizers :: "string list"
  ld_functions :: "described_function list"
  ld_options :: "extension_option list"
  ld_globals :: globals

definition AddExtensionOptions :: "extension_option list \<Rightarrow> extension_loader \<Rightarrow> extension_loader" where
  "AddExtensionOptions opts L = L \<lparr> ld_options := ld_options L @ opts \<rparr>"

definition RegisterDescribed :: "described_function list \<Rightarrow> extension_loader \<Rightarrow> extension_loader" where
  "RegisterDescribed fns L = L \<lparr> ld_functions := ld_functions L @ fns \<rparr>"

definition core_options :: "extension_option list" where
  "core_options =
     [extension_option ''sf_retry_max'' BIGINT (bigint_value 3),
      extension_option ''sf_timeout_read_s'' BIGINT (bigint_value 60),
      extension_option ''sf_retry_backoff_ms'' BIGINT (bigint_value 200),
      extension_option ''sf_aggregate_pushdown'' BOOLEAN (boolean_value True)]"

definition mock_http_options :: "extension_option list" where
  "mock_http_options =
     [extension_option ''sf_mock_token_status'' BIGINT (bigint_value 0),
      extension_option ''sf_mock_token_body'' VARCHAR (varchar_option []),
      extension_option ''sf_mock_describe_status'' VARCHAR (varchar_option ''200''),
      extension_option ''sf_mock_describe_body'' VARCHAR (varchar_option []),
      extension_option ''sf_mock_query_status'' VARCHAR (varchar_option ''200''),
      extension_option ''sf_mock_query_body'' VARCHAR (varchar_option []),
      extension_option ''sf_mock_sobjects_status'' VARCHAR (varchar_option ''200''),
      extension_option ''sf_mock_sobjects_body'' VARCHAR (varchar_option []),
      extension_option ''sf_mock_count_status'' VARCHAR (varchar_option ''200''),
      extension_option ''sf_mock_count_body'' VARCHAR (varchar_option (''{'' @ quoted ''totalSize'' @ '':0,'' @ quoted ''done'' @ '':true,'' @ quoted ''records'' @ '':[]}'')),
      extension_option ''sf_mock_limits_status'' VARCHAR (varchar_option ''200''),
      extension_option ''sf_mock_limits_body'' VARCHAR (varchar_option (''{'' @ quoted ''DailyApiRequests'' @ '':{'' @ quoted ''Max'' @ '':100000,'' @ quoted ''Remaining'' @ '':99000}}''))]"

definition scan_options :: "extension_option list" where
  "scan_options =
     [extension_option ''sf_force_transport'' VARCHAR (varchar_option ''rest''),
      extension_option ''sf_auto_bulk_threshold'' BIGINT (bigint_value 50000),
      extension_option ''sf_auto_probe'' BOOLEAN (boolean_value True),
      extension_option ''sf_quota_enabled'' BOOLEAN (boolean_value True),
      extension_option ''sf_quota_enforce'' BOOLEAN (boolean_value True),
      extension_option ''sf_quota_fail_open'' BOOLEAN (boolean_value True),
      extension_option ''sf_quota_reserve_pct'' BIGINT (bigint_value 10),
      extension_option ''sf_quota_min_remaining'' BIGINT (bigint_value 1000),
      extension_option ''sf_quota_cache_seconds'' BIGINT (bigint_value 60),
      extension_option ''sf_schema_source'' VARCHAR (varchar_option ''describe''),
      extension_option ''sf_query_mode'' VARCHAR (varchar_option ''query''),
      extension_option ''sf_relationships'' VARCHAR (varchar_option ''off''),
      extension_option ''sf_relationship_depth'' BIGINT (bigint_value 1)]"

definition mock_tooling_options :: "extension_option list" where
  "mock_tooling_options =
     [extension_option ''sf_mock_tooling_status'' VARCHAR (varchar_option ''200''),
      extension_option ''sf_mock_tooling_body'' VARCHAR (varchar_option []),
      extension_option ''sf_mock_env'' VARCHAR (varchar_option []),
      extension_option ''sf_mock_queryall_status'' VARCHAR (varchar_option ''200''),
      extension_option ''sf_mock_queryall_body'' VARCHAR (varchar_option [])]"

definition bulk_options :: "extension_option list" where
  "bulk_options =
     [extension_option ''sf_bulk_chunks'' BIGINT (bigint_value 1),
      extension_option ''sf_bulk_poll_budget'' BIGINT (bigint_value 600),
      extension_option ''sf_bulk_require_predicate'' BOOLEAN (boolean_value False)]"

definition mock_bulk_options :: "extension_option list" where
  "mock_bulk_options =
     [extension_option ''sf_mock_bulk_create_status'' BIGINT (bigint_value 200),
      extension_option ''sf_mock_bulk_create_body'' VARCHAR (varchar_option (''{'' @ quoted ''id'' @ '':'' @ quoted ''JOB1'' @ '','' @ quoted ''state'' @ '':'' @ quoted ''UploadComplete'' @ ''}'')),
      extension_option ''sf_mock_bulk_status_code'' VARCHAR (varchar_option ''200''),
      extension_option ''sf_mock_bulk_status_body'' VARCHAR (varchar_option (''{'' @ quoted ''state'' @ '':'' @ quoted ''JobComplete'' @ ''}'')),
      extension_option ''sf_mock_bulk_results_status'' VARCHAR (varchar_option ''200''),
      extension_option ''sf_mock_bulk_results_body'' VARCHAR (varchar_option []),
      extension_option ''sf_mock_bulk_results_locator'' VARCHAR (varchar_option [])]"

definition mock_report_options :: "extension_option list" where
  "mock_report_options =
     [extension_option ''sf_mock_report_status'' VARCHAR (varchar_option []),
      extension_option ''sf_mock_report_body'' VARCHAR (varchar_option []),
      extension_option ''sf_mock_report_describe_status'' VARCHAR (varchar_option []),
      extension_option ''sf_mock_report_describe_body'' VARCHAR (varchar_option []),
      extension_option ''sf_mock_report_token_map'' VARCHAR (varchar_option [])]"

definition first_functions :: "described_function list" where
  "first_functions =
     [described GetSalesforceDescribeFunction [''object''] [''metadata''],
      described GetSalesforceQueryFunction [''soql''] [''query''],
      described GetSalesforceUrlEncodeFunction [''text''] [''utility''],
      described GetSalesforceDecodeFunction [''fields_json'', ''records_json''] [''utility''],
      described GetSalesforceLastSoqlFunction [] [''diagnostic''],
      described GetSalesforceLastScanPagesFunction [] [''diagnostic'', ''test''],
      described GetSalesforceLastBulkCreateBodyFunction [] [''diagnostic'', ''test''],
      described GetSalesforceLastTransportFunction [] [''diagnostic''],
      described GetSalesforceLastQuotaFunction [] [''diagnostic''],
      described GetSalesforceQueryCostFunction [] [''diagnostic''],
      described GetSalesforceReportsFunction [''catalog''] [''report''],
      described GetSalesforceReportFunction [''catalog'', ''report_id''] [''report''],
      described GetSalesforceReportSoqlFunction [''catalog'', ''report_id''] [''report'', ''diagnostic''],
      described GetSalesforceMetadataFieldsFunction [''catalog'', ''object''] [''metadata''],
      described GetSalesforceMetadataObjectsFunction [''catalog''] [''metadata''],
      described GetSalesforceRelationshipGraphFunction [''catalog'', ''object''] [''metadata'', ''diagnostic''],
      described GetSalesforceQueryExplainFunction [] [''diagnostic''],
      described GetSalesforceRelationshipsFunction [] [''diagnostic'']]"

definition more_functions :: "described_function list" where
  "more_functions =
     [described GetSalesforceAggregateFunction [''catalog'', ''object'', ''aggregates''] [''aggregate''],
      described GetSalesforceDeletedIdsFunction [''catalog'', ''object''] [''sync''],
      described GetSalesforceScanUserFunction [''catalog'', ''object'', ''where''] [''query''],
      described GetSalesforceBulkResumeFunction [''catalog'', ''job_id''] [''bulk''],
      described GetSalesforceRefreshMetadataFunction [''catalog''] [''metadata''],
      described GetSalesforcePicklistValuesFunction [''catalog'', ''object'', ''field''] [''metadata''],
      described GetSalesforceRecordTypesFunction [''catalog'', ''object''] [''metadata''],
      described GetSalesforceDescribeCallsFunction [] [''diagnostic'', ''test''],
      described GetSalesforceGlobalDescribeCallsFunction [] [''diagnostic'', ''test''],
      described GetSalesforceToolingCallsFunction [] [''diagnostic'', ''test'']]"

definition LoadInternal :: "extension_loader \<Rightarrow> extension_loader" where
  "LoadInternal L0 =
     (let L1 = L0 \<lparr> ld_globals := DiagReset (ld_globals L0) \<rparr>;
          L2 = L1 \<lparr> ld_storage := ld_storage L1 @ [''salesforce''] \<rparr>;
          L3 = L2 \<lparr> ld_optimizers := ld_optimizers L2 @ [''SalesforceAggregatePushdownOptimize''] \<rparr>;
          L4 = RegisterDescribed (first_functions @ more_functions) (AddExtensionOptions core_options L3)
      in AddExtensionOptions (mock_http_options @ scan_options @ mock_tooling_options @ bulk_options @ mock_bulk_options
           @ mock_report_options) L4)"

section \<open>Settings in a loaded instance\<close>

definition fresh_loader :: "globals \<Rightarrow> extension_loader" where
  "fresh_loader g = \<lparr> ld_storage = [], ld_optimizers = [], ld_functions = [], ld_options = [], ld_globals = g \<rparr>"

text \<open>A setting read in an instance: what the user set, else the default it was registered with.\<close>

fun option_default :: "extension_option list \<Rightarrow> string \<Rightarrow> Value option" where
  "option_default [] key = None"
| "option_default (eo # opts) key = (if eo_name eo = key then Some (eo_default eo) else option_default opts key)"

definition in_instance :: "extension_loader \<Rightarrow> client_context \<Rightarrow> client_context" where
  "in_instance L C = C \<lparr> TryGetCurrentSetting := (\<lambda>key. case TryGetCurrentSetting C key of
     Some v \<Rightarrow> Some v | None \<Rightarrow> option_default (ld_options L) key) \<rparr>"

definition all_options :: "extension_option list" where
  "all_options = core_options @ mock_http_options @ scan_options @ mock_tooling_options @ bulk_options @ mock_bulk_options
     @ mock_report_options"

lemma loaded_options: "ld_options (LoadInternal (fresh_loader g)) = all_options"
  by (simp add: LoadInternal_def fresh_loader_def AddExtensionOptions_def RegisterDescribed_def all_options_def Let_def)

lemma option_default_step:
  "option_default (extension_option nm ty v # opts) key = (if nm = key then Some v else option_default opts key)"
  by (simp add: extension_option_def)

lemma option_default_append:
  "option_default (xs @ ys) key = (case option_default xs key of Some v \<Rightarrow> Some v | None \<Rightarrow> option_default ys key)"
  by (induction xs) auto

lemmas option_lists = all_options_def option_default_append core_options_def mock_http_options_def scan_options_def
  mock_tooling_options_def bulk_options_def mock_bulk_options_def mock_report_options_def

lemma scan_defaults:
  "option_default all_options ''sf_force_transport'' = Some (varchar_option ''rest'')"
  "option_default all_options ''sf_query_mode'' = Some (varchar_option ''query'')"
  "option_default all_options ''sf_bulk_poll_budget'' = Some (bigint_value 600)"
  "option_default all_options ''sf_auto_probe'' = Some (boolean_value True)"
  "option_default all_options ''sf_auto_bulk_threshold'' = Some (bigint_value 50000)"
  "option_default all_options ''sf_bulk_require_predicate'' = Some (boolean_value False)"
  "option_default all_options ''sf_bulk_chunks'' = Some (bigint_value 1)"
  "option_default all_options ''sf_aggregate_pushdown'' = Some (boolean_value True)"
  by (simp_all add: option_lists option_default_step del: option_default.simps(2))

lemma quota_defaults:
  "option_default all_options ''sf_quota_enabled'' = Some (boolean_value True)"
  "option_default all_options ''sf_quota_enforce'' = Some (boolean_value True)"
  "option_default all_options ''sf_quota_fail_open'' = Some (boolean_value True)"
  "option_default all_options ''sf_quota_reserve_pct'' = Some (bigint_value 10)"
  "option_default all_options ''sf_quota_min_remaining'' = Some (bigint_value 1000)"
  "option_default all_options ''sf_quota_cache_seconds'' = Some (bigint_value 60)"
  by (simp_all add: option_lists option_default_step del: option_default.simps(2))

lemma other_defaults:
  "option_default all_options ''sf_schema_source'' = Some (varchar_option ''describe'')"
  "option_default all_options ''sf_relationships'' = Some (varchar_option ''off'')"
  "option_default all_options ''sf_relationship_depth'' = Some (bigint_value 1)"
  "option_default all_options ''sf_retry_max'' = Some (bigint_value 3)"
  "option_default all_options ''sf_retry_backoff_ms'' = Some (bigint_value 200)"
  "option_default all_options ''sf_timeout_read_s'' = Some (bigint_value 60)"
  "option_default all_options ''sf_mock_token_status'' = Some (bigint_value 0)"
  "option_default all_options ''sf_mock_env'' = Some (varchar_option [])"
  "option_default all_options ''sf_mock_report_token_map'' = Some (varchar_option [])"
  by (simp_all add: option_lists option_default_step del: option_default.simps(2))

abbreviation loaded :: "globals \<Rightarrow> client_context \<Rightarrow> client_context" where
  "loaded g C \<equiv> in_instance (LoadInternal (fresh_loader g)) C"

lemma loaded_setting: "TryGetCurrentSetting (loaded g C) key =
    (case TryGetCurrentSetting C key of Some v \<Rightarrow> Some v | None \<Rightarrow> option_default all_options key)"
  by (simp add: in_instance_def loaded_options split: option.splits)

lemma loaded_files: "getenv (loaded g C) = getenv C" "read_file (loaded g C) = read_file C"
  by (simp_all add: in_instance_def)

text \<open>The readers of the settings, each with the fallback it is called with.\<close>

lemma SettingInt_loaded:
  "option_default all_options key = Some (bigint_value n) \<Longrightarrow> SettingInt (loaded g C) key n = SettingInt C key n"
  by (simp add: SettingInt_def loaded_setting bigint_value_def split: option.splits)

lemma SettingBool_loaded:
  "option_default all_options key = Some (boolean_value b) \<Longrightarrow> SettingBool (loaded g C) key b = SettingBool C key b"
  by (simp add: SettingBool_def loaded_setting boolean_value_def split: option.splits)

lemma setting_text_loaded:
  "option_default all_options key = Some (varchar_option t) \<Longrightarrow> su_Lower D t = t \<Longrightarrow>
   setting_text D (loaded g C) key t = setting_text D C key t"
  by (simp add: setting_text_def loaded_setting varchar_option_def split: option.splits)

lemmas readers_loaded =
  SettingInt_loaded [OF scan_defaults(5)] SettingInt_loaded [OF scan_defaults(7)]
  SettingBool_loaded [OF scan_defaults(4)] SettingBool_loaded [OF scan_defaults(6)]
  SettingBool_loaded [OF quota_defaults(1)] SettingBool_loaded [OF quota_defaults(2)] SettingBool_loaded [OF quota_defaults(3)]
  SettingInt_loaded [OF quota_defaults(4)] SettingInt_loaded [OF quota_defaults(5)] SettingInt_loaded [OF quota_defaults(6)]
  SettingInt_loaded [OF other_defaults(4)] SettingInt_loaded [OF other_defaults(5)] SettingInt_loaded [OF other_defaults(6)]
  SettingInt_loaded [OF other_defaults(7)]

context string_utilities
begin

lemma Lower_defaults: "su_Lower D ''rest'' = ''rest''" "su_Lower D ''query'' = ''query''" "su_Lower D ''describe'' = ''describe''"
  "su_Lower D ''off'' = ''off''"
  unfolding Lower_eq by code_simp+

lemmas texts_loaded = setting_text_loaded [OF scan_defaults(1) Lower_defaults(1)]
  setting_text_loaded [OF scan_defaults(2) Lower_defaults(2)] setting_text_loaded [OF other_defaults(1) Lower_defaults(3)]
  setting_text_loaded [OF other_defaults(2) Lower_defaults(4)]

end

text \<open>The scan\<close>

lemma scan_readers_loaded:
  assumes "string_utilities D"
  shows "scan_transport D (loaded g C) b = scan_transport D C b"
    and "scan_query_mode D (loaded g C) b = scan_query_mode D C b"
    and "poll_budget_setting (loaded g C) = poll_budget_setting C"
    and "bulk_chunk_count (loaded g C) b = bulk_chunk_count C b"
    and "predicate_guard (loaded g C) b tc = predicate_guard C b tc"
    and "choose_transport (loaded g C) X b tr ao = choose_transport C X b tr ao"
    and "QuotaGuardBulkStart (loaded g C) X url = QuotaGuardBulkStart C X url"
  using string_utilities.texts_loaded [OF assms]
  by (simp_all add: scan_transport_def scan_query_mode_def poll_budget_setting_def loaded_setting scan_defaults(3)
      bigint_value_def bulk_chunk_count_def predicate_guard_def choose_transport_def probe_enabled_def QuotaGuardBulkStart_def
      readers_loaded int32_max_def Let_def split: option.splits)

lemma ScanInitGlobal_loaded:
  assumes "string_utilities (x_su X)"
  shows "ScanInitGlobal (loaded g C) X b column_ids = ScanInitGlobal C X b column_ids"
  unfolding ScanInitGlobal_def init_rows_def init_bulk_def bulk_wheres_def Let_def scan_readers_loaded [OF assms] by (rule refl)

lemma start_chunk_loaded:
  "string_utilities (x_su X) \<Longrightarrow> start_chunk (loaded g C) X soql = start_chunk C X soql"
  by (simp add: start_chunk_def scan_readers_loaded(7))

lemma next_bulk_page_loaded:
  assumes "string_utilities (x_su X)"
  shows "next_bulk_page (loaded g C) X gs l = next_bulk_page C X gs l"
  using assms
proof (induction C X gs l rule: next_bulk_page.induct)
  case (1 C X gs l)
  show ?case
  proof (cases "ls_has_chunk l")
    case True
    have "(\<lambda>(got, n, l'). if got then ret (True, gs \<lparr> gs_total_bulk_pages := n \<rparr>, l')
          else next_bulk_page (loaded g C) X (gs \<lparr> gs_total_bulk_pages := n \<rparr>) (l' \<lparr> ls_has_chunk := False \<rparr>)) =
        (\<lambda>(got, n, l'). if got then ret (True, gs \<lparr> gs_total_bulk_pages := n \<rparr>, l')
          else next_bulk_page C X (gs \<lparr> gs_total_bulk_pages := n \<rparr>) (l' \<lparr> ls_has_chunk := False \<rparr>))"
      using 1(1) [OF True] 1(3) by (auto simp: fun_eq_iff)
    with True show ?thesis by (simp add: next_bulk_page.simps [of _ X gs l])
  next
    case False
    have "next_bulk_page (loaded g C) X (gs \<lparr> gs_next_chunk := gs_next_chunk gs + 1 \<rparr>) (l \<lparr> ls_results_base := base,
            ls_started := False, ls_chunk_done := False, ls_next_locator := [], ls_seen := [], ls_has_chunk := True \<rparr>) =
        next_bulk_page C X (gs \<lparr> gs_next_chunk := gs_next_chunk gs + 1 \<rparr>) (l \<lparr> ls_results_base := base,
            ls_started := False, ls_chunk_done := False, ls_next_locator := [], ls_seen := [], ls_has_chunk := True \<rparr>)"
      if "\<not> gs_next_chunk gs \<ge> length (gs_bulk_chunk_soqls gs)" for base
      by (rule 1(2) [OF False refl refl that 1(3)])
    with False start_chunk_loaded [OF 1(3)] show ?thesis by (simp add: next_bulk_page.simps [of _ X gs l] Let_def)
  qed
qed

lemma ScanFunction_loaded:
  assumes "string_utilities (x_su X)"
  shows "ScanFunction (loaded g C) X K n b gl = ScanFunction C X K n b gl"
  unfolding ScanFunction_def scan_bulk_def bulk_rows_def next_bulk_page_loaded [OF assms] by (rule refl)

text \<open>The catalog, the aggregates, ATTACH and the reports\<close>

lemma relationship_depth_loaded: "relationship_depth (loaded g C) = relationship_depth C"
  by (simp add: relationship_depth_def loaded_setting other_defaults bigint_value_def split: option.splits)

lemma LookupEntry_loaded:
  assumes "string_utilities (x_su X)"
  shows "LookupEntry (loaded g C) X t h object = LookupEntry C X t h object"
  unfolding LookupEntry_def lookup_describe_def relationship_depth_loaded string_utilities.texts_loaded [OF assms] by (rule refl)

lemma agg_fetch_loaded:
  assumes "string_utilities (x_su X)"
  shows "agg_fetch (loaded g C) X b = agg_fetch C X b"
proof -
  have "setting_text (x_su X) (loaded g C) ''sf_query_mode'' [] = ''queryall'' \<longleftrightarrow>
      setting_text (x_su X) C ''sf_query_mode'' [] = ''queryall''"
    by (simp add: setting_text_def loaded_setting scan_defaults(2) varchar_option_def
        string_utilities.Lower_defaults [OF assms] split: option.splits)
  then show ?thesis unfolding agg_fetch_def by (simp only:)
qed

lemma pushdown_off_loaded: "pushdown_off (loaded g C) = pushdown_off C"
  by (simp add: pushdown_off_def loaded_setting scan_defaults(8) boolean_value_def split: option.splits)

lemma Walk_loaded: "Walk D bindings (loaded g C) p = Walk D bindings C p"
proof (induction p)
  case (Aggregate a children)
  have "rewrite_aggregate D bindings (loaded g C) a children = rewrite_aggregate D bindings C a children"
    unfolding rewrite_aggregate_def TryRewriteCountAggregate_def TryRewriteV2CountDistinct_def pushable_scan_def pushdown_off_loaded
    by (rule refl)
  with Aggregate show ?case by (auto split: option.splits)
qed auto

lemma Trimmed_blank: "string_utilities D \<Longrightarrow> Trimmed D [] = []"
  by (simp add: Trimmed_def string_utilities.LTrim_eq string_utilities.RTrim_eq)

lemma EnvLookup_loaded:
  assumes "string_utilities D"
  shows "EnvLookup D (loaded g C) = EnvLookup D C"
  using Trimmed_blank [OF assms]
  by (auto simp: fun_eq_iff EnvLookup_def os_env_def loaded_setting loaded_files other_defaults(8) varchar_option_def split: option.splits)

lemma SalesforceAttach_loaded:
  assumes "string_utilities (x_su X)"
  shows "SalesforceAttach (loaded g C) X path options = SalesforceAttach C X path options"
  unfolding SalesforceAttach_def ParseAndValidate_def auth_section_def auth_env_def auth_jwt_def jwt_key_path_def
    RequireEnv_def LoadPrivateKeyFile_def EnvLookup_loaded [OF assms] loaded_files by (rule refl)

lemma ResolveReportTokenCandidate_loaded: "ResolveReportTokenCandidate D (loaded g C) = ResolveReportTokenCandidate D C"
  by (auto simp: fun_eq_iff ResolveReportTokenCandidate_def loaded_setting other_defaults(9) varchar_option_def split: option.splits)

lemma BuildHttpClientForContext_loaded:
  "BuildHttpClientForContext (loaded g C) = BuildHttpClientForContext C \<or> SettingInt C ''sf_mock_token_status'' 0 \<noteq> 0"
  by (auto simp: BuildHttpClientForContext_def readers_loaded)

lemma resolve_field_loaded: "resolve_field (loaded g C) X base token = resolve_field C X base token"
  unfolding resolve_field_def ResolveReportTokenCandidate_loaded by (rule refl)

lemma report_loops_loaded:
  "project_columns (loaded g C) X base cols w = project_columns C X base cols w"
  "translate_filters (loaded g C) X fbase fs w2 = translate_filters C X fbase fs w2"
proof -
  show "project_columns (loaded g C) X base cols w = project_columns C X base cols w"
    by (induction cols arbitrary: w) (simp_all add: resolve_field_loaded)
  show "translate_filters (loaded g C) X fbase fs w2 = translate_filters C X fbase fs w2"
    by (cases fbase; induction fs arbitrary: w2) (simp_all add: resolve_field_loaded split: option.splits)
qed

lemma ReportSoqlBind_loaded: "ReportSoqlBind A (loaded g C) X args = ReportSoqlBind A C X args"
  unfolding ReportSoqlBind_def translate_report_def report_loops_loaded by (rule refl)

text \<open>
  C18: A freshly loaded instance behaves as the code does without settings. Reading settings
  through the options that loading registers (what the user set, else the registered default)
  gives the same ATTACH, table lookup, scan initialisation, scan, aggregate fetch, plan rewrite
  and report translation, and the same live HTTP client, as reading only what the user set and
  falling back to the constants in the code.
\<close>

theorem defaults_transparent:
  assumes "string_utilities (x_su X)"
  shows "SalesforceAttach (loaded g C) X path options = SalesforceAttach C X path options \<and>
    LookupEntry (loaded g C) X t h object = LookupEntry C X t h object \<and>
    ScanInitGlobal (loaded g C) X b column_ids = ScanInitGlobal C X b column_ids \<and>
    ScanFunction (loaded g C) X K n b gl = ScanFunction C X K n b gl \<and>
    agg_fetch (loaded g C) X ab = agg_fetch C X ab \<and>
    SalesforceAggregatePushdownOptimize (x_su X) bindings (loaded g C) p =
      SalesforceAggregatePushdownOptimize (x_su X) bindings C p \<and>
    ReportSoqlBind A (loaded g C) X args = ReportSoqlBind A C X args \<and>
    (if SettingInt C ''sf_mock_token_status'' 0 = 0
     then BuildHttpClientForContext (loaded g C) = BuildHttpClientForContext C else True)"
  using assms(1) BuildHttpClientForContext_loaded
  by (auto simp: SalesforceAttach_loaded LookupEntry_loaded ScanInitGlobal_loaded ScanFunction_loaded agg_fetch_loaded
      SalesforceAggregatePushdownOptimize_def Walk_loaded ReportSoqlBind_loaded)

theorem defaults_transparent_witness:
  "ScanInitGlobal (in_instance (LoadInternal (fresh_loader initial_globals)) bare_context) history_external sample_bind [0] sample_state =
   ScanInitGlobal bare_context history_external sample_bind [0] sample_state"
proof -
  have "string_utilities (x_su history_external)" by (simp add: history_external_def ascii.string_utilities_axioms)
  from defaults_transparent [OF this, where g = initial_globals and C = bare_context and b = sample_bind and column_ids = "[0]"]
  show ?thesis by simp
qed

section \<open>The interface DuckDB sees\<close>

text \<open>A documented parameter the function takes: positional, or optional after them, or named.\<close>

definition takes_parameters :: "described_function \<Rightarrow> bool" where
  "takes_parameters df \<longleftrightarrow> length (df_parameter_names df) \<le>
     length (fn_arguments (df_function df)) + (if fn_varargs (df_function df) = None then 0 else 1)"

definition option_wf :: "extension_option \<Rightarrow> bool" where
  "option_wf eo \<longleftrightarrow> \<not> v_IsNull (eo_default eo) \<and> v_type (eo_default eo) = eo_type eo"

lemmas function_defs = GetSalesforceAggregateFunction_def
  GetSalesforceBulkResumeFunction_def GetSalesforceDeletedIdsFunction_def GetSalesforceDescribeFunction_def
  GetSalesforceQueryCostFunction_def GetSalesforcePicklistValuesFunction_def GetSalesforceRecordTypesFunction_def
  GetSalesforceMetadataFieldsFunction_def GetSalesforceMetadataObjectsFunction_def GetSalesforceQueryExplainFunction_def
  GetSalesforceRelationshipGraphFunction_def GetSalesforceUrlEncodeFunction_def GetSalesforceQueryFunction_def
  GetSalesforceLastQuotaFunction_def GetSalesforceRelationshipsFunction_def GetSalesforceReportsFunction_def
  GetSalesforceReportFunction_def GetSalesforceReportSoqlFunction_def GetSalesforceScanUserFunction_def
  GetSalesforceLastSoqlFunction_def GetSalesforceLastScanPagesFunction_def GetSalesforceLastBulkCreateBodyFunction_def
  GetSalesforceLastTransportFunction_def GetSalesforceDescribeCallsFunction_def GetSalesforceToolingCallsFunction_def
  GetSalesforceGlobalDescribeCallsFunction_def GetSalesforceRefreshMetadataFunction_def GetSalesforceDecodeFunction_def
  table_function_def scalar_function_def described_def first_functions_def more_functions_def

lemma functions_distinct: "distinct (map (\<lambda>df. fn_name (df_function df)) (first_functions @ more_functions))"
  by (simp add: function_defs)

lemma options_distinct: "distinct (map eo_name all_options)"
  by (simp add: option_lists extension_option_def)

lemma options_wf: "list_all option_wf all_options"
  by (simp add: option_lists option_wf_def extension_option_def varchar_option_def bigint_value_def boolean_value_def)

lemma undocumented: "map (\<lambda>df. (fn_name (df_function df), df_parameter_names df, map fst (fn_named_parameters (df_function df))))
     (filter (\<lambda>df. \<not> takes_parameters df) (first_functions @ more_functions)) =
   [(''salesforce_scan'', [''catalog'', ''object'', ''where''], [''filter'', ''query_mode'', ''transport'', ''chunks''])]"
  by (simp add: function_defs takes_parameters_def)

lemma loaded_parts: "ld_functions (LoadInternal (fresh_loader g)) = first_functions @ more_functions"
  "ld_globals (LoadInternal (fresh_loader g)) = DiagReset g"
  by (simp_all add: LoadInternal_def fresh_loader_def AddExtensionOptions_def RegisterDescribed_def Let_def)

text \<open>
  What loading registers is consistent. The names of the functions are distinct and so are
  those of the options; every option has a default of its declared type; the diagnostics are
  reset; and every function but one takes as many positional parameters as are documented: for
  \<^verbatim>\<open>salesforce_scan\<close> a third one, \<^verbatim>\<open>where\<close>, is documented, which it takes neither by position nor by
  name (its name is \<^verbatim>\<open>filter\<close>).
\<close>

theorem loaded_interface:
  "let L = LoadInternal (fresh_loader g) in
   distinct (map (\<lambda>df. fn_name (df_function df)) (ld_functions L)) \<and> distinct (map eo_name (ld_options L)) \<and>
   list_all option_wf (ld_options L) \<and> ld_globals L = DiagReset g \<and>
   map (\<lambda>df. (fn_name (df_function df), df_parameter_names df, map fst (fn_named_parameters (df_function df))))
     (filter (\<lambda>df. \<not> takes_parameters df) (ld_functions L)) =
   [(''salesforce_scan'', [''catalog'', ''object'', ''where''], [''filter'', ''query_mode'', ''transport'', ''chunks''])]"
  using functions_distinct options_distinct options_wf undocumented by (simp add: loaded_parts loaded_options Let_def)

end
