(* ===== verification/SF_Time.thy ===== *)
theory SF_Time
  imports SF_Prelude
begin

text \<open>
  The ISO-8601 timestamps of the delete sweep (\<^verbatim>\<open>ParseIsoUtc\<close> and \<^verbatim>\<open>ToIsoUtc\<close> of
  \<^verbatim>\<open>salesforce_delete_sync.cpp\<close>), with the parts of the C and C++ standard library they call:
  \<^verbatim>\<open>sscanf\<close> on a sequence of \<^verbatim>\<open>%d\<close>, \<^verbatim>\<open>timegm\<close>, \<^verbatim>\<open>gmtime_r\<close>, \<^verbatim>\<open>strftime\<close> and the clock's
  conversions. A \<^verbatim>\<open>time_point\<close> is its count of nanoseconds, a 64-bit number: the conversion from
  seconds wraps where the multiplication leaves the range.

  Shown: the calendar of \<^verbatim>\<open>gmtime_r\<close> is inverse to \<^verbatim>\<open>timegm\<close>, and parsing what \<^verbatim>\<open>ToIsoUtc\<close>
  prints gives the second that was printed.
\<close>

section \<open>The calendar\<close>

definition leap :: "int \<Rightarrow> bool" where
  "leap y \<longleftrightarrow> y mod 4 = 0 \<and> (y mod 100 \<noteq> 0 \<or> y mod 400 = 0)"

definition leaps_thru :: "int \<Rightarrow> int" where
  "leaps_thru y = y div 4 - y div 100 + y div 400"

text \<open>The day number of the first of January, counted from 1970.\<close>

definition jan1 :: "int \<Rightarrow> int" where
  "jan1 y = 365 * (y - 1970) + leaps_thru (y - 1) - leaps_thru 1969"

definition mon_yday :: "bool \<Rightarrow> int list" where
  "mon_yday l = (if l then [0, 31, 60, 91, 121, 152, 182, 213, 244, 274, 305, 335]
                 else [0, 31, 59, 90, 120, 151, 181, 212, 243, 273, 304, 334])"

record tm =
  tm_year :: int
  tm_mon :: int
  tm_mday :: int
  tm_hour :: int
  tm_min :: int
  tm_sec :: int

text \<open>\<^verbatim>\<open>timegm\<close>: fields outside their ranges carry over.\<close>

definition timegm :: "tm \<Rightarrow> int" where
  "timegm t =
     (let y = tm_year t + 1900 + tm_mon t div 12;
          days = jan1 y + mon_yday (leap y) ! nat (tm_mon t mod 12) + tm_mday t - 1
      in days * 86400 + tm_hour t * 3600 + tm_min t * 60 + tm_sec t)"

lemma div_pred:
  fixes y k :: int
  assumes "0 < k"
  shows "y div k = (y - 1) div k + of_bool (y mod k = 0)"
proof -
  obtain q r where q: "q = (y - 1) div k" and r: "r = (y - 1) mod k" by blast
  have y: "y = k * q + (r + 1)" unfolding q r by simp
  have b: "0 \<le> r" "r < k" unfolding r using assms by simp_all
  have "y div k = q + of_bool (y mod k = 0)"
  proof (cases "r + 1 = k")
    case True
    then have "y = k * (q + 1)" unfolding y by (simp add: algebra_simps)
    then show ?thesis using assms by simp
  next
    case False
    with b have "y div k = q" "y mod k = r + 1"
      by (intro int_div_pos_eq [OF y] int_mod_pos_eq [OF y], simp_all)+
    with b show ?thesis by simp
  qed
  then show ?thesis by (simp add: q)
qed

lemma leaps_thru_step: "leaps_thru y = leaps_thru (y - 1) + of_bool (leap y)"
proof -
  have nest: "y mod 400 = 0 \<Longrightarrow> y mod 100 = 0" "y mod 100 = 0 \<Longrightarrow> y mod 4 = 0"
    using dvd_trans [of 100 400 y] dvd_trans [of 4 100 y] by (simp_all add: mod_eq_0_iff_dvd)
  obtain a b c p q r :: int where d: "a = of_bool (y mod 4 = 0)" "b = of_bool (y mod 100 = 0)" "c = of_bool (y mod 400 = 0)"
    and e: "p = (y - 1) div 4" "q = (y - 1) div 100" "r = (y - 1) div 400" by blast
  have "y div 4 = p + a" "y div 100 = q + b" "y div 400 = r + c"
    unfolding d e by (rule div_pred, simp)+
  then have "leaps_thru y - leaps_thru (y - 1) = a - b + c" unfolding leaps_thru_def e [symmetric] by simp
  also have "\<dots> = of_bool (leap y)"
    unfolding d using nest by (cases "y mod 400 = 0"; cases "y mod 100 = 0"; cases "y mod 4 = 0") (simp_all add: leap_def)
  finally show ?thesis by simp
qed

lemma jan1_step: "jan1 (y + 1) = jan1 y + (if leap y then 366 else 365)"
  using leaps_thru_step [of y] by (simp add: jan1_def)

lemma jan1_less: "jan1 y + 365 \<le> jan1 (y + 1) \<and> jan1 (y + 1) \<le> jan1 y + 366"
  by (simp add: jan1_step)

text \<open>The year of a day: from a first guess, a year at a time towards it.\<close>

function year_from :: "int \<Rightarrow> int \<Rightarrow> int" where
  "year_from y d =
     (if d < jan1 y then year_from (y - 1) d
      else if jan1 (y + 1) \<le> d then year_from (y + 1) d
      else y)"
  by auto
termination
proof (relation "measure (\<lambda>(y, d). nat (if d < jan1 y then jan1 y - d + 366 else d - jan1 y))")
  fix y d :: int
  assume "d < jan1 y"
  then show "((y - 1, d), y, d) \<in> measure (\<lambda>(y, d). nat (if d < jan1 y then jan1 y - d + 366 else d - jan1 y))"
    using jan1_less [of "y - 1"] by auto
next
  fix y d :: int
  assume "\<not> d < jan1 y" and "jan1 (y + 1) \<le> d"
  then show "((y + 1, d), y, d) \<in> measure (\<lambda>(y, d). nat (if d < jan1 y then jan1 y - d + 366 else d - jan1 y))"
    using jan1_less [of y] by auto
qed simp

declare year_from.simps [simp del]

definition gm_year :: "int \<Rightarrow> int" where
  "gm_year d = year_from (1970 + d div 365) d"

fun month_of :: "int list \<Rightarrow> int \<Rightarrow> nat \<Rightarrow> nat" where
  "month_of ip d 0 = 0"
| "month_of ip d (Suc m) = (if d < ip ! Suc m then month_of ip d m else Suc m)"

definition gmtime_r :: "int \<Rightarrow> tm" where
  "gmtime_r t =
     (let days = t div 86400; rem = t mod 86400; y = gm_year days; ip = mon_yday (leap y);
          yday = days - jan1 y; m = month_of ip yday 11
      in \<lparr> tm_year = y - 1900, tm_mon = int m, tm_mday = yday - ip ! m + 1,
           tm_hour = rem div 3600, tm_min = rem mod 3600 div 60, tm_sec = rem mod 60 \<rparr>)"

lemma year_from_spec: "jan1 (year_from y d) \<le> d \<and> d < jan1 (year_from y d + 1)"
proof (induction y d rule: year_from.induct)
  case (1 y d)
  then show ?case by (subst (1 2) year_from.simps) auto
qed

lemma gm_year_spec: "jan1 (gm_year d) \<le> d \<and> d < jan1 (gm_year d + 1)"
  by (simp add: gm_year_def year_from_spec)

lemma month_of_le: "month_of ip d m \<le> m"
  by (induction m) auto

lemma timegm_gmtime_r: "timegm (gmtime_r t) = t"
proof -
  define m where "m = month_of (mon_yday (leap (gm_year (t div 86400)))) (t div 86400 - jan1 (gm_year (t div 86400))) 11"
  have "m \<le> 11" unfolding m_def by (rule month_of_le)
  then have m: "int m div 12 = 0" "int m mod 12 = int m" by simp_all
  define r where "r = t mod 86400"
  have hms: "r div 3600 * 3600 + r mod 3600 div 60 * 60 + r mod 60 = r"
  proof -
    have "r mod 3600 div 60 * 60 + r mod 3600 mod 60 = r mod 3600" by (rule div_mult_mod_eq)
    moreover have "r mod 3600 mod 60 = r mod 60" by (simp add: mod_mod_cancel)
    ultimately show ?thesis by (metis add.assoc div_mult_mod_eq)
  qed
  have "timegm (gmtime_r t) = t div 86400 * 86400 + (r div 3600 * 3600 + r mod 3600 div 60 * 60 + r mod 60)"
    by (simp add: timegm_def gmtime_r_def Let_def m_def [symmetric] r_def [symmetric] m)
  also have "\<dots> = t" by (simp only: hms) (simp add: r_def)
  finally show ?thesis .
qed

section \<open>Reading and printing\<close>

text \<open>
  One \<^verbatim>\<open>%d\<close> of \<^verbatim>\<open>sscanf\<close>: white space, an optional sign, digits. The conversion is that of
  \<^verbatim>\<open>strtol\<close>, of which the 32-bit target keeps the low bits.
\<close>

definition scan_sign :: "string \<Rightarrow> bool \<times> string" where
  "scan_sign t = (case t of c # r \<Rightarrow> if c = CHR ''-'' then (True, r) else if c = CHR ''+'' then (False, r) else (False, t)
                  | [] \<Rightarrow> (False, t))"

definition scan_int :: "string \<Rightarrow> (int \<times> string) option" where
  "scan_int s =
     (let (neg, u) = scan_sign (dropWhile isspace_c s); ds = takeWhile isdigit u;
          v = (if neg then - int (digits_val ds) else int (digits_val ds))
      in if ds = [] then None else Some (wrap32 (max int64_min (min int64_max v)), dropWhile isdigit u))"

text \<open>\<^verbatim>\<open>sscanf\<close> with \<^verbatim>\<open>%d\<close> fields between literal characters: the fields it assigned.\<close>

fun sscanf_ints :: "string \<Rightarrow> string \<Rightarrow> int list" where
  "sscanf_ints [] s = (case scan_int s of None \<Rightarrow> [] | Some (v, _) \<Rightarrow> [v])"
| "sscanf_ints (c # cs) s =
     (case scan_int s of
        None \<Rightarrow> []
      | Some (v, r) \<Rightarrow> v # (case r of d # r' \<Rightarrow> if d = c then sscanf_ints cs r' else [] | [] \<Rightarrow> []))"

definition scanned :: "int list \<Rightarrow> nat \<Rightarrow> int" where
  "scanned vs i = (if i < length vs then vs ! i else 0)"

definition from_time_t :: "int \<Rightarrow> int" where
  "from_time_t tt = wrap64 (tt * 1000000000)"

definition to_time_t :: "int \<Rightarrow> int" where
  "to_time_t tp = tdiv tp 1000000000"

definition iso_tm :: "int list \<Rightarrow> tm" where
  "iso_tm vs = \<lparr> tm_year = wrap32 (scanned vs 0 - 1900), tm_mon = wrap32 (scanned vs 1 - 1), tm_mday = scanned vs 2,
     tm_hour = scanned vs 3, tm_min = scanned vs 4, tm_sec = scanned vs 5 \<rparr>"

definition iso_text :: "string \<Rightarrow> string" where
  "iso_text value =
     (let v = (if value \<noteq> [] \<and> last value = CHR ''Z'' then butlast value else value)
      in case str_find v '' '' of Some i \<Rightarrow> v[i := CHR ''T''] | None \<Rightarrow> v)"

definition ParseIsoUtc :: "string \<Rightarrow> string \<Rightarrow> int result" where
  "ParseIsoUtc value label =
     (let vs = sscanf_ints ''--T::'' (iso_text value) in
      if length vs < 3 then Inl (BinderException
        (''salesforce_deleted_ids: '' @ label @ '' must be an ISO-8601 timestamp ''
         @ ''(YYYY-MM-DD[THH:MM:SS]); got '' @ [SQ] @ value @ [SQ] @ ''.''))
      else let tt = timegm (iso_tm vs) in
        if tt = - 1 then Inl (BinderException
          (''salesforce_deleted_ids: '' @ label @ '' is not a valid timestamp ('' @ [SQ] @ value @ [SQ] @ '').''))
        else Inr (from_time_t tt))"

definition pad2 :: "int \<Rightarrow> string" where
  "pad2 n = (if n < 10 then CHR ''0'' # show_int n else show_int n)"

text \<open>\<^verbatim>\<open>strftime\<close> with \<^verbatim>\<open>%Y-%m-%dT%H:%M:%SZ\<close>.\<close>

definition strftime_iso :: "tm \<Rightarrow> string" where
  "strftime_iso t =
     show_int (tm_year t + 1900) @ ''-'' @ pad2 (tm_mon t + 1) @ ''-'' @ pad2 (tm_mday t) @ ''T''
     @ pad2 (tm_hour t) @ '':'' @ pad2 (tm_min t) @ '':'' @ pad2 (tm_sec t) @ ''Z''"

definition ToIsoUtc :: "int \<Rightarrow> string" where
  "ToIsoUtc tp = strftime_iso (gmtime_r (to_time_t tp))"

text \<open>Trim an API timestamp to second precision.\<close>

definition NormalizeDeletedDate :: "string \<Rightarrow> string" where
  "NormalizeDeletedDate raw = (if length raw < 19 then raw else take 19 raw)"

section \<open>The round trip\<close>

lemma span_digits:
  assumes "list_all isdigit ds" and "r = [] \<or> \<not> isdigit (hd r)"
  shows "takeWhile isdigit (ds @ r) = ds" "dropWhile isdigit (ds @ r) = r"
  using assms by (auto simp: list_all_iff takeWhile_append takeWhile_eq_Nil_iff dropWhile_append dropWhile_eq_self_iff)

lemma scan_int_digits:
  assumes "list_all isdigit ds" and "ds \<noteq> []" and "r = [] \<or> \<not> isdigit (hd r)" and "int (digits_val ds) \<le> int32_max"
  shows "scan_int (ds @ r) = Some (int (digits_val ds), r)"
proof -
  obtain c cs where ds: "ds = c # cs" using assms(2) by (cases ds) auto
  with assms(1) have c: "isdigit c" by simp
  have skip: "dropWhile isspace_c (ds @ r) = ds @ r" using ds isdigit_sign [OF c] by simp
  have sign: "scan_sign (ds @ r) = (False, ds @ r)" using ds isdigit_sign [OF c] by (simp add: scan_sign_def)
  have b: "wrap32 (max int64_min (min int64_max (int (digits_val ds)))) = int (digits_val ds)"
    using assms(4) by (subst wrap32_id) (simp_all add: int32_max_def int32_min_def int64_max_def int64_min_def)
  show ?thesis
    unfolding scan_int_def skip sign Let_def
    using assms(2) span_digits [OF assms(1,3)] b by simp
qed

lemma show_int_nonneg: "0 \<le> n \<Longrightarrow> show_int n = show_nat (nat n)"
  by (simp add: show_int_def)

lemma scan_int_show:
  assumes "0 \<le> n" and "n \<le> int32_max" and "\<not> isdigit c"
  shows "scan_int (show_int n @ c # r) = Some (n, c # r)"
  using scan_int_digits [of "show_nat (nat n)" "c # r"] assms
  by (simp add: show_int_nonneg show_nat_digits digits_val_show_nat)

lemma pad2_digits:
  assumes "0 \<le> n"
  shows "list_all isdigit (pad2 n)" "pad2 n \<noteq> []" "digits_val (pad2 n) = nat n"
proof -
  have z: "isdigit (CHR ''0'')" "digit_val (CHR ''0'') = 0" by (simp_all add: isdigit_def digit_val_def)
  have lead: "digits_val (CHR ''0'' # ds) = digits_val ds" for ds
    by (simp add: digits_val_def z)
  show "list_all isdigit (pad2 n)" "pad2 n \<noteq> []" "digits_val (pad2 n) = nat n"
    using assms z by (auto simp: pad2_def show_int_nonneg show_nat_digits lead digits_val_show_nat)
qed

lemma scan_int_pad2:
  assumes "0 \<le> n" and "n \<le> int32_max" and "r = [] \<or> \<not> isdigit (hd r)"
  shows "scan_int (pad2 n @ r) = Some (n, r)"
  using scan_int_digits [of "pad2 n" r] pad2_digits [OF assms(1)] assms by simp

lemma sscanf_iso:
  assumes "list_all (\<lambda>n. 0 \<le> n \<and> n \<le> int32_max) [y, mo, d, h, mi, se]"
  shows "sscanf_ints ''--T::'' (show_int y @ ''-'' @ pad2 mo @ ''-'' @ pad2 d @ ''T'' @ pad2 h @ '':'' @ pad2 mi @ '':'' @ pad2 se)
    = [y, mo, d, h, mi, se]"
proof -
  have n: "\<not> isdigit (CHR ''-'')" "\<not> isdigit (CHR ''T'')" "\<not> isdigit (CHR '':'')" by (simp_all add: isdigit_def)
  have e: "scan_int (pad2 se) = Some (se, [])" using scan_int_pad2 [of se "[]"] assms by simp
  show ?thesis using assms n e by (simp add: scan_int_show scan_int_pad2)
qed

lemma month_of_spec: "ip ! 0 \<le> d \<Longrightarrow> ip ! month_of ip d m \<le> d"
  by (induction m) auto

lemma mon_yday_nth: "m \<le> 11 \<Longrightarrow> 0 \<le> mon_yday l ! m" and mon_yday_0: "mon_yday l ! 0 = 0"
proof -
  have "list_all (\<lambda>n. 0 \<le> n) (mon_yday l)" "length (mon_yday l) = 12" by (simp_all add: mon_yday_def)
  then show "m \<le> 11 \<Longrightarrow> 0 \<le> mon_yday l ! m" by (simp add: list_all_length)
qed (simp add: mon_yday_def)

definition tm_ok :: "tm \<Rightarrow> bool" where
  "tm_ok t \<longleftrightarrow> 0 \<le> tm_mon t \<and> tm_mon t \<le> 11 \<and> 1 \<le> tm_mday t \<and> tm_mday t \<le> 366 \<and>
     0 \<le> tm_hour t \<and> tm_hour t \<le> 23 \<and> 0 \<le> tm_min t \<and> tm_min t \<le> 59 \<and> 0 \<le> tm_sec t \<and> tm_sec t \<le> 59"

lemma gmtime_r_ok: "tm_ok (gmtime_r t)"
proof -
  define d where "d = t div 86400"
  define l where "l = leap (gm_year d)"
  define yd where "yd = d - jan1 (gm_year d)"
  define m where "m = month_of (mon_yday l) yd 11"
  define r where "r = t mod 86400"
  have m: "m \<le> 11" unfolding m_def by (rule month_of_le)
  have yd: "0 \<le> yd" "yd < 366"
    unfolding yd_def using gm_year_spec [of d] jan1_less [of "gm_year d"] by linarith+
  have ip: "mon_yday l ! m \<le> yd" "0 \<le> mon_yday l ! m"
    using month_of_spec [of "mon_yday l" yd 11] mon_yday_nth [OF m] yd by (simp_all add: m_def mon_yday_0)
  have "0 \<le> r" "r < 86400" by (simp_all add: r_def)
  then have "0 \<le> r div 3600" "r div 3600 < 24" "0 \<le> r mod 3600 div 60" "r mod 3600 div 60 < 60" "0 \<le> r mod 60" "r mod 60 < 60"
    by (simp_all add: pos_imp_zdiv_nonneg_iff div_less_iff_less_mult mult.commute)
  then have hms: "0 \<le> r div 3600 \<and> r div 3600 \<le> 23 \<and> 0 \<le> r mod 3600 div 60 \<and> r mod 3600 div 60 \<le> 59 \<and>
      0 \<le> r mod 60 \<and> r mod 60 \<le> 59"
    by (simp only: zless_imp_add1_zle) simp
  have "gmtime_r t = \<lparr> tm_year = gm_year d - 1900, tm_mon = int m, tm_mday = yd - mon_yday l ! m + 1,
      tm_hour = r div 3600, tm_min = r mod 3600 div 60, tm_sec = r mod 60 \<rparr>"
    by (simp only: gmtime_r_def Let_def d_def l_def yd_def m_def r_def)
  moreover have "0 \<le> int m \<and> int m \<le> 11" using m by simp
  moreover have "1 \<le> yd - mon_yday l ! m + 1 \<and> yd - mon_yday l ! m + 1 \<le> 366" using yd ip by linarith
  ultimately show ?thesis using hms by (simp only: tm_ok_def tm.simps simp_thms)
qed

lemma leaps_thru_bounds: "x \<le> 0 \<Longrightarrow> leaps_thru x \<le> 1" "0 \<le> x \<Longrightarrow> - 2 \<le> leaps_thru x"
proof -
  have 4: "4 * (x div 4) \<le> x" "x - 3 \<le> 4 * (x div 4)" by linarith+
  have 100: "100 * (x div 100) \<le> x" "x - 99 \<le> 100 * (x div 100)" by linarith+
  have 400: "400 * (x div 400) \<le> x" "x - 399 \<le> 400 * (x div 400)" by linarith+
  obtain a b c where a: "a = x div 4" "b = x div 100" "c = x div 400" by blast
  from 4 100 400 show "x \<le> 0 \<Longrightarrow> leaps_thru x \<le> 1" "0 \<le> x \<Longrightarrow> - 2 \<le> leaps_thru x"
    unfolding leaps_thru_def a [symmetric] by linarith+
qed

lemma year_bounds:
  assumes "- 200000 \<le> d" and "d \<le> 200000"
  shows "0 \<le> gm_year d \<and> gm_year d \<le> 10000"
proof -
  have c: "leaps_thru 1969 = 477" by (simp add: leaps_thru_def)
  define y where "y = gm_year d"
  have j: "jan1 y \<le> d" "d < jan1 (y + 1)" using gm_year_spec [of d] by (simp_all add: y_def)
  have "0 \<le> y"
  proof (rule ccontr)
    assume n: "\<not> 0 \<le> y"
    then have "leaps_thru y \<le> 1" by (intro leaps_thru_bounds(1)) simp
    with n j(2) assms(1) show False by (simp add: jan1_def c)
  qed
  moreover have "y \<le> 10000"
  proof (rule ccontr)
    assume n: "\<not> y \<le> 10000"
    then have "- 2 \<le> leaps_thru (y - 1)" by (intro leaps_thru_bounds(2)) simp
    with n j(1) assms(2) show False by (simp add: jan1_def c)
  qed
  ultimately show ?thesis by (simp add: y_def)
qed

text \<open>A second of the clock's range lies in a year of at most four digits.\<close>

lemma to_time_t_bounds:
  assumes "int64_min \<le> tp" and "tp \<le> int64_max"
  shows "- 9223372037 \<le> to_time_t tp \<and> to_time_t tp \<le> 9223372037"
    and "from_time_t (to_time_t tp) = to_time_t tp * 1000000000"
proof -
  define q where "q = \<bar>tp\<bar> div 1000000000"
  have q: "0 \<le> q" "q * 1000000000 \<le> \<bar>tp\<bar>" unfolding q_def by (simp_all add: pos_imp_zdiv_nonneg_iff)
  have t: "to_time_t tp = (if tp < 0 then - q else q)" by (simp add: to_time_t_def tdiv_def q_def)
  from assms q show "- 9223372037 \<le> to_time_t tp \<and> to_time_t tp \<le> 9223372037"
    unfolding t int64_min_def int64_max_def by (cases "tp < 0") auto
  from assms q show "from_time_t (to_time_t tp) = to_time_t tp * 1000000000"
    unfolding from_time_t_def t by (intro wrap64_id) (auto simp: int64_min_def int64_max_def)
qed

lemma iso_no_space:
  assumes "0 \<le> y" "0 \<le> mo" "0 \<le> d" "0 \<le> h" "0 \<le> mi" "0 \<le> se"
  shows "CHR '' '' \<notin> set (show_int y @ ''-'' @ pad2 mo @ ''-'' @ pad2 d @ ''T'' @ pad2 h @ '':'' @ pad2 mi @ '':'' @ pad2 se)"
proof -
  have sp: "\<not> isdigit (CHR '' '')" by (simp add: isdigit_def)
  have "CHR '' '' \<notin> set (pad2 n)" if "0 \<le> n" for n using pad2_digits(1) [OF that] sp by (auto simp: list_all_iff)
  moreover have "CHR '' '' \<notin> set (show_int y)" using show_nat_digits [of "nat y"] sp assms(1)
    by (auto simp: list_all_iff show_int_nonneg)
  ultimately show ?thesis using assms by simp
qed

lemma str_find_char_None: "str_find s [c] = None \<longleftrightarrow> c \<notin> set s"
  by (induction s) auto

lemma iso_text_strip:
  assumes "CHR '' '' \<notin> set v"
  shows "iso_text (v @ ''Z'') = v"
proof -
  from assms have "str_find v [CHR '' ''] = None" by (simp add: str_find_char_None)
  then show ?thesis by (simp add: iso_text_def)
qed

lemma ParseIso_rt:
  assumes "int64_min \<le> tp" and "tp \<le> int64_max"
  shows "ParseIsoUtc (ToIsoUtc tp) label =
    (if to_time_t tp = - 1
     then Inl (BinderException (''salesforce_deleted_ids: '' @ label @ '' is not a valid timestamp (''
            @ [SQ] @ ToIsoUtc tp @ [SQ] @ '').''))
     else Inr (to_time_t tp * 1000000000))"
proof -
  define t where "t = gmtime_r (to_time_t tp)"
  let ?fs = "[tm_year t + 1900, tm_mon t + 1, tm_mday t, tm_hour t, tm_min t, tm_sec t]"
  have ok: "tm_ok t" unfolding t_def by (rule gmtime_r_ok)
  have "- 200000 \<le> to_time_t tp div 86400" "to_time_t tp div 86400 \<le> 200000"
    using to_time_t_bounds(1) [OF assms] by linarith+
  from year_bounds [OF this] have y: "0 \<le> tm_year t + 1900" "tm_year t + 1900 \<le> 10000"
    by (simp_all add: t_def gmtime_r_def Let_def)
  let ?v = "show_int (tm_year t + 1900) @ ''-'' @ pad2 (tm_mon t + 1) @ ''-'' @ pad2 (tm_mday t) @ ''T''
     @ pad2 (tm_hour t) @ '':'' @ pad2 (tm_min t) @ '':'' @ pad2 (tm_sec t)"
  have "iso_text (?v @ ''Z'') = ?v"
    by (rule iso_text_strip, rule iso_no_space) (use ok y in \<open>simp_all add: tm_ok_def\<close>)
  then have "iso_text (ToIsoUtc tp) = ?v" by (simp add: ToIsoUtc_def strftime_iso_def t_def)
  moreover have "sscanf_ints ''--T::'' ?v = ?fs"
    by (rule sscanf_iso) (use ok y in \<open>simp add: tm_ok_def int32_max_def\<close>)
  moreover have "iso_tm ?fs = t"
    using ok y by (simp add: iso_tm_def scanned_def tm_ok_def wrap32_id int32_min_def int32_max_def)
  moreover have "timegm t = to_time_t tp" by (simp add: t_def timegm_gmtime_r)
  ultimately show ?thesis
    using to_time_t_bounds(2) [OF assms] by (simp add: ParseIsoUtc_def Let_def)
qed

text \<open>
  C26: timestamps survive the round trip. For every time point of the clock's 64-bit range, parsing
  the text that \<^verbatim>\<open>ToIsoUtc\<close> prints gives back that time point at second precision, through the
  calendar in both directions; the one second before 1970, which \<^verbatim>\<open>timegm\<close> cannot tell from its
  error value, is refused.
\<close>

theorem ParseIsoUtc_ToIsoUtc:
  assumes "int64_min \<le> tp" and "tp \<le> int64_max"
  shows "ParseIsoUtc (ToIsoUtc tp) label =
    (if to_time_t tp = - 1
     then Inl (BinderException (''salesforce_deleted_ids: '' @ label @ '' is not a valid timestamp (''
            @ [SQ] @ ToIsoUtc tp @ [SQ] @ '').''))
     else Inr (to_time_t tp * 1000000000))"
  by (rule ParseIso_rt [OF assms])

theorem ParseIsoUtc_ToIsoUtc_witness:
  "ToIsoUtc 1790858096123456789 = ''2026-10-01T12:34:56Z'' \<and>
   ParseIsoUtc (ToIsoUtc 1790858096123456789) ''since'' = Inr 1790858096000000000"
proof
  show "ToIsoUtc 1790858096123456789 = ''2026-10-01T12:34:56Z''" by code_simp
  have "to_time_t 1790858096123456789 = 1790858096" by code_simp
  with ParseIsoUtc_ToIsoUtc [of 1790858096123456789 "''since''"]
  show "ParseIsoUtc (ToIsoUtc 1790858096123456789) ''since'' = Inr 1790858096000000000"
    by (simp add: int64_min_def int64_max_def)
qed

end
