(* ===== verification/SF_DeleteSync.thy ===== *)
theory SF_DeleteSync
  imports SF_Functions SF_Time
begin

text \<open>
  The delete sweep (\<^verbatim>\<open>salesforce_delete_sync.cpp\<close>): the bind of \<^verbatim>\<open>salesforce_deleted_ids\<close> with its
  time window, the two sources, and the table function. The clock's reading, DuckDB's
  \<^verbatim>\<open>StringUtil::URLEncode\<close> and the text \<^verbatim>\<open>what()\<close> of an exception are parameters.

  Shown: the window is well formed, the replication sweep returns each deleted id once and is the
  first-occurrence reading of the slices it walks, and the loop ends within its bound.
\<close>

section \<open>State\<close>

definition kGetDeletedMaxLoops :: nat where "kGetDeletedMaxLoops = 10000"
definition kQueryAllMaxPages :: nat where "kQueryAllMaxPages = 100000"

record DeletedIdsBindData =
  di_alias :: string
  di_object :: string
  di_since :: string
  di_until :: string
  di_source :: string

record DeletedIdsGlobalState =
  dg_api_version :: string
  dg_rows :: "(string \<times> string) list"
  dg_source :: string
  dg_latest_covered :: string
  dg_latest_covered_tp :: int
  dg_loaded :: bool
  dg_failed :: bool
  dg_error :: string
  dg_cursor :: nat

section \<open>Bind\<close>

definition time_arg :: "(string \<Rightarrow> Value option) \<Rightarrow> string \<Rightarrow> int \<Rightarrow> int result" where
  "time_arg named key dflt = (case given named key of None \<Rightarrow> Inr dflt | Some v \<Rightarrow> ParseIsoUtc (v_ToString v) key)"

definition source_arg :: "string_util \<Rightarrow> (string \<Rightarrow> Value option) \<Rightarrow> string result" where
  "source_arg D named =
     (case given named ''source'' of
        None \<Rightarrow> Inr ''getDeleted''
      | Some v \<Rightarrow>
          let m = su_Lower D (v_ToString v) in
          if m \<noteq> ''getdeleted'' \<and> m \<noteq> ''queryall'' then Inl (BinderException
            (''salesforce_deleted_ids: source must be '' @ [SQ] @ ''getDeleted'' @ [SQ] @ '' or ''
             @ [SQ] @ ''queryAll'' @ [SQ] @ '' (got '' @ [SQ] @ v_ToString v @ [SQ] @ '').''))
          else Inr (if m = ''queryall'' then ''queryAll'' else ''getDeleted''))"

definition DeletedIdsBind ::
  "string_util \<Rightarrow> int \<Rightarrow> Value list \<Rightarrow> (string \<Rightarrow> Value option) \<Rightarrow> DeletedIdsBindData result" where
  "DeletedIdsBind D now inputs named =
     (if length inputs \<noteq> 2 then Inl (BinderException
        (''salesforce_deleted_ids(catalog, object) takes exactly 2 arguments ''
         @ ''(since/until/source are named parameters).''))
      else if list_ex v_IsNull inputs then Inl (BinderException ''salesforce_deleted_ids: arguments must not be NULL.'')
      else let alias = su_Lower D (v_ToString (inputs ! 0)); object = su_Upper D (v_ToString (inputs ! 1)) in
        if \<not> safe_object_name object
        then Inl (BinderException (''salesforce_deleted_ids: '' @ [SQ] @ object @ [SQ] @ '' is not a valid sObject name.''))
        else rbind (time_arg named ''since'' (now - 15 * 60 * 1000000000)) (\<lambda>since_tp.
             rbind (time_arg named ''until'' now) (\<lambda>until_tp.
             if since_tp \<ge> until_tp then Inl (BinderException
               (''salesforce_deleted_ids: '' @ [SQ] @ ''since'' @ [SQ] @ '' must be earlier than '' @ [SQ] @ ''until'' @ [SQ] @ ''.''))
             else rbind (source_arg D named) (\<lambda>src.
               Inr \<lparr> di_alias = alias, di_object = object, di_since = ToIsoUtc since_tp,
                     di_until = ToIsoUtc until_tp, di_source = src \<rparr>))))"

definition DeletedIdsInit ::
  "(string \<Rightarrow> attached option) \<Rightarrow> DeletedIdsBindData \<Rightarrow> ('c, DeletedIdsGlobalState) sess" where
  "DeletedIdsInit A b =
     bnd (of_result (GetSalesforceCatalogCredentials A (di_alias b))) (\<lambda>ct.
     bnd (session_do (\<lambda>_. SetToken (snd ct) (new_session (fst ct)))) (\<lambda>_.
     ret \<lparr> dg_api_version = api_version (fst ct), dg_rows = [], dg_source = di_source b, dg_latest_covered = [],
           dg_latest_covered_tp = 0, dg_loaded = False, dg_failed = False, dg_error = [], dg_cursor = 0 \<rparr>))"

section \<open>The replication sweep\<close>

definition slice_records :: "string \<Rightarrow> (string \<times> string) list" where
  "slice_records bd =
     map (\<lambda>rec. (GetString rec ''id'', NormalizeDeletedDate (GetString rec ''deletedDate''))) (GetObjectArray bd ''deletedRecords'')"

fun take_unseen :: "string set \<Rightarrow> (string \<times> string) list \<Rightarrow> string set \<times> (string \<times> string) list" where
  "take_unseen seen [] = (seen, [])"
| "take_unseen seen (r # rs) =
     (if fst r \<in> seen then take_unseen seen rs
      else case take_unseen (insert (fst r) seen) rs of (seen', out) \<Rightarrow> (seen', r # out))"

definition add_slice :: "string set \<Rightarrow> string \<Rightarrow> DeletedIdsGlobalState \<Rightarrow> string set \<times> DeletedIdsGlobalState" where
  "add_slice seen bd g =
     (case take_unseen seen (slice_records bd) of (seen', new) \<Rightarrow> (seen', g \<lparr> dg_rows := dg_rows g @ new \<rparr>))"

definition cover :: "int \<Rightarrow> string \<Rightarrow> DeletedIdsGlobalState \<Rightarrow> DeletedIdsGlobalState" where
  "cover tp text g =
     (if tp > dg_latest_covered_tp g
      then g \<lparr> dg_latest_covered_tp := tp, dg_latest_covered := NormalizeDeletedDate text \<rparr> else g)"

definition deleted_path :: "string \<Rightarrow> string \<Rightarrow> int \<Rightarrow> int \<Rightarrow> string" where
  "deleted_path ver object since until =
     ''/services/data/'' @ ver @ ''/sobjects/'' @ object @ ''/deleted/?start='' @ ToIsoUtc since @ ''&end='' @ ToIsoUtc until"

text \<open>How far the answer says it got: nothing, a text that does not parse, or a time point.\<close>

definition covered_to :: "string \<Rightarrow> int result option" where
  "covered_to bd =
     (let covered = GetString bd ''latestDateCovered'' in
      if covered = [] then None else Some (ParseIsoUtc (NormalizeDeletedDate covered @ ''Z'') ''latestDateCovered''))"

text \<open>
  The loop. The global state is threaded beside the outcome, because the rows and the frontier a
  failing slice leaves behind stay in it; the first number is what is left of the loop bound.
\<close>

fun get_deleted_loop ::
  "'c external \<Rightarrow> string \<Rightarrow> int \<Rightarrow> nat \<Rightarrow> int \<Rightarrow> string set \<Rightarrow> DeletedIdsGlobalState \<Rightarrow>
     'c sworld \<Rightarrow> (unit result \<times> DeletedIdsGlobalState) \<times> 'c sworld" where
  "get_deleted_loop X object until 0 since seen g s = ((Inr (), g), s)"
| "get_deleted_loop X object until (Suc left) since seen g s =
     (if \<not> since < until then ((Inr (), g), s)
      else case AuthorizedGet X (deleted_path (dg_api_version g) object since until) s of
        (Inl e, s1) \<Rightarrow> ((Inl e, g), s1)
      | (Inr bd, s1) \<Rightarrow>
          let (seen1, g1) = add_slice seen bd g in
          (case covered_to bd of
            None \<Rightarrow> ((Inr (), g1), s1)
          | Some (Inl e) \<Rightarrow> ((Inl e, g1), s1)
          | Some (Inr tp) \<Rightarrow>
              let g2 = cover tp (GetString bd ''latestDateCovered'') g1 in
              if tp \<le> since \<or> tp \<ge> until then ((Inr (), g2), s1)
              else get_deleted_loop X object until left tp seen1 g2 s1))"

definition LoadViaGetDeleted ::
  "'c external \<Rightarrow> DeletedIdsBindData \<Rightarrow> DeletedIdsGlobalState \<Rightarrow> 'c sworld \<Rightarrow>
     (unit result \<times> DeletedIdsGlobalState) \<times> 'c sworld" where
  "LoadViaGetDeleted X b g s =
     (case (ParseIsoUtc (di_since b) ''since'', ParseIsoUtc (di_until b) ''until'') of
        (Inl e, _) \<Rightarrow> ((Inl e, g), s)
      | (Inr _, Inl e) \<Rightarrow> ((Inl e, g), s)
      | (Inr since, Inr until) \<Rightarrow> get_deleted_loop X (di_object b) until kGetDeletedMaxLoops since {} g s)"

section \<open>The queryAll sweep\<close>

definition sweep_soql :: "DeletedIdsBindData \<Rightarrow> string" where
  "sweep_soql b = ''SELECT Id FROM '' @ di_object b @ '' WHERE IsDeleted = true AND SystemModstamp >= '' @ di_since b"

definition sweep_exceeded :: sf_error where
  "sweep_exceeded = IOException (''salesforce_deleted_ids: queryAll sweep exceeded '' @ show_nat kQueryAllMaxPages @ '' pages; ''
     @ ''narrow the window (source := '' @ [SQ] @ ''getDeleted'' @ [SQ] @ '' with shorter since/until).'')"

fun query_all_loop ::
  "'c external \<Rightarrow> nat \<Rightarrow> string \<Rightarrow> DeletedIdsGlobalState \<Rightarrow> 'c sworld \<Rightarrow>
     (unit result \<times> DeletedIdsGlobalState) \<times> 'c sworld" where
  "query_all_loop X 0 next g s = ((Inl sweep_exceeded, g), s)"
| "query_all_loop X (Suc left) next g s =
     (case FetchPage X next s of
        (Inl e, s1) \<Rightarrow> ((Inl e, g), s1)
      | (Inr pg, s1) \<Rightarrow>
          let g1 = g \<lparr> dg_rows := dg_rows g @ map (\<lambda>rec. (GetString rec ''Id'', [])) (pg_records pg) \<rparr> in
          if pg_done pg \<or> pg_next_path pg = [] then ((Inr (), g1), s1)
          else query_all_loop X left (pg_next_path pg) g1 s1)"

definition LoadViaQueryAll ::
  "(string \<Rightarrow> string) \<Rightarrow> 'c external \<Rightarrow> DeletedIdsBindData \<Rightarrow> DeletedIdsGlobalState \<Rightarrow> 'c sworld \<Rightarrow>
     (unit result \<times> DeletedIdsGlobalState) \<times> 'c sworld" where
  "LoadViaQueryAll URLEncode X b g s =
     query_all_loop X kQueryAllMaxPages
       (''/services/data/'' @ dg_api_version g @ ''/queryAll/?q='' @ URLEncode (sweep_soql b)) g s"

section \<open>The table function\<close>

definition nonempty_cell :: "string \<Rightarrow> cell" where
  "nonempty_cell t = (if t = [] then CNull else CVarchar t)"

definition deleted_row :: "DeletedIdsGlobalState \<Rightarrow> string \<times> string \<Rightarrow> cell list" where
  "deleted_row g r = [CVarchar (fst r), nonempty_cell (snd r), CVarchar (dg_source g), nonempty_cell (dg_latest_covered g)]"

definition load_deleted ::
  "(string \<Rightarrow> string) \<Rightarrow> (sf_error \<Rightarrow> string) \<Rightarrow> 'c external \<Rightarrow> DeletedIdsBindData \<Rightarrow> DeletedIdsGlobalState \<Rightarrow> 'c sworld \<Rightarrow>
     (unit result \<times> DeletedIdsGlobalState) \<times> 'c sworld" where
  "load_deleted URLEncode what X b g s =
     (let g0 = g \<lparr> dg_loaded := True, dg_source := di_source b \<rparr> in
      case (if di_source b = ''getDeleted'' then LoadViaGetDeleted X b g0 s else LoadViaQueryAll URLEncode X b g0 s) of
        ((Inr u, g1), s1) \<Rightarrow> ((Inr (), g1), s1)
      | ((Inl e, g1), s1) \<Rightarrow>
          ((Inl (IOException (''salesforce_deleted_ids failed for '' @ [SQ] @ di_object b @ [SQ] @ '' ('' @ di_source b @ '' ''
              @ di_since b @ '' -> '' @ di_until b @ ''): '' @ what e)),
            g1 \<lparr> dg_failed := True, dg_error := what e \<rparr>), s1))"

definition emit_deleted :: "DeletedIdsGlobalState \<Rightarrow> nat \<Rightarrow> nat \<Rightarrow> cell list list \<times> nat" where
  "emit_deleted g = emit_rows (deleted_row g) (dg_rows g)"

definition DeletedIdsFunction ::
  "(string \<Rightarrow> string) \<Rightarrow> (sf_error \<Rightarrow> string) \<Rightarrow> 'c external \<Rightarrow> nat \<Rightarrow> DeletedIdsBindData \<Rightarrow> DeletedIdsGlobalState \<Rightarrow> 'c sworld \<Rightarrow>
     (cell list list result \<times> DeletedIdsGlobalState) \<times> 'c sworld" where
  "DeletedIdsFunction URLEncode what X vector_size b g s =
     (case (if dg_loaded g then ((Inr (), g), s) else load_deleted URLEncode what X b g s) of
        ((Inl e, g1), s1) \<Rightarrow> ((Inl e, g1), s1)
      | ((Inr u, g1), s1) \<Rightarrow>
          (case emit_deleted g1 vector_size (dg_cursor g1) of
             (rows, c) \<Rightarrow> ((Inr rows, g1 \<lparr> dg_cursor := c \<rparr>), s1)))"

interpretation deleted: row_cursor "emit_deleted g" "\<lambda>cursor. map (deleted_row g) (drop cursor (dg_rows g))" for g
  unfolding emit_deleted_def by (rule list_cursor.row_cursor_axioms)

section \<open>Each id once\<close>

definition ids :: "(string \<times> string) list \<Rightarrow> string set" where
  "ids rs = fst ` set rs"

lemma take_unseen_spec:
  "take_unseen seen rs = (seen', out) \<Longrightarrow>
     seen' = seen \<union> ids rs \<and> distinct (map fst out) \<and> ids out = ids rs - seen \<and> subseq out rs"
proof (induction seen rs arbitrary: seen' out rule: take_unseen.induct)
  case (1 seen)
  then show ?case by (simp add: ids_def)
next
  case (2 seen r rs)
  show ?case
  proof (cases "fst r \<in> seen")
    case True
    with 2(3) 2(1) [OF True, of seen' out] show ?thesis by (auto simp: ids_def)
  next
    case False
    obtain seen1 out1 where t: "take_unseen (insert (fst r) seen) rs = (seen1, out1)" by fastforce
    with 2(3) False have e: "seen' = seen1" "out = r # out1" by simp_all
    from 2(2) [OF False t] have h: "seen1 = insert (fst r) seen \<union> ids rs" "distinct (map fst out1)"
      "ids out1 = ids rs - insert (fst r) seen" "subseq out1 rs" by simp_all
    from h(3) have "fst r \<notin> set (map fst out1)" by (auto simp: ids_def)
    with h False show ?thesis by (auto simp: e ids_def)
  qed
qed

text \<open>What the loop keeps: the ids it has seen are the ids of its rows, each of which is there once.\<close>

definition swept :: "string set \<Rightarrow> DeletedIdsGlobalState \<Rightarrow> bool" where
  "swept seen g \<longleftrightarrow> seen = ids (dg_rows g) \<and> distinct (map fst (dg_rows g))"

lemma cover_rows [simp]:
  "dg_rows (cover tp t g) = dg_rows g" "swept seen (cover tp t g) = swept seen g"
  "dg_api_version (cover tp t g) = dg_api_version g" "dg_loaded (cover tp t g) = dg_loaded g"
  "dg_cursor (cover tp t g) = dg_cursor g"
  by (simp_all add: cover_def swept_def)

lemma add_slice_spec:
  assumes "add_slice seen bd g = (seen', g')" and "swept seen g"
  shows "swept seen' g' \<and> seen' = seen \<union> ids (slice_records bd) \<and> dg_api_version g' = dg_api_version g \<and>
    dg_loaded g' = dg_loaded g \<and> dg_cursor g' = dg_cursor g \<and>
    (\<exists>new. dg_rows g' = dg_rows g @ new \<and> subseq new (slice_records bd))"
proof -
  obtain new where t: "take_unseen seen (slice_records bd) = (seen', new)" and g': "g' = g \<lparr> dg_rows := dg_rows g @ new \<rparr>"
    using assms(1) by (auto simp: add_slice_def split: prod.splits)
  from take_unseen_spec [OF t] assms(2) show ?thesis
    by (auto simp: g' swept_def ids_def)
qed

lemma get_deleted_loop_swept:
  assumes "get_deleted_loop X object until left since seen g s = ((r, g'), s')" and "swept seen g"
  shows "(\<exists>seen'. swept seen' g') \<and> dg_loaded g' = dg_loaded g \<and> dg_cursor g' = dg_cursor g \<and> prefix (dg_rows g) (dg_rows g')"
  using assms
proof (induction left arbitrary: since seen g s)
  case 0
  then show ?case by auto
next
  case (Suc left)
  obtain r1 s1 where a: "AuthorizedGet X (deleted_path (dg_api_version g) object since until) s = (r1, s1)" by fastforce
  show ?case
  proof (cases "since < until \<and> \<not> isl r1")
    case False
    with Suc.prems a show ?thesis by (cases r1) (auto split: if_splits)
  next
    case True
    then obtain bd where bd: "r1 = Inr bd" "since < until" by (cases r1) auto
    obtain seen1 g1 where ad: "add_slice seen bd g = (seen1, g1)" by fastforce
    from add_slice_spec [OF ad Suc.prems(2)] have g1: "swept seen1 g1" "dg_loaded g1 = dg_loaded g" "dg_cursor g1 = dg_cursor g"
      "prefix (dg_rows g) (dg_rows g1)" by auto
    show ?thesis
    proof (cases "\<exists>tp. covered_to bd = Some (Inr tp) \<and> since < tp \<and> tp < until")
      case False
      with Suc.prems(1) a bd ad g1 show ?thesis
        by (auto simp: Let_def not_le split: option.splits sum.splits if_splits)
    next
      case True
      then obtain tp where tp: "covered_to bd = Some (Inr tp)" "since < tp" "tp < until" by blast
      with Suc.prems(1) a bd ad
      have "get_deleted_loop X object until left tp seen1 (cover tp (GetString bd ''latestDateCovered'') g1) s1 = ((r, g'), s')"
        by (simp add: Let_def)
      from Suc.IH [OF this] g1 show ?thesis by (auto intro: prefix_order.trans)
    qed
  qed
qed

section \<open>The invariant of the table function\<close>

definition deleted_ok :: "DeletedIdsBindData \<Rightarrow> DeletedIdsGlobalState \<Rightarrow> bool" where
  "deleted_ok b g \<longleftrightarrow> (di_source b = ''getDeleted'' \<longrightarrow> distinct (map fst (dg_rows g))) \<and>
     dg_cursor g \<le> length (dg_rows g) \<and> (dg_loaded g \<or> dg_rows g = [])"

lemma query_all_loop_keeps:
  "query_all_loop X left path g s = ((r, g'), s') \<Longrightarrow>
     dg_loaded g' = dg_loaded g \<and> dg_cursor g' = dg_cursor g \<and> prefix (dg_rows g) (dg_rows g')"
proof (induction left arbitrary: path g s)
  case (Suc left)
  obtain r1 s1 where f: "FetchPage X path s = (r1, s1)" by fastforce
  show ?case
  proof (cases r1)
    case (Inl e)
    with Suc.prems f show ?thesis by auto
  next
    case (Inr pg)
    let ?g1 = "g \<lparr> dg_rows := dg_rows g @ map (\<lambda>rec. (GetString rec ''Id'', [])) (pg_records pg) \<rparr>"
    show ?thesis
    proof (cases "pg_done pg \<or> pg_next_path pg = []")
      case True
      with Suc.prems f Inr show ?thesis by (auto simp: Let_def)
    next
      case False
      with Suc.prems f Inr have "query_all_loop X left (pg_next_path pg) ?g1 s1 = ((r, g'), s')" by (simp add: Let_def)
      from Suc.IH [OF this] show ?thesis by (auto intro: prefix_order.trans [of _ "dg_rows g @ _"])
    qed
  qed
qed auto

lemma LoadViaGetDeleted_keeps:
  assumes "LoadViaGetDeleted X b g s = ((r, g'), s')" and "dg_rows g = []"
  shows "distinct (map fst (dg_rows g')) \<and> dg_loaded g' = dg_loaded g \<and> dg_cursor g' = dg_cursor g"
proof (cases "\<exists>since until. ParseIsoUtc (di_since b) ''since'' = Inr since \<and> ParseIsoUtc (di_until b) ''until'' = Inr until")
  case True
  then obtain since until where "get_deleted_loop X (di_object b) until kGetDeletedMaxLoops since {} g s = ((r, g'), s')"
    using assms(1) by (auto simp: LoadViaGetDeleted_def)
  from get_deleted_loop_swept [OF this] assms(2) show ?thesis by (auto simp: swept_def ids_def)
next
  case False
  with assms show ?thesis by (auto simp: LoadViaGetDeleted_def split: sum.splits)
qed

lemma load_deleted_keeps:
  assumes "load_deleted URLEncode what X b g s = ((r, g'), s')" and "dg_rows g = []" and "dg_cursor g = 0"
  shows "deleted_ok b g' \<and> dg_cursor g' = 0"
proof -
  let ?g0 = "g \<lparr> dg_loaded := True, dg_source := di_source b \<rparr>"
  let ?m = "if di_source b = ''getDeleted'' then LoadViaGetDeleted X b ?g0 s else LoadViaQueryAll URLEncode X b ?g0 s"
  obtain r1 g1 s1 where m: "?m = ((r1, g1), s1)" by (metis prod.exhaust)
  have "(di_source b = ''getDeleted'' \<longrightarrow> distinct (map fst (dg_rows g1))) \<and> dg_loaded g1 \<and> dg_cursor g1 = 0"
    using m assms(2,3) LoadViaGetDeleted_keeps [of X b ?g0 s r1 g1 s1]
      query_all_loop_keeps [of X kQueryAllMaxPages _ ?g0 s r1 g1 s1]
    by (fastforce simp: LoadViaQueryAll_def split: if_splits)
  moreover have "dg_rows g' = dg_rows g1 \<and> dg_loaded g' = dg_loaded g1 \<and> dg_cursor g' = dg_cursor g1"
    using assms(1) m by (auto simp: load_deleted_def Let_def split: sum.splits)
  ultimately show ?thesis by (simp add: deleted_ok_def)
qed

text \<open>
  No deletion is reported twice. From the state that the init makes, whatever the server
  answers and whether a call returns or throws, the replication sweep holds each id once, the
  cursor stays inside the rows and the rows are loaded by the first call only.
\<close>

theorem DeletedIdsFunction_keeps:
  assumes "deleted_ok b g" and "DeletedIdsFunction URLEncode what X vector_size b g s = ((r, g'), s')"
  shows "deleted_ok b g' \<and> (dg_loaded g \<longrightarrow> dg_rows g' = dg_rows g \<and> s' = s)"
proof -
  obtain r1 g1 s1 where l: "(if dg_loaded g then ((Inr (), g), s) else load_deleted URLEncode what X b g s) = ((r1, g1), s1)"
    by (metis prod.exhaust)
  have ok: "deleted_ok b g1"
  proof (cases "dg_loaded g")
    case True
    with l assms(1) show ?thesis by simp
  next
    case False
    with assms(1) have "dg_rows g = []" "dg_cursor g = 0" by (auto simp: deleted_ok_def)
    with load_deleted_keeps [of URLEncode what X b g s r1 g1 s1] l False show ?thesis by simp
  qed
  have step: "(r1 = Inr () \<and> (\<exists>rows c. emit_deleted g1 vector_size (dg_cursor g1) = (rows, c) \<and> g' = g1 \<lparr> dg_cursor := c \<rparr>)
      \<or> g' = g1) \<and> s' = s1"
    using assms(2) l by (auto simp: DeletedIdsFunction_def split: sum.splits prod.splits)
  have "deleted_ok b g'"
  proof (cases "g' = g1")
    case True
    with ok show ?thesis by simp
  next
    case False
    with step obtain rows c where e: "emit_deleted g1 vector_size (dg_cursor g1) = (rows, c)" "g' = g1 \<lparr> dg_cursor := c \<rparr>" by blast
    then have "c \<le> length (dg_rows g1)"
      using ok by (auto simp: emit_deleted_def emit_rows_def Let_def deleted_ok_def)
    with ok e(2) show ?thesis by (simp add: deleted_ok_def)
  qed
  moreover have "dg_loaded g \<Longrightarrow> dg_rows g' = dg_rows g \<and> s' = s"
    using l step by auto
  ultimately show ?thesis by blast
qed

section \<open>The sweep is complete\<close>

text \<open>
  The slices a server serves for a window: the body of each resume point, until one of them says
  nothing, does not progress or reaches the end of the window.
\<close>

inductive slices :: "(int \<Rightarrow> string) \<Rightarrow> int \<Rightarrow> int \<Rightarrow> string list \<Rightarrow> bool" for B until where
  last_slice: "since < until \<Longrightarrow> covered_to (B since) = None \<or>
      (\<exists>tp. covered_to (B since) = Some (Inr tp) \<and> (tp \<le> since \<or> until \<le> tp)) \<Longrightarrow> slices B until since [B since]"
| next_slice: "since < until \<Longrightarrow> covered_to (B since) = Some (Inr tp) \<Longrightarrow> since < tp \<Longrightarrow> tp < until \<Longrightarrow>
    slices B until tp bodies \<Longrightarrow> slices B until since (B since # bodies)"

lemma AuthorizedGet_static:
  "AuthorizedGet (static_server content X) path s =
     (Inr (content (TrimTrailingSlash (instance_url (s_token (w_session s))) @ path)),
      s \<lparr> w_outside := w_outside s @ [resource_call False path [] (s_token (w_session s))] \<rparr>)"
  by (simp add: AuthorizedGet_def bnd_run AuthorizedSend_static ok_response_def sfm_run)

definition served_slice :: "(string \<Rightarrow> string) \<Rightarrow> SalesforceTokenSet \<Rightarrow> string \<Rightarrow> string \<Rightarrow> int \<Rightarrow> int \<Rightarrow> string" where
  "served_slice content tok ver object until since =
     content (TrimTrailingSlash (instance_url tok) @ deleted_path ver object since until)"

definition all_slices :: "string list \<Rightarrow> (string \<times> string) list" where
  "all_slices bodies = concat (map slice_records bodies)"

lemma slices_walk:
  assumes "slices (served_slice content tok ver object until) until since bodies" and "length bodies \<le> left"
    and "dg_api_version g = ver" and "holds_token tok s" and "swept seen g"
  shows "\<exists>g' s' new. get_deleted_loop (static_server content X) object until left since seen g s = ((Inr (), g'), s') \<and>
    dg_rows g' = dg_rows g @ new \<and> subseq new (all_slices bodies) \<and> swept (seen \<union> ids (all_slices bodies)) g' \<and>
    length (w_outside s') = length (w_outside s) + length bodies"
  using assms
proof (induction arbitrary: left seen g s rule: slices.induct)
  case (last_slice since)
  let ?bd = "served_slice content tok ver object until since"
  obtain left' where l: "left = Suc left'" using last_slice.prems(1) by (cases left) auto
  obtain seen1 g1 where ad: "add_slice seen ?bd g = (seen1, g1)" by fastforce
  from add_slice_spec [OF ad last_slice.prems(4)] obtain new where
    n: "swept seen1 g1" "seen1 = seen \<union> ids (slice_records ?bd)" "dg_rows g1 = dg_rows g @ new" "subseq new (slice_records ?bd)"
    by blast
  have get: "AuthorizedGet (static_server content X) (deleted_path (dg_api_version g) object since until) s =
      (Inr ?bd, s \<lparr> w_outside := w_outside s @ [resource_call False (deleted_path ver object since until) [] tok] \<rparr>)"
    using last_slice.prems(2,3) by (simp add: AuthorizedGet_static served_slice_def holds_token_def)
  have "\<exists>g' s'. get_deleted_loop (static_server content X) object until left since seen g s = ((Inr (), g'), s') \<and>
      dg_rows g' = dg_rows g1 \<and> swept seen1 g' \<and> length (w_outside s') = length (w_outside s) + 1"
    using last_slice.hyps(1,2) n(1) ad get l by (auto simp: Let_def)
  with n show ?case by (auto simp: all_slices_def)
next
  case (next_slice since tp bodies)
  let ?bd = "served_slice content tok ver object until since"
  obtain left' where l: "left = Suc left'" "length bodies \<le> left'" using next_slice.prems(1) by (cases left) auto
  obtain seen1 g1 where ad: "add_slice seen ?bd g = (seen1, g1)" by fastforce
  from add_slice_spec [OF ad next_slice.prems(4)] obtain new where
    n: "swept seen1 g1" "seen1 = seen \<union> ids (slice_records ?bd)" "dg_rows g1 = dg_rows g @ new" "subseq new (slice_records ?bd)"
      "dg_api_version g1 = dg_api_version g"
    by blast
  define s1 where "s1 = s \<lparr> w_outside := w_outside s @ [resource_call False (deleted_path ver object since until) [] tok] \<rparr>"
  define g2 where "g2 = cover tp (GetString ?bd ''latestDateCovered'') g1"
  have get: "AuthorizedGet (static_server content X) (deleted_path (dg_api_version g) object since until) s = (Inr ?bd, s1)"
    using next_slice.prems(2,3) by (simp add: AuthorizedGet_static served_slice_def holds_token_def s1_def)
  have run: "get_deleted_loop (static_server content X) object until left since seen g s =
      get_deleted_loop (static_server content X) object until left' tp seen1 g2 s1"
    using next_slice.hyps ad get l(1) by (simp add: Let_def g2_def)
  have "dg_api_version g2 = ver" "holds_token tok s1" "swept seen1 g2"
    using next_slice.prems(2,3) n by (simp_all add: g2_def s1_def holds_token_def)
  from next_slice.IH [OF l(2) this] obtain g' s' more' where
    r: "get_deleted_loop (static_server content X) object until left' tp seen1 g2 s1 = ((Inr (), g'), s')"
      "dg_rows g' = dg_rows g2 @ more'" "subseq more' (all_slices bodies)" "swept (seen1 \<union> ids (all_slices bodies)) g'"
      "length (w_outside s') = length (w_outside s1) + length bodies" by blast
  from r n have "dg_rows g' = dg_rows g @ (new @ more') \<and> subseq (new @ more') (all_slices (?bd # bodies)) \<and>
      swept (seen \<union> ids (all_slices (?bd # bodies))) g' \<and> length (w_outside s') = length (w_outside s) + length (?bd # bodies)"
    by (auto simp: all_slices_def g2_def s1_def ids_def Un_assoc image_Un intro: list_emb_append_mono)
  then show ?case unfolding run r(1) by blast
qed

text \<open>
  C24: the replication sweep loses nothing and repeats nothing. When the slices that the server
  serves for the window number at most the loop bound, the load succeeds with one request per
  slice; its rows are rows of those slices in their order, their ids are pairwise distinct, and
  every id of every slice is among them.
\<close>

theorem LoadViaGetDeleted_complete:
  assumes "ParseIsoUtc (di_since b) ''since'' = Inr since" and "ParseIsoUtc (di_until b) ''until'' = Inr until"
    and "slices (served_slice content (s_token (w_session s)) (dg_api_version g) (di_object b) until) until since bodies"
    and "length bodies \<le> 10000" and "dg_rows g = []"
  shows "\<exists>g' s'. LoadViaGetDeleted (static_server content X) b g s = ((Inr (), g'), s') \<and>
    distinct (map fst (dg_rows g')) \<and> subseq (dg_rows g') (all_slices bodies) \<and> ids (dg_rows g') = ids (all_slices bodies) \<and>
    length (w_outside s') = length (w_outside s) + length bodies"
  using slices_walk [OF assms(3) assms(4) refl, of s "{}" X] assms
  by (auto simp: LoadViaGetDeleted_def kGetDeletedMaxLoops_def holds_token_def swept_def ids_def)

section \<open>The window\<close>

lemma ParseIsoUtc_range: "ParseIsoUtc v l = Inr tp \<Longrightarrow> int64_min \<le> tp \<and> tp \<le> int64_max"
  using wrap64_range by (auto simp: ParseIsoUtc_def Let_def from_time_t_def split: if_splits)

lemma time_arg_range:
  "time_arg named key dflt = Inr tp \<Longrightarrow> int64_min \<le> dflt \<Longrightarrow> dflt \<le> int64_max \<Longrightarrow> int64_min \<le> tp \<and> tp \<le> int64_max"
  by (auto simp: time_arg_def dest: ParseIsoUtc_range split: option.splits)

text \<open>
  The sweep runs over the window the user gave. A bound call names an alphanumeric object and
  one of the two sources; its window is the given times, or the last quarter of an hour, starts
  before it ends, and the replication sweep walks exactly that window at second precision (the
  one second that the C library cannot represent apart).
\<close>

theorem DeletedIdsBind_window:
  assumes "DeletedIdsBind D now inputs named = Inr b" and "int64_min + 900000000000 \<le> now" and "now \<le> int64_max"
  shows "\<exists>since until. time_arg named ''since'' (now - 900000000000) = Inr since \<and> time_arg named ''until'' now = Inr until \<and>
    since < until \<and> safe_object_name (di_object b) \<and> di_source b \<in> {''getDeleted'', ''queryAll''} \<and>
    (to_time_t since \<noteq> - 1 \<and> to_time_t until \<noteq> - 1 \<longrightarrow>
       LoadViaGetDeleted X b g s =
         get_deleted_loop X (di_object b) (to_time_t until * 1000000000) 10000 (to_time_t since * 1000000000) {} g s)"
proof -
  from assms(1) obtain since until src where
    w: "time_arg named ''since'' (now - 900000000000) = Inr since" "time_arg named ''until'' now = Inr until"
      "since < until" "source_arg D named = Inr src"
    and b: "b = \<lparr> di_alias = su_Lower D (v_ToString (inputs ! 0)), di_object = su_Upper D (v_ToString (inputs ! 1)),
      di_since = ToIsoUtc since, di_until = ToIsoUtc until, di_source = src \<rparr>"
      "safe_object_name (su_Upper D (v_ToString (inputs ! 1)))"
    by (auto simp: DeletedIdsBind_def Let_def rbind_eq_Inr split: if_splits)
  from w(4) have "src \<in> {''getDeleted'', ''queryAll''}"
    by (auto simp: source_arg_def Let_def split: option.splits if_splits)
  moreover have "int64_min \<le> since \<and> since \<le> int64_max" "int64_min \<le> until \<and> until \<le> int64_max"
    using time_arg_range [OF w(1)] time_arg_range [OF w(2)] assms(2,3) by simp_all
  then have "to_time_t since \<noteq> - 1 \<and> to_time_t until \<noteq> - 1 \<Longrightarrow> LoadViaGetDeleted X b g s =
      get_deleted_loop X (di_object b) (to_time_t until * 1000000000) 10000 (to_time_t since * 1000000000) {} g s"
    by (simp add: LoadViaGetDeleted_def b(1) ParseIso_rt kGetDeletedMaxLoops_def)
  ultimately show ?thesis using w b by auto
qed

text \<open>The queryAll sweep does not look at the end of the window.\<close>

lemma queryAll_ignores_until:
  "LoadViaQueryAll URLEncode X (b \<lparr> di_until := u \<rparr>) g s = LoadViaQueryAll URLEncode X b g s"
  by (simp add: LoadViaQueryAll_def sweep_soql_def)

section \<open>Concrete runs\<close>

definition sample_deleted_bind :: DeletedIdsBindData where
  "sample_deleted_bind = \<lparr> di_alias = ''sf'', di_object = ''LEAD'', di_since = ''2026-10-01T00:00:00Z'',
     di_until = ''2026-10-03T00:00:00Z'', di_source = ''getDeleted'' \<rparr>"

definition sample_deleted_state :: DeletedIdsGlobalState where
  "sample_deleted_state = \<lparr> dg_api_version = ''v60.0'', dg_rows = [], dg_source = ''getDeleted'', dg_latest_covered = [],
     dg_latest_covered_tp = 0, dg_loaded = False, dg_failed = False, dg_error = [], dg_cursor = 0 \<rparr>"

definition deleted_body :: "string list \<Rightarrow> string \<Rightarrow> string" where
  "deleted_body dids covered = print_json (JObj [(''latestDateCovered'', JStr covered),
     (''deletedRecords'', JArr (map (\<lambda>d. JObj [(''id'', JStr d), (''deletedDate'', JStr ''2026-10-01T00:00:01.000+0000'')]) dids))])"

text \<open>Two slices that share the id at their boundary.\<close>

definition deleted_content :: "string \<Rightarrow> string" where
  "deleted_content url =
     (if str_contains url ''start=2026-10-01'' then deleted_body [''a'', ''b''] ''2026-10-02T00:00:00.000+0000''
      else deleted_body [''b'', ''c''] ''2026-10-03T00:00:00.000+0000'')"

abbreviation oct1 :: int where "oct1 \<equiv> 1790812800000000000"
abbreviation oct2 :: int where "oct2 \<equiv> 1790899200000000000"
abbreviation oct3 :: int where "oct3 \<equiv> 1790985600000000000"

lemma ids_map: "ids rs = set (map fst rs)"
  by (simp add: ids_def)

lemma sample_slices:
  "slices (served_slice deleted_content (s_token (w_session sample_state)) ''v60.0'' ''LEAD'' oct3) oct3 oct1
     [deleted_body [''a'', ''b''] ''2026-10-02T00:00:00.000+0000'', deleted_body [''b'', ''c''] ''2026-10-03T00:00:00.000+0000'']"
proof -
  let ?B = "served_slice deleted_content (s_token (w_session sample_state)) ''v60.0'' ''LEAD'' oct3"
  have b: "?B oct1 = deleted_body [''a'', ''b''] ''2026-10-02T00:00:00.000+0000''"
    "?B oct2 = deleted_body [''b'', ''c''] ''2026-10-03T00:00:00.000+0000''" by code_simp+
  have c: "covered_to (?B oct1) = Some (Inr oct2)" "covered_to (?B oct2) = Some (Inr oct3)" by code_simp+
  have "slices ?B oct3 oct2 [?B oct2]" by (rule last_slice) (use c in auto)
  from next_slice [where B = ?B, OF _ c(1) _ _ this] show ?thesis unfolding b by simp
qed

theorem LoadViaGetDeleted_complete_witness:
  "\<exists>g' s'. LoadViaGetDeleted (static_server deleted_content history_external) sample_deleted_bind sample_deleted_state sample_state
      = ((Inr (), g'), s') \<and> distinct (map fst (dg_rows g')) \<and> ids (dg_rows g') = {''a'', ''b'', ''c''} \<and>
    length (w_outside s') = 2"
proof -
  let ?bs = "[deleted_body [''a'', ''b''] ''2026-10-02T00:00:00.000+0000'', deleted_body [''b'', ''c''] ''2026-10-03T00:00:00.000+0000'']"
  have p: "ParseIsoUtc (di_since sample_deleted_bind) ''since'' = Inr oct1"
    "ParseIsoUtc (di_until sample_deleted_bind) ''until'' = Inr oct3" by code_simp+
  have i: "map fst (all_slices ?bs) = [''a'', ''b'', ''b'', ''c'']" by code_simp
  have i': "ids (all_slices ?bs) = {''a'', ''b'', ''c''}" unfolding ids_map i by auto
  have v: "dg_api_version sample_deleted_state = ''v60.0''" "di_object sample_deleted_bind = ''LEAD''"
    "dg_rows sample_deleted_state = []" "w_outside sample_state = []"
    by (simp_all add: sample_deleted_state_def sample_deleted_bind_def sample_state_def)
  from LoadViaGetDeleted_complete [OF p, of deleted_content sample_state sample_deleted_state ?bs history_external,
      unfolded v, OF sample_slices] i'
  show ?thesis by auto
qed

theorem DeletedIdsFunction_keeps_witness:
  "case DeletedIdsFunction (\<lambda>t. t) message_of (static_server deleted_content history_external) 2
      sample_deleted_bind sample_deleted_state sample_state of
    ((r, g'), s') \<Rightarrow> deleted_ok sample_deleted_bind g'"
proof -
  let ?m = "DeletedIdsFunction (\<lambda>t. t) message_of (static_server deleted_content history_external) 2
      sample_deleted_bind sample_deleted_state sample_state"
  obtain r g' s' where m: "?m = ((r, g'), s')" by (metis prod.exhaust)
  have "deleted_ok sample_deleted_bind sample_deleted_state" by (simp add: deleted_ok_def sample_deleted_state_def)
  from DeletedIdsFunction_keeps [OF this m] show ?thesis unfolding m by simp
qed

theorem DeletedIdsBind_window_witness:
  "case DeletedIdsBind ascii_su oct2 sample_args (\<lambda>_. None) of
     Inl e \<Rightarrow> False
   | Inr b \<Rightarrow> LoadViaGetDeleted history_external b sample_deleted_state sample_state =
       get_deleted_loop history_external (di_object b) oct2 10000 (oct2 - 900000000000) {} sample_deleted_state sample_state"
proof -
  have "case DeletedIdsBind ascii_su oct2 sample_args (\<lambda>_. None) of Inl e \<Rightarrow> False | Inr b \<Rightarrow> True" by code_simp
  then obtain b where b: "DeletedIdsBind ascii_su oct2 sample_args (\<lambda>_. None) = Inr b" by (auto split: sum.splits)
  have t: "to_time_t oct2 = 1790899200" "to_time_t 1790898300000000000 = 1790898300" by code_simp+
  from DeletedIdsBind_window [OF b, of history_external sample_deleted_state sample_state] t show ?thesis
    unfolding b by (simp add: int64_min_def int64_max_def time_arg_def given_def)
qed

end
