(* ===== verification/SF_BulkResume.thy ===== *)
theory SF_BulkResume
  imports SF_Functions
begin

text \<open>
  Bulk job resume (\<^verbatim>\<open>salesforce_bulk_resume.cpp\<close>): the bind that fetches the first result page, and
  the table function that emits the pages one after the other. The page loop of the function has
  no bound, so it is a partial function in the option type: \<^term>\<open>None\<close> is "does not return".

  Shown: exactly when a call returns, that a complete run over linked pages delivers all their
  rows in order, and that a server which repeats its locator on empty pages holds the call forever.
\<close>

section \<open>Bind\<close>

record BulkResumeBindData =
  br_alias :: string
  br_job_id :: string
  br_api_version :: string
  br_results_base :: string
  br_first :: SalesforceBulkPage
  br_column_names :: "string list"

record BulkResumeGlobalState =
  rg_results_base :: string
  rg_page :: SalesforceBulkPage
  rg_have_page :: bool
  rg_cursor :: nat

definition safe_job_id :: "string \<Rightarrow> bool" where
  "safe_job_id j \<longleftrightarrow> length j \<ge> 15 \<and> length j \<le> 32 \<and> list_all isalnum j"

definition results_base_of :: "SalesforceConfig \<Rightarrow> string \<Rightarrow> string" where
  "results_base_of cfg job = ''/services/data/'' @ api_version cfg @ ''/jobs/query/'' @ job @ ''/results''"

definition BulkResumeBind ::
  "(string \<Rightarrow> attached option) \<Rightarrow> 'c external \<Rightarrow> Value list \<Rightarrow> ('c, BulkResumeBindData) sess" where
  "BulkResumeBind A X inputs =
     (if length inputs \<noteq> 2 then throw (BinderException ''salesforce_bulk_resume(catalog, job_id) takes exactly 2 arguments.'')
      else if list_ex v_IsNull inputs then throw (BinderException ''salesforce_bulk_resume: arguments must not be NULL.'')
      else let alias = su_Lower (x_su X) (v_ToString (inputs ! 0)); job = v_ToString (inputs ! 1) in
        if \<not> safe_job_id job then throw (BinderException
          (''salesforce_bulk_resume: '' @ [SQ] @ job @ [SQ] @ '' is not a valid Bulk job id ''
           @ ''(expected a 15-32 char alphanumeric id).''))
        else bnd (of_result (GetSalesforceCatalogCredentials A alias)) (\<lambda>ct.
             bnd (session_do (\<lambda>_. SetToken (snd ct) (new_session (fst ct)))) (\<lambda>_.
             bnd (BulkFetchResultPage X (results_base_of (fst ct) job)) (\<lambda>first.
             ret \<lparr> br_alias = alias, br_job_id = job, br_api_version = api_version (fst ct),
                   br_results_base = results_base_of (fst ct) job, br_first = first, br_column_names = bp_columns first \<rparr>))))"

definition BulkResumeInit ::
  "(string \<Rightarrow> attached option) \<Rightarrow> BulkResumeBindData \<Rightarrow> ('c, BulkResumeGlobalState) sess" where
  "BulkResumeInit A b =
     bnd (of_result (GetSalesforceCatalogCredentials A (br_alias b))) (\<lambda>ct.
     bnd (session_do (\<lambda>_. SetToken (snd ct) (new_session (fst ct)))) (\<lambda>_.
     ret \<lparr> rg_results_base = br_results_base b, rg_page = br_first b, rg_have_page = True, rg_cursor = 0 \<rparr>))"

section \<open>The table function\<close>

definition resume_row :: "nat \<Rightarrow> string list \<Rightarrow> cell list" where
  "resume_row columns cells =
     map (\<lambda>c. if c < length cells \<and> cells ! c \<noteq> [] then CVarchar (cells ! c) else CNull) [0..<columns]"

definition locator_path :: "BulkResumeGlobalState \<Rightarrow> string" where
  "locator_path g = rg_results_base g @ ''/'' @ bp_next_locator (rg_page g)"

definition emit_page :: "nat \<Rightarrow> BulkResumeGlobalState \<Rightarrow> nat \<Rightarrow> cell list list \<times> BulkResumeGlobalState" where
  "emit_page columns g vector_size =
     (case emit_rows (resume_row columns) (bp_rows (rg_page g)) vector_size (rg_cursor g) of
        (rows, c) \<Rightarrow> (rows, g \<lparr> rg_cursor := c \<rparr>))"

partial_function (option) BulkResumeFunction ::
  "'c external \<Rightarrow> nat \<Rightarrow> nat \<Rightarrow> BulkResumeGlobalState \<Rightarrow> 'c sworld \<Rightarrow>
     ((cell list list result \<times> BulkResumeGlobalState) \<times> 'c sworld) option" where
  "BulkResumeFunction X columns vector_size g s =
     (if rg_cursor g < length (bp_rows (rg_page g))
      then (case emit_page columns g vector_size of (rows, g') \<Rightarrow> Some ((Inr rows, g'), s))
      else if bp_next_locator (rg_page g) = [] then Some ((Inr [], g), s)
      else (case BulkFetchResultPage X (locator_path g) s of
              (Inl e, s1) \<Rightarrow> Some ((Inl e, g), s1)
            | (Inr pg, s1) \<Rightarrow> BulkResumeFunction X columns vector_size (g \<lparr> rg_page := pg, rg_cursor := 0 \<rparr>) s1))"

section \<open>What a server serves\<close>

definition turn :: "(string \<Rightarrow> SalesforceBulkPage) \<Rightarrow> BulkResumeGlobalState \<Rightarrow> BulkResumeGlobalState" where
  "turn P g = g \<lparr> rg_page := P (locator_path g), rg_cursor := 0 \<rparr>"

text \<open>The states from which the links lead, over empty pages, to rows or to the end.\<close>

inductive settles :: "(string \<Rightarrow> SalesforceBulkPage) \<Rightarrow> BulkResumeGlobalState \<Rightarrow> bool" for P where
  has_rows: "rg_cursor g < length (bp_rows (rg_page g)) \<Longrightarrow> settles P g"
| at_end: "bp_next_locator (rg_page g) = [] \<Longrightarrow> settles P g"
| turns: "settles P (turn P g) \<Longrightarrow> settles P g"

text \<open>The rows that are left, when the links end: those of this page and of the pages after it.\<close>

inductive page_rows :: "(string \<Rightarrow> SalesforceBulkPage) \<Rightarrow> BulkResumeGlobalState \<Rightarrow> string list list \<Rightarrow> bool" for P where
  last_rows: "bp_next_locator (rg_page g) = [] \<Longrightarrow> page_rows P g (drop (rg_cursor g) (bp_rows (rg_page g)))"
| more_rows: "bp_next_locator (rg_page g) \<noteq> [] \<Longrightarrow> page_rows P (turn P g) rest \<Longrightarrow>
    page_rows P g (drop (rg_cursor g) (bp_rows (rg_page g)) @ rest)"

text \<open>A complete run: calls until one returns no rows.\<close>

inductive resume_run :: "'c external \<Rightarrow> nat \<Rightarrow> nat \<Rightarrow> BulkResumeGlobalState \<Rightarrow> 'c sworld \<Rightarrow> cell list list \<Rightarrow> 'c sworld \<Rightarrow> bool"
  for X columns vector_size where
  run_ends: "BulkResumeFunction X columns vector_size g s = Some ((Inr [], g'), s') \<Longrightarrow>
    resume_run X columns vector_size g s [] s'"
| run_emits: "BulkResumeFunction X columns vector_size g s = Some ((Inr rows, g'), s') \<Longrightarrow> rows \<noteq> [] \<Longrightarrow>
    resume_run X columns vector_size g' s' rest s'' \<Longrightarrow> resume_run X columns vector_size g s (rows @ rest) s''"

inductive_cases resume_runE: "resume_run X columns n g s rows s'"

lemma resume_run_cong:
  assumes "BulkResumeFunction X columns n g s = BulkResumeFunction X columns n g1 s1" and "resume_run X columns n g1 s1 rows s'"
  shows "resume_run X columns n g s rows s'"
  using assms(2) by (rule resume_runE) (use assms(1) in \<open>auto intro: run_ends run_emits\<close>)

section \<open>Progress and delivery\<close>

text \<open>
  The interface: while the invariant holds, fetching a path gives the page of that path and keeps
  the invariant.
\<close>

locale bulk_source =
  fixes X :: "'c external" and I :: "'c sworld \<Rightarrow> bool" and P :: "string \<Rightarrow> SalesforceBulkPage"
  assumes serves: "I s \<Longrightarrow> \<exists>s'. BulkFetchResultPage X p s = (Inr (P p), s') \<and> I s'"
begin

lemma turn_step:
  assumes "I s" and "\<not> rg_cursor g < length (bp_rows (rg_page g))" and "bp_next_locator (rg_page g) \<noteq> []"
  shows "\<exists>s1. I s1 \<and> BulkResumeFunction X columns n g s = BulkResumeFunction X columns n (turn P g) s1"
proof -
  obtain s1 where s1: "BulkFetchResultPage X (locator_path g) s = (Inr (P (locator_path g)), s1)" "I s1"
    using serves [OF assms(1)] by blast
  have "BulkResumeFunction X columns n g s = BulkResumeFunction X columns n (turn P g) s1"
    using assms(2,3) s1(1) by (subst BulkResumeFunction.simps) (simp add: turn_def)
  with s1(2) show ?thesis by blast
qed

lemma returns_if_settles: "settles P g \<Longrightarrow> I s \<Longrightarrow> \<exists>y. BulkResumeFunction X columns n g s = Some y"
proof (induction arbitrary: s rule: settles.induct)
  case (has_rows g)
  then show ?case by (subst BulkResumeFunction.simps) (simp split: prod.split)
next
  case (at_end g)
  then show ?case by (subst BulkResumeFunction.simps) (simp split: prod.split)
next
  case (turns g)
  show ?case
  proof (cases "\<not> rg_cursor g < length (bp_rows (rg_page g)) \<and> bp_next_locator (rg_page g) \<noteq> []")
    case True
    with turn_step [OF turns.prems] turns.IH show ?thesis by metis
  next
    case False
    then show ?thesis by (subst BulkResumeFunction.simps) (auto split: prod.split)
  qed
qed

lemma settles_if_returns:
  assumes "BulkResumeFunction X columns n g s = Some y" and "I s"
  shows "settles P g"
proof -
  have "X' = X \<longrightarrow> I s \<longrightarrow> settles P g" if "BulkResumeFunction X' columns n g s = Some y" for X'
  proof (rule BulkResumeFunction.raw_induct [where P = "\<lambda>X' columns n g s y. X' = X \<longrightarrow> I s \<longrightarrow> settles P g", OF _ that], intro impI)
    fix f X' columns n g s y
    assume IH: "\<And>X' columns n g s y. f X' columns n g s = Some y \<Longrightarrow> X' = X \<longrightarrow> I s \<longrightarrow> settles P g"
      and eq: "(if rg_cursor g < length (bp_rows (rg_page g))
        then (case emit_page columns g n of (rows, g') \<Rightarrow> Some ((Inr rows, g'), s))
        else if bp_next_locator (rg_page g) = [] then Some ((Inr [], g), s)
        else (case BulkFetchResultPage X' (locator_path g) s of
              (Inl e, s1) \<Rightarrow> Some ((Inl e, g), s1)
            | (Inr pg, s1) \<Rightarrow> f X' columns n (g \<lparr> rg_page := pg, rg_cursor := 0 \<rparr>) s1)) = Some y"
      and X': "X' = X" and i: "I s"
    obtain s1 where s1: "BulkFetchResultPage X (locator_path g) s = (Inr (P (locator_path g)), s1)" "I s1"
      using serves [OF i] by blast
    show "settles P g"
    proof (cases "\<not> rg_cursor g < length (bp_rows (rg_page g)) \<and> bp_next_locator (rg_page g) \<noteq> []")
      case True
      with eq s1(1) X' have "f X columns n (turn P g) s1 = Some y" by (simp add: turn_def)
      with IH s1(2) have "settles P (turn P g)" by blast
      then show ?thesis by (rule turns)
    next
      case False
      then show ?thesis by (auto intro: settles.intros)
    qed
  qed
  with assms show ?thesis by blast
qed

lemma returns_iff: "I s \<Longrightarrow> (\<exists>y. BulkResumeFunction X columns n g s = Some y) \<longleftrightarrow> settles P g"
  using returns_if_settles settles_if_returns by blast

text \<open>One page at a time: a page with rows left is emitted by the calls of a list cursor.\<close>

lemma emits_page:
  assumes "0 < n" and "I s" and "\<And>s. I s \<Longrightarrow> \<exists>s'. I s' \<and> resume_run X columns n (g \<lparr> rg_cursor := length (bp_rows (rg_page g)) \<rparr>) s rest s'"
    and "rg_cursor g \<le> length (bp_rows (rg_page g))"
  shows "\<exists>s'. I s' \<and> resume_run X columns n g s (map (resume_row columns) (drop (rg_cursor g) (bp_rows (rg_page g))) @ rest) s'"
  using assms
proof (induction "length (bp_rows (rg_page g)) - rg_cursor g" arbitrary: g rule: less_induct)
  case less
  let ?rows = "bp_rows (rg_page g)" and ?now = "take n (drop (rg_cursor g) (bp_rows (rg_page g)))"
  show ?case
  proof (cases "rg_cursor g < length ?rows")
    case False
    with less.prems(4) have "rg_cursor g = length ?rows" by simp
    then have "g \<lparr> rg_cursor := length ?rows \<rparr> = g" by simp
    with less.prems(2) less.prems(3) [of s] \<open>rg_cursor g = length ?rows\<close> show ?thesis by simp
  next
    case True
    define g1 where "g1 = g \<lparr> rg_cursor := rg_cursor g + length ?now \<rparr>"
    have call: "BulkResumeFunction X columns n g s = Some ((Inr (map (resume_row columns) ?now), g1), s)"
      using True by (subst BulkResumeFunction.simps) (simp add: emit_page_def emit_rows_def Let_def g1_def)
    have ne: "map (resume_row columns) ?now \<noteq> []" using True less.prems(1) by simp
    have d: "drop (rg_cursor g1) ?rows = drop n (drop (rg_cursor g) ?rows)" "rg_page g1 = rg_page g"
      "rg_cursor g1 \<le> length ?rows" "rg_cursor g < rg_cursor g1"
      using True less.prems(1) by (auto simp: g1_def min_def add.commute)
    have dec: "length (bp_rows (rg_page g1)) - rg_cursor g1 < length ?rows - rg_cursor g" using d True by simp
    have "g1 \<lparr> rg_cursor := length ?rows \<rparr> = g \<lparr> rg_cursor := length ?rows \<rparr>" by (simp add: g1_def)
    with less.prems have "\<exists>s'. I s' \<and> resume_run X columns n g1 s
        (map (resume_row columns) (drop (rg_cursor g1) (bp_rows (rg_page g1))) @ rest) s'"
      by (intro less.hyps [OF dec]) (simp_all add: d)
    then obtain s' where s': "I s'" "resume_run X columns n g1 s (map (resume_row columns) (drop n (drop (rg_cursor g) ?rows)) @ rest) s'"
      by (auto simp: d)
    from run_emits [OF call ne s'(2)] have "resume_run X columns n g s (map (resume_row columns) (?now @ drop n (drop (rg_cursor g) ?rows)) @ rest) s'"
      by (simp only: map_append append_assoc)
    with s'(1) show ?thesis by (auto simp only: append_take_drop_id)
  qed
qed

lemma run_delivers:
  assumes "page_rows P g rs" and "0 < n" and "I s" and "rg_cursor g \<le> length (bp_rows (rg_page g))"
  shows "\<exists>s'. I s' \<and> resume_run X columns n g s (map (resume_row columns) rs) s'"
  using assms
proof (induction arbitrary: s rule: page_rows.induct)
  case (last_rows g)
  let ?g = "g \<lparr> rg_cursor := length (bp_rows (rg_page g)) \<rparr>"
  have "\<exists>s'. I s' \<and> resume_run X columns n ?g s [] s'" if "I s" for s
  proof -
    have "BulkResumeFunction X columns n ?g s = Some ((Inr [], ?g), s)"
      using last_rows(1) by (subst BulkResumeFunction.simps) simp
    with that show ?thesis by (blast intro: run_ends)
  qed
  from emits_page [OF last_rows.prems(1,2) this last_rows.prems(3)] show ?case by simp
next
  case (more_rows g rest)
  let ?g = "g \<lparr> rg_cursor := length (bp_rows (rg_page g)) \<rparr>"
  have t: "turn P ?g = turn P g" by (simp add: turn_def locator_path_def)
  have "\<exists>s'. I s' \<and> resume_run X columns n ?g s (map (resume_row columns) rest) s'" if i: "I s" for s
  proof -
    obtain s1 where s1: "I s1" "BulkResumeFunction X columns n ?g s = BulkResumeFunction X columns n (turn P g) s1"
      using turn_step [OF i, of ?g] more_rows.hyps(1) t by auto
    obtain s' where s': "I s'" "resume_run X columns n (turn P g) s1 (map (resume_row columns) rest) s'"
      using more_rows.IH [OF more_rows.prems(1) s1(1)] by (auto simp: turn_def)
    from resume_run_cong [OF s1(2) s'(2)] s'(1) show ?thesis by blast
  qed
  from emits_page [OF more_rows.prems(1,2) this more_rows.prems(3)] show ?case by simp
qed

end

section \<open>Servers of result pages\<close>

definition bulk_response :: "string \<Rightarrow> string \<Rightarrow> HttpResponse" where
  "bulk_response bd loc = ok_response bd \<lparr> headers := [(''Sforce-Locator'', loc)] \<rparr>"

definition static_bulk :: "(string \<Rightarrow> string) \<Rightarrow> (string \<Rightarrow> string) \<Rightarrow> history external \<Rightarrow> history external" where
  "static_bulk content loc X = against (\<lambda>h m rq. bulk_response (content (rq_url rq)) (loc (rq_url rq))) X"

definition served_bulk :: "string_util \<Rightarrow> (string \<Rightarrow> string) \<Rightarrow> (string \<Rightarrow> string) \<Rightarrow> SalesforceTokenSet \<Rightarrow> string \<Rightarrow> SalesforceBulkPage" where
  "served_bulk D content loc tok p =
     (let url = TrimTrailingSlash (instance_url tok) @ p in bulk_page_of D (bulk_response (content url) (loc url)))"

interpretation static_bulk: bulk_source "static_bulk content loc X" "holds_token tok" "served_bulk (x_su X) content loc tok"
  for content loc X tok
proof
  fix s :: "history sworld" and p
  assume "holds_token tok s"
  then show "\<exists>s'. BulkFetchResultPage (static_bulk content loc X) p s = (Inr (served_bulk (x_su X) content loc tok p), s') \<and> holds_token tok s'"
    by (simp add: BulkFetchResultPage_def AuthorizedSend_def sfm_simps static_bulk_def holds_token_def over_limit_def success_def
        served_bulk_def bulk_response_def ok_response_def Let_def auth_request_def resource_call_def)
qed

text \<open>
  C25: exactly when a resumed call returns. Against a server of result pages, a call of the table
  function returns if and only if the locators lead, over empty pages, to a page with rows or to a
  page without a locator; otherwise it requests pages forever.
\<close>

theorem BulkResume_returns_iff:
  "(\<exists>y. BulkResumeFunction (static_bulk content loc X) columns n g s = Some y) =
   settles (served_bulk (x_su X) content loc (s_token (w_session s))) g"
  by (rule static_bulk.returns_iff) (simp add: holds_token_def)

text \<open>
  A resumed job delivers every row once. When the locators end, a complete run from the state
  that the init makes emits the rows of all pages, in order, each row cut or padded to the columns of
  the first page, with empty cells as NULL, whatever the vector size.
\<close>

theorem BulkResume_delivers:
  assumes "page_rows (served_bulk (x_su X) content loc (s_token (w_session s))) g rs" and "0 < n" and "rg_cursor g = 0"
  shows "\<exists>s'. resume_run (static_bulk content loc X) columns n g s (map (resume_row columns) rs) s'"
  using static_bulk.run_delivers [OF assms(1,2), of s] assms(3) by (auto simp: holds_token_def)

text \<open>Two pages: the first names a locator, the second ends the job.\<close>

definition resume_content :: "string \<Rightarrow> string" where
  "resume_content url = (if str_contains url ''/results/L2'' then ''Id,Name'' @ [LF] @ ''c,'' @ [LF] else [])"

definition resume_first :: BulkResumeGlobalState where
  "resume_first = \<lparr> rg_results_base = ''/services/data/v60.0/jobs/query/750000000000001/results'',
     rg_page = \<lparr> bp_columns = [''Id'', ''Name''], bp_rows = [[''a'', ''x''], [''b'']], bp_next_locator = ''L2'' \<rparr>,
     rg_have_page = True, rg_cursor = 0 \<rparr>"

theorem BulkResume_delivers_witness:
  "\<exists>s'. resume_run (static_bulk resume_content (\<lambda>_. ''null'') history_external) 2 1 resume_first sample_state
     [[CVarchar ''a'', CVarchar ''x''], [CVarchar ''b'', CNull], [CVarchar ''c'', CNull]] s'"
proof -
  let ?P = "served_bulk (x_su history_external) resume_content (\<lambda>_. ''null'') (s_token (w_session sample_state))"
  have e: "bp_next_locator (rg_page (turn ?P resume_first)) = []"
    "drop (rg_cursor (turn ?P resume_first)) (bp_rows (rg_page (turn ?P resume_first))) = [[''c'', []]]" by code_simp+
  have f: "drop (rg_cursor resume_first) (bp_rows (rg_page resume_first)) = [[''a'', ''x''], [''b'']]"
    "bp_next_locator (rg_page resume_first) \<noteq> []" by (simp_all add: resume_first_def)
  have "page_rows ?P resume_first ([[''a'', ''x''], [''b'']] @ [[''c'', []]])"
    using more_rows [OF f(2) last_rows [where P = ?P, OF e(1)]] by (simp only: e f)
  from BulkResume_delivers [OF this, of 1 2] show ?thesis
    by (simp add: resume_first_def resume_row_def upt_rec numeral_2_eq_2)
qed

text \<open>
  A server that answers every request with an empty page and a locator: the call never returns,
  because the loop, unlike the scan's, does not notice that the locator repeats.
\<close>

lemma never_settles:
  assumes "\<And>p. bp_rows (P p) = [] \<and> bp_next_locator (P p) \<noteq> []" and "settles P g"
  shows "rg_cursor g < length (bp_rows (rg_page g)) \<or> bp_next_locator (rg_page g) = []"
  using assms(2) by (induction rule: settles.induct) (use assms(1) in \<open>simp_all add: turn_def\<close>)

lemma BulkResume_spins:
  assumes "rg_cursor g = length (bp_rows (rg_page g))" and "bp_next_locator (rg_page g) \<noteq> []"
  shows "BulkResumeFunction (static_bulk (\<lambda>_. ''Id'') (\<lambda>_. ''L'') history_external) columns n g s = None"
proof -
  let ?P = "served_bulk (x_su history_external) (\<lambda>_. ''Id'') (\<lambda>_. ''L'') (s_token (w_session s))"
  have "?P p = bulk_page_of ascii_su (bulk_response ''Id'' ''L'')" for p
    by (simp add: served_bulk_def history_external_def)
  moreover have "bp_rows (bulk_page_of ascii_su (bulk_response ''Id'' ''L'')) = []"
    "bp_next_locator (bulk_page_of ascii_su (bulk_response ''Id'' ''L'')) = ''L''" by code_simp+
  ultimately have "\<not> settles ?P g" using never_settles [of ?P g] assms by auto
  then show ?thesis using static_bulk.returns_iff [of "s_token (w_session s)" s "\<lambda>_. ''Id''" "\<lambda>_. ''L''" history_external columns n g]
    by (metis holds_token_def not_Some_eq)
qed

end
