(* ===== verification/SF_Schemas.thy ===== *)
theory SF_Schemas
  imports SF_Extension SF_DeleteSync SF_BulkResume
begin

text \<open>
  The columns the table functions declare at bind time (their names and types), and the theorem
  that the rows they return fit them: as many cells as columns, each NULL or of the declared type.
  In C++ a vector is written through a pointer of the type the function assumes, so a mismatch
  would corrupt memory.
\<close>

definition query_schema :: "(string \<times> LogicalType) list" where
  "query_schema = [(''record_index'', BIGINT), (''record_json'', VARCHAR)]"

definition describe_schema :: "(string \<times> LogicalType) list" where
  "describe_schema = [(''name'', VARCHAR), (''sf_type'', VARCHAR), (''duckdb_type'', VARCHAR), (''nullable'', BOOLEAN),
     (''length'', BIGINT), (''precision'', BIGINT), (''scale'', BIGINT), (''filterable'', BOOLEAN), (''sortable'', BOOLEAN),
     (''unknown_type'', BOOLEAN)]"

definition deleted_ids_schema :: "(string \<times> LogicalType) list" where
  "deleted_ids_schema = [(''id'', VARCHAR), (''deleted_date'', VARCHAR), (''source'', VARCHAR), (''latest_date_covered'', VARCHAR)]"

definition picklist_schema :: "(string \<times> LogicalType) list" where
  "picklist_schema = [(''value'', VARCHAR), (''label'', VARCHAR), (''active'', BOOLEAN), (''is_default'', BOOLEAN)]"

definition record_types_schema :: "(string \<times> LogicalType) list" where
  "record_types_schema = [(''developer_name'', VARCHAR), (''label'', VARCHAR), (''record_type_id'', VARCHAR), (''active'', BOOLEAN),
     (''is_default'', BOOLEAN)]"

definition metadata_objects_schema :: "(string \<times> LogicalType) list" where
  "metadata_objects_schema = [(''object_name'', VARCHAR), (''queryable'', BOOLEAN)]"

definition reports_schema :: "(string \<times> LogicalType) list" where
  "reports_schema = [(''Id'', VARCHAR), (''Name'', VARCHAR), (''DeveloperName'', VARCHAR), (''FolderName'', VARCHAR), (''Format'', VARCHAR)]"

definition refresh_schema :: "(string \<times> LogicalType) list" where
  "refresh_schema = [(''catalog'', VARCHAR), (''scope'', VARCHAR), (''object'', VARCHAR)]"

text \<open>The columns of an aggregate and of a resumed job are known by name, and all text.\<close>

definition text_schema :: "string list \<Rightarrow> (string \<times> LogicalType) list" where
  "text_schema names = map (\<lambda>n. (n, VARCHAR)) names"

definition row_fits :: "(string \<times> LogicalType) list \<Rightarrow> cell list \<Rightarrow> bool" where
  "row_fits schema row \<longleftrightarrow> list_all2 cell_of row (map snd schema)"

section \<open>Rows\<close>

lemma emit_rows_fit: "(\<And>x. row_fits schema (f x)) \<Longrightarrow> list_all (row_fits schema) (fst (emit_rows f xs n i))"
  by (simp add: emit_rows_def list_all_iff Let_def)

lemma varchar_list_of [simp]: "cell_of (varchar_list vs) (LIST VARCHAR)"
  by (simp add: varchar_list_def list_all_iff)

lemma null_or_of [simp]: "cell_of (null_or s) VARCHAR"
  by (simp add: null_or_def)

lemma bool_cell_of [simp]: "cell_of (bool_cell b) BOOLEAN"
  by (simp add: bool_cell_def split: option.split)

lemmas row_fits_defs = row_fits_def query_schema_def describe_schema_def deleted_ids_schema_def picklist_schema_def
  record_types_schema_def metadata_objects_schema_def reports_schema_def refresh_schema_def RelationshipsBind_def
  metadata_fields_schema_def explain_schema_def graph_schema_def report_soql_schema_def

lemma listing_rows_fit:
  "row_fits query_schema (query_row ir)" "row_fits describe_schema (describe_row K f)"
  "row_fits deleted_ids_schema (deleted_row dg r)" "row_fits picklist_schema (picklist_row pv)"
  "row_fits record_types_schema (record_type_row rt)"
  by (simp_all add: row_fits_defs query_row_def describe_row_def deleted_row_def nonempty_cell_def picklist_row_def record_type_row_def)

lemma metadata_rows_fit:
  "row_fits metadata_fields_schema (meta_field_cells object mf)" "row_fits metadata_objects_schema (meta_object_cells info)"
  "row_fits explain_schema (explain_cells ex)" "row_fits graph_schema (graph_cells e)"
  by (simp_all add: row_fits_defs meta_field_cells_def meta_object_cells_def explain_cells_def graph_cells_def split: option.split)

lemma relationship_rows_fit: "row_fits RelationshipsBind (rel_config_row rg)" "row_fits RelationshipsBind (rel_decision_row rg d)"
  by (simp_all add: row_fits_defs rel_config_row_def rel_decision_row_def StrOrNull_def rel_int_or_null_def)

lemma reports_row_fits: "row_fits reports_schema (reports_cells rec)"
  by (simp add: row_fits_defs reports_cells_def report_keys_def split: prod.split)

lemma report_soql_row_fits: "row_fits report_soql_schema (report_soql_cells rq)"
  by (simp add: row_fits_defs report_soql_cells_def filter_cell_def list_all_iff)

lemma text_row_fits: "row_fits (text_schema names) (map f names)" if "\<And>n. cell_of (f n) VARCHAR"
  using that by (induction names) (simp_all add: row_fits_def text_schema_def)

lemma agg_row_fits: "row_fits (text_schema (ag_columns ab)) (agg_row ab rec)"
  unfolding agg_row_def by (rule text_row_fits) (simp add: agg_cell_def split: prod.split)

lemma resume_row_fits: "row_fits (text_schema names) (resume_row (length names) cells)"
  by (simp add: row_fits_def text_schema_def resume_row_def list_all2_conv_all_nth)

lemma report_row_fits:
  assumes "report_bind_of report_id bd = Inr (columns, rb)"
  shows "row_fits columns (report_cells rb vals)"
proof -
  from assms have c: "columns = map (\<lambda>n. (n, VARCHAR)) (report_names [] (report_columns bd)) @ reserved_columns"
    "rb_data_cols rb = length (report_columns bd)"
    by (auto simp: report_bind_of_def Let_def split: if_splits prod.splits)
  have "list_all2 cell_of (map (\<lambda>c. CVarchar (if c < length vals then vals ! c else [])) [0..<rb_data_cols rb])
      (map snd (map (\<lambda>n. (n, VARCHAR)) (report_names [] (report_columns bd))))"
    by (simp add: list_all2_conv_all_nth c(2))
  then show ?thesis unfolding row_fits_def report_cells_def c(1) map_append
    by (rule list_all2_appendI) (simp add: reserved_columns_def)
qed

section \<open>Functions\<close>

lemma emitted_rows_fit:
  "list_all (row_fits query_schema) (fst (QueryFunction records n i))"
  "list_all (row_fits describe_schema) (fst (DescribeFunction K d n i))"
  "list_all (row_fits deleted_ids_schema) (fst (emit_deleted dg n i))"
  "list_all (row_fits metadata_fields_schema) (fst (MetaFieldsFunction mb n i))"
  "list_all (row_fits metadata_objects_schema) (fst (MetaObjectsFunction infos n i))"
  "list_all (row_fits explain_schema) (fst (ExplainFunction items n i))"
  "list_all (row_fits graph_schema) (fst (RelGraphFunction edges n i))"
  unfolding QueryFunction_def DescribeFunction_def emit_deleted_def MetaFieldsFunction_def MetaObjectsFunction_def
    ExplainFunction_def RelGraphFunction_def
  by (rule emit_rows_fit, rule listing_rows_fit metadata_rows_fit)+

lemma emitted_state_rows_fit:
  "list_all (row_fits RelationshipsBind) (fst (RelationshipsFunction n rg))"
  "list_all (row_fits reports_schema) (fst (reports_emit n rp))"
  "list_all (row_fits (text_schema (ag_columns ab))) (fst (agg_emit ab n g))"
  "list_all (row_fits (text_schema names)) (fst (emit_page (length names) br n))"
proof -
  have r: "row_fits RelationshipsBind (rel_row rg j)" for j by (simp add: rel_row_def relationship_rows_fit)
  show "list_all (row_fits RelationshipsBind) (fst (RelationshipsFunction n rg))"
    using emit_rows_fit [of RelationshipsBind "rel_row rg", OF r] by (simp add: RelationshipsFunction_def case_prod_beta del: upt_Suc)
  show "list_all (row_fits reports_schema) (fst (reports_emit n rp))"
    using emit_rows_fit [of reports_schema reports_cells, OF reports_row_fits] by (simp add: reports_emit_def case_prod_beta)
  show "list_all (row_fits (text_schema (ag_columns ab))) (fst (agg_emit ab n g))"
    using emit_rows_fit [of "text_schema (ag_columns ab)" "agg_row ab", OF agg_row_fits] by (simp add: agg_emit_def case_prod_beta)
  show "list_all (row_fits (text_schema names)) (fst (emit_page (length names) br n))"
    using emit_rows_fit [of "text_schema names" "resume_row (length names)", OF resume_row_fits]
    by (simp add: emit_page_def case_prod_beta)
qed

text \<open>The rows of the metadata functions are built before they are listed.\<close>

lemma hoare_result: "hoare (\<lambda>_. True) m Q \<Longrightarrow> case fst (m k) of Inl e \<Rightarrow> True | Inr v \<Rightarrow> Q v"
  unfolding hoare_def by (drule spec [of _ k]) (simp add: case_prod_beta)

lemma built_rows_fit:
  "case fst (PicklistBuild A X pb k) of Inl e \<Rightarrow> True | Inr rows \<Rightarrow> list_all (row_fits picklist_schema) rows"
  "case fst (RecordTypesBuild A X rt k) of Inl e \<Rightarrow> True | Inr rows \<Rightarrow> list_all (row_fits record_types_schema) rows"
  unfolding PicklistBuild_def RecordTypesBuild_def
  by (intro hoare_result hoare_bnd [OF hoare_true] hoare_option hoare_throw hoare_ret; auto simp: list_all_iff listing_rows_fit)+

lemma report_rows_fit:
  "case report_bind_of report_id bd of Inl e \<Rightarrow> True | Inr (columns, rb) \<Rightarrow> list_all (row_fits columns) (fst (ReportFunction rb n i))"
  unfolding ReportFunction_def by (auto split: sum.splits intro!: emit_rows_fit report_row_fits)

lemma fits_cell_of: "fits c t \<Longrightarrow> cell_of c t"
  by (cases c) simp_all

lemma diagnostic_fits:
  assumes "diagnostic_function f schema row"
  shows "list_all (row_fits schema) (fst (f emitted g))"
proof -
  have "row_fits schema (row g)"
    using diagnostic_function.row_fits [OF assms, of g] by (auto simp: row_fits_def intro: list_all2_mono fits_cell_of)
  then show ?thesis
    using diagnostic_function.first_call [OF assms, of g] diagnostic_function.later_calls [OF assms, of g] by (cases emitted) simp_all
qed

lemmas diagnostic_rows_fit =
  diagnostic_fits [OF last_soql.diagnostic_function_axioms] diagnostic_fits [OF last_pages.diagnostic_function_axioms]
  diagnostic_fits [OF last_bulk.diagnostic_function_axioms] diagnostic_fits [OF last_transport.diagnostic_function_axioms]
  diagnostic_fits [OF describe_calls.diagnostic_function_axioms] diagnostic_fits [OF tooling_calls.diagnostic_function_axioms]
  diagnostic_fits [OF global_calls.diagnostic_function_axioms] diagnostic_fits [OF last_quota.diagnostic_function_axioms]
  diagnostic_fits [OF query_cost.diagnostic_function_axioms]

text \<open>
  C19: Every row a table function returns fits the columns it declared when it was bound. With
  vectors of any size, from any cursor and on any data, the rows of queries, describes, deleted
  ids, metadata listings, explanations, the relationship graph, relationships, reports,
  aggregates, resumed jobs, picklists, record types, report runs and report translations, and of
  the one-row diagnostics, have exactly one cell per column, and each is NULL or of its column's
  type.
\<close>

theorem rows_fit_schemas:
  "list_all (row_fits query_schema) (fst (QueryFunction records n i)) \<and>
   list_all (row_fits describe_schema) (fst (DescribeFunction K d n i)) \<and>
   list_all (row_fits deleted_ids_schema) (fst (emit_deleted dg n i)) \<and>
   list_all (row_fits metadata_fields_schema) (fst (MetaFieldsFunction mb n i)) \<and>
   list_all (row_fits metadata_objects_schema) (fst (MetaObjectsFunction infos n i)) \<and>
   list_all (row_fits explain_schema) (fst (ExplainFunction items n i)) \<and>
   list_all (row_fits graph_schema) (fst (RelGraphFunction edges n i)) \<and>
   list_all (row_fits RelationshipsBind) (fst (RelationshipsFunction n rg)) \<and>
   list_all (row_fits reports_schema) (fst (reports_emit n rp)) \<and>
   list_all (row_fits (text_schema (ag_columns ab))) (fst (agg_emit ab n g)) \<and>
   list_all (row_fits (text_schema names)) (fst (emit_page (length names) br n)) \<and>
   (case fst (PicklistBuild A X pb k) of Inl e \<Rightarrow> True | Inr rows \<Rightarrow> list_all (row_fits picklist_schema) rows) \<and>
   (case fst (RecordTypesBuild A X rt k) of Inl e \<Rightarrow> True | Inr rows \<Rightarrow> list_all (row_fits record_types_schema) rows) \<and>
   (case report_bind_of report_id bd of Inl e \<Rightarrow> True | Inr (columns, rb) \<Rightarrow> list_all (row_fits columns) (fst (ReportFunction rb n i))) \<and>
   list_all (row_fits report_soql_schema) (fst (ReportSoqlFunction rq emitted)) \<and>
   list_all (row_fits LastSoqlBind) (fst (LastSoqlFunction emitted gl)) \<and>
   list_all (row_fits LastPagesBind) (fst (LastPagesFunction emitted gl)) \<and>
   list_all (row_fits LastBulkBodyBind) (fst (LastBulkBodyFunction emitted gl)) \<and>
   list_all (row_fits LastTransportBind) (fst (LastTransportFunction emitted gl)) \<and>
   list_all (row_fits CallsBind) (fst (DescribeCallsFunction emitted gl)) \<and>
   list_all (row_fits CallsBind) (fst (ToolingCallsFunction emitted gl)) \<and>
   list_all (row_fits CallsBind) (fst (GlobalCallsFunction emitted gl)) \<and>
   list_all (row_fits LastQuotaBind) (fst (LastQuotaFunction emitted gl)) \<and>
   list_all (row_fits QueryCostBind) (fst (QueryCostFunction emitted gl))"
  by (intro conjI emitted_rows_fit emitted_state_rows_fit built_rows_fit report_rows_fit diagnostic_rows_fit)
     (simp add: ReportSoqlFunction_def report_soql_row_fits)

end
