(* ===== verification/Spec2Isabelle.thy ===== *)
theory Spec2Isabelle
  imports SF_Run SF_Schemas
begin

text \<open>
  A verification library for the DuckDB Salesforce extension.

  \<^bold>\<open>The program.\<close> The extension attaches a Salesforce org as a read-only DuckDB catalog. ATTACH parses
  and validates a configuration, exchanges credentials for a token and keeps both. A table name is
  resolved by describing the object once; a scan translates the filters that DuckDB offers into
  SOQL, chooses between the REST query API and Bulk API jobs, fetches pages lazily and decodes
  their values into typed columns. An optimizer pass turns aggregates over a scan into one aggregate
  query. Besides the catalog there are table functions that run a query, a describe, an aggregate, a
  delete sweep, a resumed job or a report, functions that list the org's metadata and relationships
  or translate a report to SOQL, and functions that explain what the last scan did.

  \<^bold>\<open>The theories, bottom up\<close> (file names are under \<^verbatim>\<open>src/src\<close>):

  \<^item> \<^verbatim>\<open>SF_Prelude\<close>: exceptions, results, state-and-exception computations, the string and integer
    functions of the C++ library, DuckDB's \<^verbatim>\<open>StringUtil\<close> as a record with its contract as a locale.
  \<^item> \<^verbatim>\<open>SF_Json\<close>, \<^verbatim>\<open>SF_Csv\<close>, \<^verbatim>\<open>SF_Codec\<close>: the JSON readers, the CSV reader, URL encoding, base64, redaction.
  \<^item> \<^verbatim>\<open>SF_Types\<close>, \<^verbatim>\<open>SF_Soql\<close>, \<^verbatim>\<open>SF_Pushdown\<close>: type mapping and describe parsing, filter translation
    (\<^verbatim>\<open>salesforce_soql.cpp\<close>), and its meaning: a semantics of both engines over which translated
    filters are compared with the originals.
  \<^item> \<^verbatim>\<open>SF_Config\<close>, \<^verbatim>\<open>SF_Http\<close>, \<^verbatim>\<open>SF_Auth\<close>: ATTACH options, the HTTP client with its retries and the
    scripted client, the token exchanges.
  \<^item> \<^verbatim>\<open>SF_Diag\<close>, \<^verbatim>\<open>SF_Session\<close>, \<^verbatim>\<open>SF_Quota\<close>: the process-wide diagnostics, the authenticated session with
    its re-authentication, pagination and Bulk jobs, the quota governor.
  \<^item> \<^verbatim>\<open>SF_Value\<close>, \<^verbatim>\<open>SF_Chunk\<close>, \<^verbatim>\<open>SF_Scan\<close>, \<^verbatim>\<open>SF_Run\<close>: value decoding, Id chunking, the scan with all its paths
    (\<^verbatim>\<open>salesforce_scan.cpp\<close>), and the runs of its table function.
  \<^item> \<^verbatim>\<open>SF_Cursor\<close>, \<^verbatim>\<open>SF_Hoare\<close>: the contract of a row cursor, and partial-correctness rules.
  \<^item> \<^verbatim>\<open>SF_RelDiag\<close>, \<^verbatim>\<open>SF_Catalog\<close>: relationship diagnostics, and the catalog with its caches
    (\<^verbatim>\<open>salesforce_storage.cpp\<close>), whose reachable states are an inductive set.
  \<^item> \<^verbatim>\<open>SF_Functions\<close>, \<^verbatim>\<open>SF_Aggregate\<close>, \<^verbatim>\<open>SF_Time\<close>, \<^verbatim>\<open>SF_DeleteSync\<close>, \<^verbatim>\<open>SF_BulkResume\<close>, \<^verbatim>\<open>SF_Meta\<close>: the table
    functions for queries, describes, user scans, aggregates, the delete sweep with its
    timestamps, resumed jobs, picklists and record types.
  \<^item> \<^verbatim>\<open>SF_AggOpt\<close>: the optimizer pass (\<^verbatim>\<open>salesforce_agg_optimizer.cpp\<close>) on plans of DuckDB operators, and
    a semantics of plans over which a rewritten plan is compared with the original.
  \<^item> \<^verbatim>\<open>SF_MetaEngine\<close>, \<^verbatim>\<open>SF_MetaSource\<close>, \<^verbatim>\<open>SF_MetaGraph\<close> (\<^verbatim>\<open>salesforce_metadata_engine.cpp\<close>): the metadata cache of a
    catalog with its refresh and its listings; its contract as a source of describes; explanations of
    the last scan, and the relationship graph.
  \<^item> \<^verbatim>\<open>SF_Report\<close>, \<^verbatim>\<open>SF_ReportSoql\<close> (\<^verbatim>\<open>salesforce_report.cpp\<close>): report listings and runs, and the translation of a
    report to SOQL with its verdict.
  \<^item> \<^verbatim>\<open>SF_Database\<close>: the attached catalog and its transactions as one state, under every operation DuckDB
    can ask for; \<^verbatim>\<open>SF_Extension\<close> (\<^verbatim>\<open>salesforce_extension.cpp\<close>): what loading registers, the settings with their
    defaults; \<^verbatim>\<open>SF_Schemas\<close>: the columns the table functions declare.

  \<^bold>\<open>Correspondence.\<close> A C++ struct or class is a record with the same members, an operation a
    definition of the same name. State is passed explicitly: \<open>'c sworld\<close> holds the outside world, the
    diagnostics and the session object; \<open>'c catalog_world\<close> adds the schema entry. Exceptions are
    values and keep the state changes made before them. What the repository does not contain is a
    parameter: DuckDB's string utilities, casts, settings and catalog lookup, the HTTP library,
    OpenSSL, the clocks; \<open>'c external\<close> groups those that every request needs.

  \<^bold>\<open>Interfaces.\<close> Locales state the contracts between components, and each is interpreted on the
    model's own definitions: string utilities, the HTTP client interface (live and scripted
    clients), page sources and Bulk sources (servers that answer by path), row cursors (every
  listing function), one-row diagnostics, invariants of the catalog's resolution and of its caches, sources of object
  metadata (the engine against a server that knows an org).

  \<^bold>\<open>What is shown.\<close> Pushdown of filters that compare text only by equality, \<^verbatim>\<open>IN\<close> and \<^verbatim>\<open>LIKE\<close> loses no row on
  a server that may ignore case, and the filters it keeps restore the exact result where the pushed ones
  are exact; for the filters outside these, a server is given on which rows are lost or added. The lazy scan
  delivers what the eager query returns; chunk ranges partition the Ids; a request is repeated once after
  a 401, and what it returns is the server's answer or the error for it; pagination ends; string literals
  and generated queries cannot be broken out of, and nothing but https is contacted; accepted
  configurations are well formed, and what ATTACH returns depends on no secret but in the secret fields;
  the catalog's caches stay consistent, and an object is described once until it is refreshed; decoded
  cells have their column's type, parent structs included; a Bulk job starts only where the transport, the
  quota policy and the predicate guard let it; the delete sweep is complete and free of duplicates;
  timestamps, CSV, base64, form and SOQL encodings round-trip; a resumed job returns exactly when its
  locators lead somewhere. The optimizer pass preserves the meaning of plans whose filters were pushed; the
  metadata engine asks for each object once and a refresh forgets it; the relationship graph is exactly the
  acyclic paths of the org's references up to the depth; a report is translated exactly when nothing
  blocks it, and then to the expected query. An attached database is read-only under any interleaving of
  operations, its transactions change nothing, and its two caches stay those of the attached org; the
  registered defaults are the fallbacks of the code; and every row a table function returns fits its
  declared columns. Behaviours that differ from what the source says of itself are lemmas too, such as
  \<^verbatim>\<open>text_equality_adds_rows\<close>, \<^verbatim>\<open>text_inequality_loses_rows\<close>, \<^verbatim>\<open>raw_filter_defeats_guard\<close>,
  \<^verbatim>\<open>raw_filter_ignored_by_bulk\<close> and \<^verbatim>\<open>BulkResume_spins\<close>.

  \<^bold>\<open>Bounds and fuel.\<close> Loops that the code bounds carry that bound (a million query and scan pages,
    100000 Tooling and sweep pages, 10000 replication slices, the poll budget, three retries by
    default), and their termination measure is the distance to it. The only loop without a bound, that
    of \<^verbatim>\<open>BulkResumeFunction\<close>, is a partial function, and when it returns is characterised exactly.
    64-bit and 32-bit arithmetic is reduced where a value can leave the range.

  \<^bold>\<open>Not modelled.\<close> The compatibility header (\<^verbatim>\<open>salesforce_duckdb_compat.hpp\<close>) only renames between two
  DuckDB versions, and the descriptions and examples that loading attaches to functions are texts.
  The scripted response bodies of the test client are modelled, its registered defaults are not
  compared with the fallbacks, because only tests read them. Threads are sequences of calls on a
  shared state; locks are not modelled, because every critical section is one step of the model.
\<close>

section \<open>The listing functions together\<close>

lemma RelationshipsInit_start: "rg_row_idx (RelationshipsInit snap) = 0" "rg_snap (RelationshipsInit snap) = snap"
  by (simp_all add: RelationshipsInit_def split: prod.split)

text \<open>
  C31: the listing table functions lose nothing. Called until they return no rows, with vectors of
  any positive size, \<^verbatim>\<open>salesforce_query\<close>, \<^verbatim>\<open>salesforce_describe\<close>, \<^verbatim>\<open>salesforce_deleted_ids\<close>, the metadata
  functions, \<^verbatim>\<open>salesforce_aggregate\<close>, \<^verbatim>\<open>salesforce_relationships\<close>, the field and object listings of the
  metadata engine, \<^verbatim>\<open>salesforce_query_explain\<close>, \<^verbatim>\<open>salesforce_relationship_graph\<close>, \<^verbatim>\<open>salesforce_reports\<close>
  and \<^verbatim>\<open>salesforce_report\<close> deliver exactly the rows of what they loaded, each once and in order.
\<close>

theorem table_functions_lossless:
  assumes "0 < n"
  shows "(drains (QueryFunction records) n 0 rows \<longleftrightarrow> rows = map query_row (enumerate 0 records)) \<and>
    (drains (DescribeFunction K d) n 0 rows \<longleftrightarrow> rows = map (describe_row K) (d_fields d)) \<and>
    (drains (emit_deleted dg) n 0 rows \<longleftrightarrow> rows = map (deleted_row dg) (dg_rows dg)) \<and>
    (drains (emit_meta mg) n 0 rows \<longleftrightarrow> rows = mg_rows mg) \<and>
    (drains (agg_emit b) n \<lparr> agg_fetched = True, agg_records = recs, agg_cursor = 0 \<rparr> rows \<longleftrightarrow> rows = map (agg_row b) recs) \<and>
    (drains RelationshipsFunction n (RelationshipsInit snap) rows \<longleftrightarrow>
       rows = rel_config_row (RelationshipsInit snap) # map (rel_decision_row (RelationshipsInit snap)) (rs_decisions snap)) \<and>
    (drains (MetaFieldsFunction mb) n 0 rows \<longleftrightarrow> rows = map (meta_field_cells (mfb_object_name mb)) (mfb_rows mb)) \<and>
    (drains (MetaObjectsFunction infos) n 0 rows \<longleftrightarrow> rows = map meta_object_cells infos) \<and>
    (drains (ExplainFunction items) n 0 rows \<longleftrightarrow> rows = map explain_cells items) \<and>
    (drains (RelGraphFunction edges) n 0 rows \<longleftrightarrow> rows = map graph_cells edges) \<and>
    (drains reports_emit n rp rows \<longleftrightarrow> rows = map reports_cells (drop (rp_cursor rp) (rp_records rp))) \<and>
    (drains (ReportFunction rb) n 0 rows \<longleftrightarrow> rows = map (report_cells rb) (rb_rows rb))"
  using query.drains_iff [OF assms, of records 0 rows] describe.drains_iff [OF assms, of K d 0 rows]
    deleted.drains_iff [OF assms, of dg 0 rows] meta.drains_iff [OF assms, of mg 0 rows]
    agg.drains_iff [OF assms, of b _ rows] relationships.drains_iff [OF assms, of "RelationshipsInit snap" rows]
    meta_fields.drains_iff [OF assms, of mb 0 rows] meta_objects.drains_iff [OF assms, of infos 0 rows]
    query_explain.drains_iff [OF assms, of items 0 rows] relationship_graph.drains_iff [OF assms, of edges 0 rows]
    reports.drains_iff [OF assms, of rp rows] report.drains_iff [OF assms, of rb 0 rows]
  by (simp add: rel_rows_left_def RelationshipsInit_start)

theorem table_functions_lossless_witness:
  "drains (QueryFunction [''x'', ''y'', ''z'']) 2 0 [[CBigint 0, CVarchar ''x''], [CBigint 1, CVarchar ''y''], [CBigint 2, CVarchar ''z'']]"
  using table_functions_lossless [of 2 "[''x'', ''y'', ''z'']" "map query_row (enumerate 0 [''x'', ''y'', ''z''])"]
  by (simp add: query_row_def)

end
